theory Spec2Isabelle
  imports Complex_Main
begin

section \<open>Numbers, vectors and the data model\<close>

text \<open>
  The engine computes on JavaScript numbers. They are modelled as real numbers:
  rounding, NaN and overflow are outside the model. Every division of the source
  that is modelled here is guarded against a zero divisor by the source itself, or
  divides by a constant that is not zero.
  \<^verbatim>\<open>Infinity\<close> occurs in the source only as the initial value of a running
  minimum or maximum; the type \<open>num\<close> below covers those places.

  An optional field of a configuration object is an \<open>option\<close>. The source reads
  such fields with \<^verbatim>\<open>config.f || d\<close>, which yields \<open>d\<close> when the field is
  missing and also when it is falsy (the number 0, the empty string).
\<close>

definition or_default :: "real option \<Rightarrow> real \<Rightarrow> real" where
  "or_default v d = (case v of None \<Rightarrow> d | Some r \<Rightarrow> if r = 0 then d else r)"

definition or_default_str :: "string option \<Rightarrow> string \<Rightarrow> string" where
  "or_default_str v d = (case v of None \<Rightarrow> d | Some s \<Rightarrow> if s = [] then d else s)"

definition truthy :: "bool option \<Rightarrow> bool" where
  "truthy v = (case v of None \<Rightarrow> False | Some b \<Rightarrow> b)"

record Vector2 =
  xv :: real
  yv :: real

text \<open>\<^verbatim>\<open>Vec2\<close> of \<^verbatim>\<open>physics/math.ts\<close>.\<close>

definition vadd :: "Vector2 \<Rightarrow> Vector2 \<Rightarrow> Vector2" where
  "vadd v1 v2 = \<lparr>xv = xv v1 + xv v2, yv = yv v1 + yv v2\<rparr>"

definition vsub :: "Vector2 \<Rightarrow> Vector2 \<Rightarrow> Vector2" where
  "vsub v1 v2 = \<lparr>xv = xv v1 - xv v2, yv = yv v1 - yv v2\<rparr>"

definition vmul :: "Vector2 \<Rightarrow> real \<Rightarrow> Vector2" where
  "vmul v s = \<lparr>xv = xv v * s, yv = yv v * s\<rparr>"

definition vdiv :: "Vector2 \<Rightarrow> real \<Rightarrow> Vector2" where
  "vdiv v s = \<lparr>xv = xv v / s, yv = yv v / s\<rparr>"

definition vdot :: "Vector2 \<Rightarrow> Vector2 \<Rightarrow> real" where
  "vdot v1 v2 = xv v1 * xv v2 + yv v1 * yv v2"

definition vlen :: "Vector2 \<Rightarrow> real" where
  "vlen v = sqrt (xv v * xv v + yv v * yv v)"

definition vlenSq :: "Vector2 \<Rightarrow> real" where
  "vlenSq v = xv v * xv v + yv v * yv v"

definition vdist :: "Vector2 \<Rightarrow> Vector2 \<Rightarrow> real" where
  "vdist v1 v2 = sqrt ((xv v1 - xv v2)\<^sup>2 + (yv v1 - yv v2)\<^sup>2)"

definition vnormalize :: "Vector2 \<Rightarrow> Vector2" where
  "vnormalize v =
     (let l = sqrt (xv v * xv v + yv v * yv v)
      in if l = 0 then \<lparr>xv = 0, yv = 0\<rparr> else \<lparr>xv = xv v / l, yv = yv v / l\<rparr>)"

definition vrotate :: "Vector2 \<Rightarrow> real \<Rightarrow> Vector2" where
  "vrotate v a =
     (let c = cos a; s = sin a
      in \<lparr>xv = xv v * c - yv v * s, yv = xv v * s + yv v * c\<rparr>)"

definition vperp :: "Vector2 \<Rightarrow> Vector2" where
  "vperp v = \<lparr>xv = - yv v, yv = xv v\<rparr>"

datatype MaterialType = Steel | Wood | Rubber | Concrete | ClothMaterial

datatype ShapeType = Box | Circle | Plane | Cloth

record Material =
  mat_density :: real
  mat_restitution :: real
  mat_friction :: real
  mat_color :: string

text \<open>The table \<^verbatim>\<open>MATERIALS\<close>; \<open>None\<close> selects \<^verbatim>\<open>MATERIALS.default\<close>.\<close>

fun MATERIALS :: "MaterialType option \<Rightarrow> Material" where
  "MATERIALS (Some Steel) =
     \<lparr>mat_density = 7850, mat_restitution = 5/10, mat_friction = 4/10, mat_color = ''#95a5a6''\<rparr>"
| "MATERIALS (Some Wood) =
     \<lparr>mat_density = 700, mat_restitution = 2/10, mat_friction = 6/10, mat_color = ''#d35400''\<rparr>"
| "MATERIALS (Some Rubber) =
     \<lparr>mat_density = 1100, mat_restitution = 8/10, mat_friction = 9/10, mat_color = ''#e74c3c''\<rparr>"
| "MATERIALS (Some Concrete) =
     \<lparr>mat_density = 2400, mat_restitution = 1/10, mat_friction = 8/10, mat_color = ''#7f8c8d''\<rparr>"
| "MATERIALS (Some ClothMaterial) =
     \<lparr>mat_density = 500, mat_restitution = 1/10, mat_friction = 9/10, mat_color = ''#e67e22''\<rparr>"
| "MATERIALS None =
     \<lparr>mat_density = 1000, mat_restitution = 5/10, mat_friction = 5/10, mat_color = ''#3498db''\<rparr>"

definition GRAVITY :: real where
  "GRAVITY = 981 / 100"

definition DT :: real where
  "DT = 1 / 60"

record SimObjectConfig =
  cfg_mass :: "real option"
  cfg_material :: "MaterialType option"
  cfg_x :: "real option"
  cfg_y :: "real option"
  cfg_width :: "real option"
  cfg_height :: "real option"
  cfg_radius :: "real option"
  cfg_fixed :: "bool option"
  cfg_color :: "string option"
  cfg_vx :: "real option"
  cfg_vy :: "real option"
  cfg_angle :: "real option"
  cfg_segmentsX :: "real option"
  cfg_segmentsY :: "real option"
  cfg_pinTop :: "bool option"

record SimObject =
  oid :: string
  type :: ShapeType
  mass :: real
  invMass :: real
  inertia :: real
  invInertia :: real
  pos :: Vector2
  oldPos :: Vector2
  vel :: Vector2
  force :: Vector2
  angle :: real
  oldAngle :: real
  restitution :: real
  friction :: real
  width :: real
  height :: real
  radius :: real
  fixed :: bool
  color :: string
  vertices :: "Vector2 list option"

record Constraint =
  cid :: string
  bodyA :: string
  bodyB :: string
  clength :: real
  stiffness :: real
  ccolor :: string

record ConnectConfig =
  cc_length :: "real option"
  cc_stiffness :: "real option"
  cc_color :: "string option"

section \<open>The particle cloud (\<^verbatim>\<open>FluidSystem\<close>, \<^verbatim>\<open>GPGPU\<close>)\<close>

text \<open>
  A texture is the list of its texels, one RGBA quadruple per particle. A ping-pong
  state holds the texture read by the next pass and the texture written by it.
\<close>

type_synonym texel = "real \<times> real \<times> real \<times> real"

record GPUState =
  tex_in :: "texel list"
  tex_out :: "texel list"

definition TEX_WIDTH :: nat where
  "TEX_WIDTH = 64"

definition TEX_HEIGHT :: nat where
  "TEX_HEIGHT = 64"

text \<open>\<^verbatim>\<open>createState\<close>: two textures allocated without data.\<close>

definition createState :: GPUState where
  "createState =
     \<lparr>tex_in = replicate (TEX_WIDTH * TEX_HEIGHT) (0, 0, 0, 0),
      tex_out = replicate (TEX_WIDTH * TEX_HEIGHT) (0, 0, 0, 0)\<rparr>"

definition writeData :: "texel list \<Rightarrow> GPUState \<Rightarrow> GPUState" where
  "writeData d st = st\<lparr>tex_in := d\<rparr>"

text \<open>
  \<^verbatim>\<open>GPGPU.run\<close>: the program is evaluated at every texel coordinate on the two
  input textures, the result is drawn into \<^verbatim>\<open>output.out\<close>, and the two
  textures of the output state are swapped.
\<close>

definition gpu_run ::
  "(texel \<Rightarrow> texel \<Rightarrow> texel) \<Rightarrow> texel list \<Rightarrow> texel list \<Rightarrow> GPUState \<Rightarrow> GPUState" where
  "gpu_run program input0 input1 output =
     \<lparr>tex_in = map (\<lambda>i. program (input0 ! i) (input1 ! i)) [0..<TEX_WIDTH * TEX_HEIGHT],
      tex_out = tex_in output\<rparr>"

text \<open>The shader \<^verbatim>\<open>updateVelSource\<close> at one texel.\<close>

definition updateVel :: "real \<Rightarrow> real \<Rightarrow> texel \<Rightarrow> texel \<Rightarrow> texel" where
  "updateVel uDT uGravity p v =
     (case p of (px, py, pz, pw) \<Rightarrow>
      case v of (vx0, vy0, vz, vw) \<Rightarrow>
        let vy1 = vy0 - uGravity * uDT;
            vy2 = (if py < 0 then \<bar>vy1\<bar> * (6/10) else vy1);
            vx1 = (if py < 0 then vx0 * (95/100) else vx0);
            vx2 = (if px < -10 \<or> px > 10 then vx1 * (-(8/10)) else vx1)
        in (vx2, vy2, vz, vw))"

text \<open>The shader \<^verbatim>\<open>updatePosSource\<close> at one texel.\<close>

definition updatePos :: "real \<Rightarrow> texel \<Rightarrow> texel \<Rightarrow> texel" where
  "updatePos uDT p v =
     (case p of (px, py, pz, pw) \<Rightarrow>
      case v of (vx0, vy0, vz, vw) \<Rightarrow>
        let px1 = px + vx0 * uDT;
            py1 = py + vy0 * uDT;
            py2 = (if py1 < 0 then 0 else py1);
            px2 = (if px1 < -10 then -10 else px1);
            px3 = (if px2 > 10 then 10 else px2)
        in (px3, py2, pz, pw))"

record FluidSystem =
  posState :: GPUState
  velState :: GPUState

text \<open>
  The constructor. \<open>rnd k\<close> is the value of the \<open>k\<close>-th call of
  \<^verbatim>\<open>Math.random()\<close>; particle \<open>i\<close> makes the calls \<open>4 * i\<close> to \<open>4 * i + 3\<close>.
\<close>

definition FluidSystem_new :: "(nat \<Rightarrow> real) \<Rightarrow> FluidSystem" where
  "FluidSystem_new rnd =
     (let posData = map (\<lambda>i. (rnd (4 * i) * 10 - 5, rnd (4 * i + 1) * 10 + 5, 0, 1))
                      [0..<TEX_WIDTH * TEX_HEIGHT];
          velData = map (\<lambda>i. ((rnd (4 * i + 2) - 1/2) * 2, (rnd (4 * i + 3) - 1/2) * 2, 0, 0))
                      [0..<TEX_WIDTH * TEX_HEIGHT]
      in \<lparr>posState = writeData posData createState,
          velState = writeData velData createState\<rparr>)"

definition fluid_step :: "real \<Rightarrow> real \<Rightarrow> FluidSystem \<Rightarrow> FluidSystem" where
  "fluid_step dt gravity fs =
     (let vs = gpu_run (updateVel dt gravity) (tex_in (posState fs)) (tex_in (velState fs))
                 (velState fs);
          ps = gpu_run (updatePos dt) (tex_in (posState fs)) (tex_in vs) (posState fs)
      in \<lparr>posState = ps, velState = vs\<rparr>)"

definition getParticles :: "FluidSystem \<Rightarrow> texel list" where
  "getParticles fs = tex_in (posState fs)"

section \<open>The engine (\<^verbatim>\<open>PhysicsEngine\<close>)\<close>

text \<open>
  The array \<^verbatim>\<open>objects\<close> is the store of the bodies: a reference to a body is
  its index in the array (bodies are only ever appended, and removed by \<^verbatim>\<open>reset\<close>
  alone). \<^verbatim>\<open>objectMap\<close> maps an identifier to such a reference, and
  \<^verbatim>\<open>draggedObj\<close> is one. The module-level counter \<^verbatim>\<open>idCounter\<close> is part of
  the state. A log line \<^verbatim>\<open>[${time.toFixed(2)}s] ${msg}\<close> is kept as the pair of
  its time and its message.
\<close>

record LogEntry =
  stamp :: real
  message :: string

record PhysicsEngine =
  objects :: "SimObject list"
  objectMap :: "string \<rightharpoonup> nat"
  constraints :: "Constraint list"
  time :: real
  logs :: "LogEntry list"
  draggedObj :: "nat option"
  idCounter :: nat
  fluidSystem :: FluidSystem

datatype error = TypeError | NonFinite

definition subSteps :: nat where
  "subSteps = 8"

definition constraintIterations :: nat where
  "constraintIterations = 5"

fun string_of_nat :: "nat \<Rightarrow> string" where
  "string_of_nat n =
     (if n < 10 then [''0123456789'' ! n]
      else string_of_nat (n div 10) @ [''0123456789'' ! (n mod 10)])"

declare string_of_nat.simps [simp del]

definition shape_name :: "ShapeType \<Rightarrow> string" where
  "shape_name t = (case t of Box \<Rightarrow> ''box'' | Circle \<Rightarrow> ''circle''
                   | Plane \<Rightarrow> ''plane'' | Cloth \<Rightarrow> ''cloth'')"

text \<open>\<^verbatim>\<open>generateId\<close> returns \<^verbatim>\<open>obj_\<close> followed by the incremented counter.\<close>

definition generateId :: "PhysicsEngine \<Rightarrow> string \<times> PhysicsEngine" where
  "generateId s = (''obj_'' @ string_of_nat (idCounter s + 1), s\<lparr>idCounter := idCounter s + 1\<rparr>)"

definition reset :: "PhysicsEngine \<Rightarrow> PhysicsEngine" where
  "reset s = s\<lparr>objects := [], objectMap := Map.empty, constraints := [], time := 0,
               logs := [], idCounter := 0, draggedObj := None\<rparr>"

definition PhysicsEngine_new :: "(nat \<Rightarrow> real) \<Rightarrow> PhysicsEngine" where
  "PhysicsEngine_new rnd =
     \<lparr>objects = [], objectMap = Map.empty, constraints = [], time = 0, logs = [],
      draggedObj = None, idCounter = 0, fluidSystem = FluidSystem_new rnd\<rparr>"

definition log_msg :: "string \<Rightarrow> PhysicsEngine \<Rightarrow> PhysicsEngine" where
  "log_msg msg s =
     (let l = logs s @ [\<lparr>stamp = time s, message = msg\<rparr>]
      in s\<lparr>logs := (if length l > 50 then tl l else l)\<rparr>)"

definition updateGeometry :: "SimObject \<Rightarrow> SimObject" where
  "updateGeometry obj =
     (if type obj = Box then
        let hw = width obj / 2;
            hh = height obj / 2;
            locals = [\<lparr>xv = - hw, yv = - hh\<rparr>, \<lparr>xv = hw, yv = - hh\<rparr>,
                      \<lparr>xv = hw, yv = hh\<rparr>, \<lparr>xv = - hw, yv = hh\<rparr>]
        in obj\<lparr>vertices := Some (map (\<lambda>p. vadd (pos obj) (vrotate p (angle obj))) locals)\<rparr>
      else obj)"

text \<open>
  The body that \<^verbatim>\<open>add\<close> builds for a kind other than cloth, with the identifier
  \<open>ident\<close> drawn from \<^verbatim>\<open>generateId\<close>: the object literal, the canonicalisation of
  a plane into a wide fixed box, and the first \<^verbatim>\<open>updateGeometry\<close>.
\<close>

definition newObject :: "ShapeType \<Rightarrow> SimObjectConfig \<Rightarrow> string \<Rightarrow> SimObject" where
  "newObject ty config ident =
     (let matProps = MATERIALS (cfg_material config);
          pos0 = \<lparr>xv = or_default (cfg_x config) 0, yv = or_default (cfg_y config) 0\<rparr>;
          vel0 = \<lparr>xv = or_default (cfg_vx config) 0, yv = or_default (cfg_vy config) 0\<rparr>;
          width0 = or_default (cfg_width config) (if ty = Box then 1 else 0);
          height0 = or_default (cfg_height config) (if ty = Box then 1 else 0);
          radius0 = or_default (cfg_radius config) (if ty = Circle then 1/2 else 0);
          angle0 = or_default (cfg_angle config) 0;
          mass0 = (if truthy (cfg_fixed config) then 0 else or_default (cfg_mass config) 1);
          invMass0 = (if mass0 = 0 then 0 else 1 / mass0);
          inertia0 = (if mass0 > 0 then
                        (if ty = Box then mass0 * (width0 * width0 + height0 * height0) / 12
                         else if ty = Circle then mass0 * radius0 * radius0 / 2
                         else 0)
                      else 0);
          invInertia0 = (if inertia0 = 0 \<or> truthy (cfg_fixed config) then 0 else 1 / inertia0);
          obj = \<lparr>oid = ident, type = ty, mass = mass0, invMass = invMass0, inertia = inertia0,
                 invInertia = invInertia0, pos = pos0, oldPos = vsub pos0 (vmul vel0 DT),
                 vel = vel0, force = \<lparr>xv = 0, yv = 0\<rparr>, angle = angle0, oldAngle = angle0,
                 restitution = mat_restitution matProps, friction = mat_friction matProps,
                 width = width0, height = height0, radius = radius0,
                 fixed = truthy (cfg_fixed config),
                 color = or_default_str (cfg_color config) (mat_color matProps),
                 vertices = Some []\<rparr>;
          obj1 = (if ty = Plane then
                    obj\<lparr>type := Box, width := 1000, height := 1, fixed := True, invMass := 0,
                        invInertia := 0,
                        pos := (pos obj)\<lparr>yv := yv (pos obj) - 1/2\<rparr>,
                        oldPos := (oldPos obj)\<lparr>yv := yv (pos obj) - 1/2\<rparr>\<rparr>
                  else obj)
      in updateGeometry obj1)"

text \<open>
  \<^verbatim>\<open>add\<close> for a kind other than cloth: the new body is pushed on the array, entered
  in the map under its identifier, and the creation is logged. The result is the
  reference to the new body.
\<close>

definition addBody :: "ShapeType \<Rightarrow> SimObjectConfig \<Rightarrow> PhysicsEngine \<Rightarrow> nat \<times> PhysicsEngine" where
  "addBody ty config s =
     (let (ident, s1) = generateId s;
          obj = newObject ty config ident;
          ref = length (objects s1);
          s2 = s1\<lparr>objects := objects s1 @ [obj], objectMap := (objectMap s1)(oid obj \<mapsto> ref)\<rparr>
      in (ref, log_msg (''Added '' @ shape_name ty @ '' ['' @ oid obj @ '']'') s2))"

definition connect :: "string \<Rightarrow> string \<Rightarrow> ConnectConfig \<Rightarrow> PhysicsEngine \<Rightarrow> PhysicsEngine" where
  "connect idA idB config s =
     (case (objectMap s idA, objectMap s idB) of
        (Some a, Some b) \<Rightarrow>
          let dist = vdist (pos (objects s ! a)) (pos (objects s ! b));
              (ident, s1) = generateId s;
              constraint = \<lparr>cid = ''c_'' @ ident, bodyA = idA, bodyB = idB,
                            clength = or_default (cc_length config) dist,
                            stiffness = or_default (cc_stiffness config) (5/10),
                            ccolor = or_default_str (cc_color config) ''#3498db''\<rparr>
          in s1\<lparr>constraints := constraints s1 @ [constraint]\<rparr>
      | _ \<Rightarrow> s)"

subsection \<open>Cloth\<close>

text \<open>\<^verbatim>\<open>a && b\<close> for an optional boolean \<open>a\<close>: the value is \<open>a\<close> itself when it is falsy.\<close>

definition js_and :: "bool option \<Rightarrow> bool \<Rightarrow> bool option" where
  "js_and a b = (case a of None \<Rightarrow> None | Some t \<Rightarrow> if t then Some b else Some False)"

text \<open>The configuration \<^verbatim>\<open>addCloth\<close> passes to \<^verbatim>\<open>add\<close> for one particle.\<close>

definition clothParticleConfig ::
  "SimObjectConfig \<Rightarrow> real \<Rightarrow> real \<Rightarrow> bool option \<Rightarrow> SimObjectConfig" where
  "clothParticleConfig config px py isFixed =
     \<lparr>cfg_mass = Some (1/10), cfg_material = Some ClothMaterial, cfg_x = Some px,
      cfg_y = Some py, cfg_width = None, cfg_height = None, cfg_radius = Some (1/10),
      cfg_fixed = isFixed, cfg_color = Some (or_default_str (cfg_color config) ''#e67e22''),
      cfg_vx = None, cfg_vy = None, cfg_angle = None, cfg_segmentsX = None,
      cfg_segmentsY = None, cfg_pinTop = None\<rparr>"

text \<open>
  The number of iterations of \<^verbatim>\<open>for (let k = 0; k <= seg; k++)\<close> for a number
  \<open>seg\<close>, which need not be a whole number.
\<close>

definition loopCount :: "real \<Rightarrow> nat" where
  "loopCount seg = nat (\<lfloor>seg\<rfloor> + 1)"

text \<open>
  The inner loop of the particle grid: one row. The particles are circles, so the
  call \<^verbatim>\<open>this.add('circle', ...)\<close> is \<open>addBody Circle\<close>.
\<close>

fun clothRow ::
  "SimObjectConfig \<Rightarrow> real \<Rightarrow> real \<Rightarrow> real \<Rightarrow> nat \<Rightarrow> nat list \<Rightarrow> PhysicsEngine
   \<Rightarrow> string list \<times> PhysicsEngine" where
  "clothRow config startX dx py y [] s = ([], s)"
| "clothRow config startX dx py y (x # xs) s =
     (let isFixed = js_and (cfg_pinTop config) (y = 0);
          (p, s1) = addBody Circle (clothParticleConfig config (startX + real x * dx) py isFixed) s;
          (row, s2) = clothRow config startX dx py y xs s1
      in (oid (objects s1 ! p) # row, s2))"

fun clothParticles ::
  "SimObjectConfig \<Rightarrow> real \<Rightarrow> real \<Rightarrow> real \<Rightarrow> real \<Rightarrow> nat list \<Rightarrow> nat list \<Rightarrow> PhysicsEngine
   \<Rightarrow> string list list \<times> PhysicsEngine" where
  "clothParticles config startX startY dx dy xs [] s = ([], s)"
| "clothParticles config startX startY dx dy xs (y # ys) s =
     (let (row, s1) = clothRow config startX dx (startY - real y * dy) y xs s;
          (grid, s2) = clothParticles config startX startY dx dy xs ys s1
      in (row # grid, s2))"

text \<open>\<^verbatim>\<open>grid[y][x]\<close> for a row \<open>y\<close> that exists: \<^verbatim>\<open>undefined\<close> past the end of the row.\<close>

definition grid_get :: "string list list \<Rightarrow> nat \<Rightarrow> nat \<Rightarrow> string option" where
  "grid_get grid y x = (if x < length (grid ! y) then Some (grid ! y ! x) else None)"

text \<open>
  \<^verbatim>\<open>connect\<close> called with identifiers read from the grid: the map has no entry for
  \<^verbatim>\<open>undefined\<close>, so such a call returns at once.
\<close>

definition connect_opt ::
  "string option \<Rightarrow> string option \<Rightarrow> ConnectConfig \<Rightarrow> PhysicsEngine \<Rightarrow> PhysicsEngine" where
  "connect_opt ia ib config s =
     (case (ia, ib) of (Some idA, Some idB) \<Rightarrow> connect idA idB config s | _ \<Rightarrow> s)"

definition clothConnectConfig :: ConnectConfig where
  "clothConnectConfig =
     \<lparr>cc_length = None, cc_stiffness = Some (8/10), cc_color = Some ''#d35400''\<rparr>"

text \<open>
  The two nested loops that create the structural constraints, over the cells \<open>(y, x)\<close>
  in the order of the source. Reading \<^verbatim>\<open>grid[y+1][x]\<close> for a row that does not exist
  raises a \<^verbatim>\<open>TypeError\<close>; the constraints created before stay.
\<close>

fun clothConstraints ::
  "string list list \<Rightarrow> real \<Rightarrow> real \<Rightarrow> (nat \<times> nat) list \<Rightarrow> PhysicsEngine
   \<Rightarrow> error option \<times> PhysicsEngine" where
  "clothConstraints grid segX segY [] s = (None, s)"
| "clothConstraints grid segX segY ((y, x) # cells) s =
     (let s1 = (if real x < segX
                then connect_opt (grid_get grid y x) (grid_get grid y (x + 1)) clothConnectConfig s
                else s)
      in if real y < segY then
           (if y + 1 < length grid
            then clothConstraints grid segX segY cells
                   (connect_opt (grid_get grid y x) (grid_get grid (y + 1) x) clothConnectConfig s1)
            else (Some TypeError, s1))
         else clothConstraints grid segX segY cells s1)"

text \<open>
  \<^verbatim>\<open>addCloth\<close>. The result is the reference found under \<^verbatim>\<open>grid[0][0]\<close>:
  a \<^verbatim>\<open>TypeError\<close> when the grid has no row, \<^verbatim>\<open>undefined\<close> when the first row is
  empty.
\<close>

definition addCloth :: "SimObjectConfig \<Rightarrow> PhysicsEngine \<Rightarrow> (error + nat option) \<times> PhysicsEngine" where
  "addCloth config s =
     (let segX = or_default (cfg_segmentsX config) 10;
          segY = or_default (cfg_segmentsY config) 10;
          w = or_default (cfg_width config) 4;
          h = or_default (cfg_height config) 4;
          startX = or_default (cfg_x config) 0 - w / 2;
          startY = or_default (cfg_y config) 0 + h / 2;
          dx = w / segX;
          dy = h / segY;
          xs = [0..<loopCount segX];
          ys = [0..<loopCount segY];
          (grid, s1) = clothParticles config startX startY dx dy xs ys s;
          (err, s2) = clothConstraints grid segX segY (List.product ys xs) s1
      in case err of
           Some e \<Rightarrow> (Inl e, s2)
         | None \<Rightarrow>
             (if grid = [] then (Inl TypeError, s2)
              else case grid_get grid 0 0 of
                     None \<Rightarrow> (Inr None, s2)
                   | Some ident \<Rightarrow> (Inr (objectMap s2 ident), s2)))"

definition add ::
  "ShapeType \<Rightarrow> SimObjectConfig \<Rightarrow> PhysicsEngine \<Rightarrow> (error + nat option) \<times> PhysicsEngine" where
  "add ty config s =
     (if ty = Cloth then addCloth config s
      else let (ref, s1) = addBody ty config s in (Inr (Some ref), s1))"

section \<open>The constraint solver (\<^verbatim>\<open>ConstraintSystem\<close>)\<close>

text \<open>
  The body of the \<^verbatim>\<open>forEach\<close> of \<^verbatim>\<open>solve\<close>: one constraint, on the store \<open>os\<close>
  of the bodies. The two endpoints are written one after the other, the second read
  from the store the first write left.
\<close>

definition solveConstraint ::
  "(string \<rightharpoonup> nat) \<Rightarrow> Constraint \<Rightarrow> SimObject list \<Rightarrow> SimObject list" where
  "solveConstraint om c os =
     (case (om (bodyA c), om (bodyB c)) of
        (Some a, Some b) \<Rightarrow>
          if fixed (os ! a) \<and> fixed (os ! b) then os
          else
            let currentDist = vdist (pos (os ! a)) (pos (os ! b))
            in if currentDist = 0 then os
               else
                 let delta = currentDist - clength c;
                     correction = delta / currentDist;
                     vec = vsub (pos (os ! b)) (pos (os ! a));
                     share = stiffness c * (5/10);
                     nudge = vmul vec (correction * share);
                     os1 = (if \<not> fixed (os ! a)
                            then os[a := (os ! a)\<lparr>pos := vadd (pos (os ! a)) nudge\<rparr>] else os);
                     os2 = (if \<not> fixed (os1 ! b)
                            then os1[b := (os1 ! b)\<lparr>pos := vsub (pos (os1 ! b)) nudge\<rparr>] else os1)
                 in os2
      | _ \<Rightarrow> os)"

definition solve :: "Constraint list \<Rightarrow> (string \<rightharpoonup> nat) \<Rightarrow> SimObject list \<Rightarrow> SimObject list" where
  "solve cs om os = fold (solveConstraint om) cs os"

section \<open>Collision detection and resolution (\<^verbatim>\<open>CollisionSystem\<close>)\<close>

text \<open>
  A manifold refers to its two bodies; the references are indices into the store.
\<close>

record Manifold =
  m_bodyA :: nat
  m_bodyB :: nat
  normal :: Vector2
  depth :: real
  hasCollision :: bool

text \<open>
  The numbers of the running minima and maxima, which start at \<^verbatim>\<open>Infinity\<close> or
  \<^verbatim>\<open>-Infinity\<close>, with the comparisons and the arithmetic of JavaScript on them.
\<close>

datatype num = Fin real | PInf | NInf | NaN

fun num_less :: "num \<Rightarrow> num \<Rightarrow> bool" where
  "num_less (Fin a) (Fin b) = (a < b)"
| "num_less (Fin a) PInf = True"
| "num_less NInf (Fin b) = True"
| "num_less NInf PInf = True"
| "num_less _ _ = False"

fun num_ge :: "num \<Rightarrow> num \<Rightarrow> bool" where
  "num_ge (Fin a) (Fin b) = (a \<ge> b)"
| "num_ge NaN _ = False"
| "num_ge _ NaN = False"
| "num_ge PInf _ = True"
| "num_ge _ NInf = True"
| "num_ge _ _ = False"

fun num_sub :: "num \<Rightarrow> num \<Rightarrow> num" where
  "num_sub (Fin a) (Fin b) = Fin (a - b)"
| "num_sub NaN _ = NaN"
| "num_sub _ NaN = NaN"
| "num_sub PInf PInf = NaN"
| "num_sub NInf NInf = NaN"
| "num_sub PInf _ = PInf"
| "num_sub NInf _ = NInf"
| "num_sub (Fin a) PInf = NInf"
| "num_sub (Fin a) NInf = PInf"

text \<open>\<^verbatim>\<open>Math.min\<close>.\<close>

fun num_min :: "num \<Rightarrow> num \<Rightarrow> num" where
  "num_min NaN _ = NaN"
| "num_min _ NaN = NaN"
| "num_min a b = (if num_less b a then b else a)"

fun projectLoop :: "Vector2 list \<Rightarrow> Vector2 \<Rightarrow> num \<times> num \<Rightarrow> num \<times> num" where
  "projectLoop [] axis acc = acc"
| "projectLoop (v # vs) axis (mn, mx) =
     (let proj = vdot v axis;
          mn1 = (if num_less (Fin proj) mn then Fin proj else mn);
          mx1 = (if num_less mx (Fin proj) then Fin proj else mx)
      in projectLoop vs axis (mn1, mx1))"

definition projectVertices :: "Vector2 list \<Rightarrow> Vector2 \<Rightarrow> num \<times> num" where
  "projectVertices vs axis = projectLoop vs axis (PInf, NInf)"

definition projectCircle :: "SimObject \<Rightarrow> Vector2 \<Rightarrow> num \<times> num" where
  "projectCircle circ axis =
     (let centerProj = vdot (pos circ) axis
      in (Fin (centerProj - radius circ), Fin (centerProj + radius circ)))"

text \<open>
  The loop over the edges of a polygon \<open>P\<close>, which the source writes three times: for
  each edge index the perpendicular axis, the two projections (\<open>projA\<close> and \<open>projB\<close>
  give those of the first and the second shape), the early return on a separating
  axis (the result \<open>None\<close>), and the running axis of least depth.
\<close>

definition edgeAxis :: "Vector2 list \<Rightarrow> nat \<Rightarrow> Vector2" where
  "edgeAxis P i =
     (let v1 = P ! i;
          v2 = P ! ((i + 1) mod length P);
          edge = vsub v2 v1
      in vnormalize (vperp edge))"

text \<open>
  The test of one axis: \<open>None\<close> when the projections do not overlap on it,
  the updated pair of normal and depth otherwise.
\<close>

definition testAxis ::
  "Vector2 \<Rightarrow> num \<times> num \<Rightarrow> num \<times> num \<Rightarrow> Vector2 \<times> num \<Rightarrow> (Vector2 \<times> num) option" where
  "testAxis axis pa pb acc =
     (case pa of (minA, maxA) \<Rightarrow>
      case pb of (minB, maxB) \<Rightarrow>
      case acc of (normal0, depth0) \<Rightarrow>
        if num_ge minA maxB \<or> num_ge minB maxA then None
        else
          let axisDepth = num_min (num_sub maxB minA) (num_sub maxA minB)
          in if num_less axisDepth depth0 then Some (axis, axisDepth)
             else Some (normal0, depth0))"

fun axesLoop ::
  "Vector2 list \<Rightarrow> (Vector2 \<Rightarrow> num \<times> num) \<Rightarrow> (Vector2 \<Rightarrow> num \<times> num) \<Rightarrow> nat list
   \<Rightarrow> Vector2 \<times> num \<Rightarrow> (Vector2 \<times> num) option" where
  "axesLoop P projA projB [] acc = Some acc"
| "axesLoop P projA projB (i # is) acc =
     (let axis = edgeAxis P i
      in case testAxis axis (projA axis) (projB axis) acc of
           None \<Rightarrow> None
         | Some acc1 \<Rightarrow> axesLoop P projA projB is acc1)"

text \<open>The normal is turned to point from the first body to the second.\<close>

definition orient :: "Vector2 \<Rightarrow> Vector2 \<Rightarrow> Vector2" where
  "orient direction n = (if vdot direction n < 0 then vmul n (-1) else n)"

definition circleVsCircle :: "SimObject list \<Rightarrow> nat \<Rightarrow> nat \<Rightarrow> Manifold" where
  "circleVsCircle os a b =
     (let n = vsub (pos (os ! b)) (pos (os ! a));
          distSq = vlenSq n;
          radiusSum = radius (os ! a) + radius (os ! b)
      in if distSq > radiusSum * radiusSum
         then \<lparr>m_bodyA = a, m_bodyB = b, normal = \<lparr>xv = 0, yv = 0\<rparr>, depth = 0,
               hasCollision = False\<rparr>
         else
           let dist = sqrt distSq
           in if dist = 0
              then \<lparr>m_bodyA = a, m_bodyB = b, normal = \<lparr>xv = 1, yv = 0\<rparr>, depth = radiusSum,
                    hasCollision = True\<rparr>
              else \<lparr>m_bodyA = a, m_bodyB = b, normal = vdiv n dist, depth = radiusSum - dist,
                    hasCollision = True\<rparr>)"

text \<open>
  \<^verbatim>\<open>polygonVsPolygon\<close>. \<open>Inr None\<close> is the result \<^verbatim>\<open>null\<close>. The depth of a
  manifold is a real number; when no axis was tested (both vertex lists empty) the
  source returns the depth \<^verbatim>\<open>Infinity\<close>, which is the result \<open>Inl NonFinite\<close> here.
\<close>

definition polygonVsPolygon :: "SimObject list \<Rightarrow> nat \<Rightarrow> nat \<Rightarrow> error + Manifold option" where
  "polygonVsPolygon os a b =
     (case (vertices (os ! a), vertices (os ! b)) of
        (Some va, Some vb) \<Rightarrow>
          (case axesLoop va (projectVertices va) (projectVertices vb) [0..<length va]
                  (\<lparr>xv = 0, yv = 0\<rparr>, PInf) of
             None \<Rightarrow> Inr None
           | Some acc1 \<Rightarrow>
               (case axesLoop vb (projectVertices va) (projectVertices vb) [0..<length vb] acc1 of
                  None \<Rightarrow> Inr None
                | Some (normal1, depth1) \<Rightarrow>
                    let direction = vsub (pos (os ! b)) (pos (os ! a));
                        normal2 = orient direction normal1
                    in case depth1 of
                         Fin d \<Rightarrow> Inr (Some \<lparr>m_bodyA = a, m_bodyB = b, normal = normal2,
                                              depth = d, hasCollision = True\<rparr>)
                       | _ \<Rightarrow> Inl NonFinite))
      | _ \<Rightarrow> Inr None)"

fun closestLoop :: "Vector2 \<Rightarrow> Vector2 list \<Rightarrow> Vector2 \<times> num \<Rightarrow> Vector2 \<times> num" where
  "closestLoop c [] acc = acc"
| "closestLoop c (v # vs) (closestVertex, minDistSq) =
     (let distSq = vlenSq (vsub c v)
      in closestLoop c vs
           (if num_less (Fin distSq) minDistSq then (v, Fin distSq)
            else (closestVertex, minDistSq)))"

text \<open>
  \<^verbatim>\<open>circleVsPolygon\<close>. With an empty vertex list \<^verbatim>\<open>closestVertex\<close> is
  \<^verbatim>\<open>undefined\<close> and \<^verbatim>\<open>Vec2.sub\<close> raises a \<^verbatim>\<open>TypeError\<close>.
\<close>

definition circleVsPolygon :: "SimObject list \<Rightarrow> nat \<Rightarrow> nat \<Rightarrow> error + Manifold option" where
  "circleVsPolygon os c p =
     (case vertices (os ! p) of
        None \<Rightarrow> Inr None
      | Some vp \<Rightarrow>
          (case axesLoop vp (projectCircle (os ! c)) (projectVertices vp) [0..<length vp]
                  (\<lparr>xv = 0, yv = 0\<rparr>, PInf) of
             None \<Rightarrow> Inr None
           | Some acc1 \<Rightarrow>
               if vp = [] then Inl TypeError
               else
                 let closestVertex = fst (closestLoop (pos (os ! c)) vp (vp ! 0, PInf));
                     axis = vnormalize (vsub closestVertex (pos (os ! c)))
                 in case testAxis axis (projectCircle (os ! c) axis) (projectVertices vp axis) acc1 of
                      None \<Rightarrow> Inr None
                    | Some (normal1, depth1) \<Rightarrow>
                        let direction = vsub (pos (os ! p)) (pos (os ! c));
                            normal2 = orient direction normal1
                        in case depth1 of
                             Fin d \<Rightarrow> Inr (Some \<lparr>m_bodyA = c, m_bodyB = p, normal = normal2,
                                                  depth = d, hasCollision = True\<rparr>)
                           | _ \<Rightarrow> Inl NonFinite))"

definition detectCollision :: "SimObject list \<Rightarrow> nat \<Rightarrow> nat \<Rightarrow> error + Manifold option" where
  "detectCollision os a b =
     (let tA = type (os ! a); tB = type (os ! b)
      in if tA = Circle \<and> tB = Circle then Inr (Some (circleVsCircle os a b))
         else if tA = Box \<and> tB = Box then polygonVsPolygon os a b
         else if tA = Circle \<and> tB = Box then circleVsPolygon os a b
         else if tA = Box \<and> tB = Circle then circleVsPolygon os b a
         else if tA = Plane \<and> tB = Box then polygonVsPolygon os b a
         else if tA = Box \<and> tB = Plane then polygonVsPolygon os a b
         else if tA = Plane \<and> tB = Circle then circleVsPolygon os b a
         else if tA = Circle \<and> tB = Plane then circleVsPolygon os a b
         else Inr None)"

text \<open>
  \<^verbatim>\<open>applyResolution\<close>: the position correction, then the friction applied to the
  old positions. The bodies are written through their references, one statement after
  the other.
\<close>

definition applyResolution :: "Manifold \<Rightarrow> SimObject list \<Rightarrow> SimObject list" where
  "applyResolution m os =
     (let a = m_bodyA m;
          b = m_bodyB m;
          invMassA = invMass (os ! a);
          invMassB = invMass (os ! b);
          invMassSum = invMassA + invMassB
      in if invMassSum = 0 then os
         else
           let separation = vmul (normal m) (depth m);
               moveA = vmul separation (- invMassA / invMassSum);
               moveB = vmul separation (invMassB / invMassSum);
               os1 = (if \<not> fixed (os ! a)
                      then os[a := (os ! a)\<lparr>pos := vadd (pos (os ! a)) moveA\<rparr>] else os);
               os2 = (if \<not> fixed (os1 ! b)
                      then os1[b := (os1 ! b)\<lparr>pos := vadd (pos (os1 ! b)) moveB\<rparr>] else os1);
               tangent = vnormalize (vperp (normal m));
               velA = vsub (pos (os2 ! a)) (oldPos (os2 ! a));
               velB = vsub (pos (os2 ! b)) (oldPos (os2 ! b));
               relVel = vsub velB velA;
               tanVel = vdot relVel tangent;
               mu = min (friction (os2 ! a)) (friction (os2 ! b));
               frictionImpulse = vmul tangent (tanVel * mu);
               os3 = (if \<not> fixed (os2 ! a)
                      then os2[a := (os2 ! a)\<lparr>oldPos :=
                                   vadd (oldPos (os2 ! a)) (vmul frictionImpulse (5/10))\<rparr>]
                      else os2);
               os4 = (if \<not> fixed (os3 ! b)
                      then os3[b := (os3 ! b)\<lparr>oldPos :=
                                   vsub (oldPos (os3 ! b)) (vmul frictionImpulse (5/10))\<rparr>]
                      else os3)
           in os4)"

text \<open>
  The body of the two loops of \<^verbatim>\<open>resolve\<close> for the pair \<open>(i, j)\<close>. The callback the
  engine passes does nothing, so the call of it is left out. An error of the detection
  ends the pass; the store is returned as it is then.
\<close>

definition resolvePair :: "nat \<Rightarrow> nat \<Rightarrow> SimObject list \<Rightarrow> error option \<times> SimObject list" where
  "resolvePair i j os =
     (if fixed (os ! i) \<and> fixed (os ! j) then (None, os)
      else case detectCollision os i j of
             Inl e \<Rightarrow> (Some e, os)
           | Inr None \<Rightarrow> (None, os)
           | Inr (Some m) \<Rightarrow> if hasCollision m then (None, applyResolution m os) else (None, os))"

fun resolvePairs :: "(nat \<times> nat) list \<Rightarrow> SimObject list \<Rightarrow> error option \<times> SimObject list" where
  "resolvePairs [] os = (None, os)"
| "resolvePairs ((i, j) # ps) os =
     (case resolvePair i j os of
        (Some e, os1) \<Rightarrow> (Some e, os1)
      | (None, os1) \<Rightarrow> resolvePairs ps os1)"

definition resolve :: "SimObject list \<Rightarrow> error option \<times> SimObject list" where
  "resolve os =
     resolvePairs (concat (map (\<lambda>i. map (Pair i) [i + 1..<length os]) [0..<length os])) os"

section \<open>The simulation loop\<close>

definition applyForce :: "SimObject \<Rightarrow> SimObject" where
  "applyForce obj =
     (let fy = - GRAVITY * mass obj;
          fx1 = xv (force obj) - xv (vel obj) * (1/100);
          fy1 = fy - yv (vel obj) * (1/100)
      in obj\<lparr>force := \<lparr>xv = fx1, yv = fy1\<rparr>\<rparr>)"

definition applyForces :: "PhysicsEngine \<Rightarrow> PhysicsEngine" where
  "applyForces s =
     s\<lparr>objects := map (\<lambda>(k, obj). if fixed obj \<or> draggedObj s = Some k then obj
                                   else applyForce obj)
                     (enumerate 0 (objects s))\<rparr>"

text \<open>The Verlet update of one body that is neither fixed nor dragged.\<close>

definition integrateObj :: "real \<Rightarrow> SimObject \<Rightarrow> SimObject" where
  "integrateObj dt obj =
     (let vel0 = vsub (pos obj) (oldPos obj);
          tempPos = pos obj;
          acc = vmul (force obj) (invMass obj);
          delta = vadd vel0 (vmul acc (dt * dt));
          pos1 = vadd (pos obj) delta;
          angVel = angle obj - oldAngle obj;
          tempAngle = angle obj
      in obj\<lparr>pos := pos1, oldPos := tempPos, vel := vdiv (vsub pos1 tempPos) dt,
             force := \<lparr>xv = 0, yv = 0\<rparr>, angle := angle obj + angVel, oldAngle := tempAngle\<rparr>)"

definition integrate :: "real \<Rightarrow> PhysicsEngine \<Rightarrow> PhysicsEngine" where
  "integrate dt s =
     s\<lparr>objects := map (\<lambda>(k, obj). if fixed obj then obj
                                   else if draggedObj s = Some k
                                   then obj\<lparr>oldPos := pos obj, oldAngle := angle obj\<rparr>
                                   else integrateObj dt obj)
                     (enumerate 0 (objects s))\<rparr>"

text \<open>One pass of the loop over the sub-steps.\<close>

definition subStep :: "real \<Rightarrow> PhysicsEngine \<Rightarrow> error option \<times> PhysicsEngine" where
  "subStep subDt s =
     (let s1 = applyForces s;
          s2 = integrate subDt s1;
          s3 = s2\<lparr>objects := map updateGeometry (objects s2)\<rparr>;
          os4 = ((solve (constraints s3) (objectMap s3)) ^^ constraintIterations) (objects s3);
          (err, os5) = resolve os4
      in (err, s3\<lparr>objects := os5\<rparr>))"

fun subStepLoop :: "nat \<Rightarrow> real \<Rightarrow> PhysicsEngine \<Rightarrow> error option \<times> PhysicsEngine" where
  "subStepLoop 0 subDt s = (None, s)"
| "subStepLoop (Suc n) subDt s =
     (case subStep subDt s of
        (Some e, s1) \<Rightarrow> (Some e, s1)
      | (None, s1) \<Rightarrow> subStepLoop n subDt s1)"

definition step :: "PhysicsEngine \<Rightarrow> error option \<times> PhysicsEngine" where
  "step s =
     (let subDt = DT / real subSteps;
          s1 = s\<lparr>time := time s + DT\<rparr>;
          s2 = s1\<lparr>fluidSystem := fluid_step DT GRAVITY (fluidSystem s1)\<rparr>
      in subStepLoop subSteps subDt s2)"

subsection \<open>Dragging\<close>

fun startDragLoop :: "real \<Rightarrow> real \<Rightarrow> nat list \<Rightarrow> PhysicsEngine \<Rightarrow> PhysicsEngine" where
  "startDragLoop x y [] s = s"
| "startDragLoop x y (i # is) s =
     (let obj = objects s ! i
      in if fixed obj then startDragLoop x y is s
         else
           let r = (if type obj = Circle then radius obj else max (width obj) (height obj) / 2)
           in if vdist \<lparr>xv = x, yv = y\<rparr> (pos obj) < r + 5/10 then s\<lparr>draggedObj := Some i\<rparr>
              else startDragLoop x y is s)"

definition startDrag :: "real \<Rightarrow> real \<Rightarrow> PhysicsEngine \<Rightarrow> PhysicsEngine" where
  "startDrag x y s = startDragLoop x y (rev [0..<length (objects s)]) s"

definition updateDrag :: "real \<Rightarrow> real \<Rightarrow> PhysicsEngine \<Rightarrow> PhysicsEngine" where
  "updateDrag x y s =
     (case draggedObj s of
        None \<Rightarrow> s
      | Some k \<Rightarrow>
          let obj = objects s ! k;
              dx = x - xv (pos obj);
              dy = y - yv (pos obj)
          in s\<lparr>objects := (objects s)[k := obj\<lparr>pos := \<lparr>xv = x, yv = y\<rparr>,
                                                oldPos := \<lparr>xv = x - dx * (1/10),
                                                           yv = y - dy * (1/10)\<rparr>\<rparr>]\<rparr>)"

definition endDrag :: "PhysicsEngine \<Rightarrow> PhysicsEngine" where
  "endDrag s = s\<lparr>draggedObj := None\<rparr>"

subsection \<open>Sequences of calls\<close>

text \<open>
  The calls of the public interface that change the engine, and the state a sequence
  of them leaves. A call that raises leaves the state it had reached.
\<close>

datatype call =
  Add ShapeType SimObjectConfig
| Connect string string ConnectConfig
| Reset
| Step
| StartDrag real real
| UpdateDrag real real
| EndDrag

fun exec :: "call \<Rightarrow> PhysicsEngine \<Rightarrow> PhysicsEngine" where
  "exec (Add ty config) s = snd (add ty config s)"
| "exec (Connect idA idB config) s = connect idA idB config s"
| "exec Reset s = reset s"
| "exec Step s = snd (step s)"
| "exec (StartDrag x y) s = startDrag x y s"
| "exec (UpdateDrag x y) s = updateDrag x y s"
| "exec EndDrag s = endDrag s"

definition run :: "call list \<Rightarrow> PhysicsEngine \<Rightarrow> PhysicsEngine" where
  "run cs s = fold exec cs s"

text \<open>
  A scenario is a sequence of \<^verbatim>\<open>add\<close> and \<^verbatim>\<open>connect\<close> calls. Replaying it stops
  at the first call that raises. The result lists what the calls returned.
\<close>

datatype command =
  AddCmd ShapeType SimObjectConfig
| ConnectCmd string string ConnectConfig

fun replay ::
  "command list \<Rightarrow> PhysicsEngine \<Rightarrow> (error option \<times> nat option list) \<times> PhysicsEngine" where
  "replay [] s = ((None, []), s)"
| "replay (AddCmd ty config # cmds) s =
     (case add ty config s of
        (Inl e, s1) \<Rightarrow> ((Some e, []), s1)
      | (Inr r, s1) \<Rightarrow> (case replay cmds s1 of ((err, rs), s2) \<Rightarrow> ((err, r # rs), s2)))"
| "replay (ConnectCmd idA idB config # cmds) s =
     (case replay cmds (connect idA idB config s) of
        ((err, rs), s2) \<Rightarrow> ((err, None # rs), s2))"

section \<open>Notions used in the statements\<close>

text \<open>A particle position inside the domain: above the floor and between the walls.\<close>

definition in_domain :: "texel \<Rightarrow> bool" where
  "in_domain p = (case p of (x, y, z, w) \<Rightarrow> 0 \<le> y \<and> -10 \<le> x \<and> x \<le> 10)"

text \<open>
  The interval a vertex list projects to on an axis, the separation of two such
  intervals (touching intervals count as separated), their overlap, and the list of
  the axes that the detection computes for the edges of a polygon. The detection
  functions above are compared with these.
\<close>

definition projMin :: "Vector2 list \<Rightarrow> Vector2 \<Rightarrow> real" where
  "projMin vs axis = Min ((\<lambda>v. vdot v axis) ` set vs)"

definition projMax :: "Vector2 list \<Rightarrow> Vector2 \<Rightarrow> real" where
  "projMax vs axis = Max ((\<lambda>v. vdot v axis) ` set vs)"

definition separatedOn :: "Vector2 list \<Rightarrow> Vector2 list \<Rightarrow> Vector2 \<Rightarrow> bool" where
  "separatedOn va vb axis =
     (projMin va axis \<ge> projMax vb axis \<or> projMin vb axis \<ge> projMax va axis)"

definition overlapOn :: "Vector2 list \<Rightarrow> Vector2 list \<Rightarrow> Vector2 \<Rightarrow> real" where
  "overlapOn va vb axis =
     min (projMax vb axis - projMin va axis) (projMax va axis - projMin vb axis)"

definition edgeAxes :: "Vector2 list \<Rightarrow> Vector2 list" where
  "edgeAxes P = map (edgeAxis P) [0..<length P]"

text \<open>
  The edges of the polygon with the vertex list \<open>P\<close>, each the vector from a vertex to
  the next one, the last vertex being followed by the first; and \<open>isEdgeAxis va vb axis\<close>:
  \<open>axis\<close> is a unit vector perpendicular to an edge of one of the polygons \<open>va\<close> and
  \<open>vb\<close>.
\<close>

definition polygonEdges :: "Vector2 list \<Rightarrow> Vector2 list" where
  "polygonEdges P = map (\<lambda>i. vsub (P ! (Suc i mod length P)) (P ! i)) [0..<length P]"

definition isEdgeAxis :: "Vector2 list \<Rightarrow> Vector2 list \<Rightarrow> Vector2 \<Rightarrow> bool" where
  "isEdgeAxis va vb axis =
     (\<exists>e\<in>set (polygonEdges va @ polygonEdges vb). vdot axis e = 0 \<and> vlen axis = 1)"

text \<open>
  \<open>keeps obj obj'\<close>: the body \<open>obj'\<close> has the fixed flag and the inverse mass and
  inertia of \<open>obj\<close> and, when \<open>obj\<close> is fixed, its position. \<open>keeps_all\<close> is the same
  for two stores, body by body.
\<close>

definition keeps :: "SimObject \<Rightarrow> SimObject \<Rightarrow> bool" where
  "keeps obj obj' =
     (fixed obj' = fixed obj \<and> invMass obj' = invMass obj \<and> invInertia obj' = invInertia obj \<and>
      (if fixed obj then pos obj' = pos obj else True))"

definition keeps_all :: "SimObject list \<Rightarrow> SimObject list \<Rightarrow> bool" where
  "keeps_all os os' = list_all2 keeps os os'"

text \<open>Every fixed body of the store has inverse mass 0 and inverse inertia 0.\<close>

definition mass_ok :: "SimObject list \<Rightarrow> bool" where
  "mass_ok os = list_all (\<lambda>obj. if fixed obj then invMass obj = 0 \<and> invInertia obj = 0 else True) os"

section \<open>Concrete inputs\<close>

text \<open>
  Engines, configurations and scenes on which the properties below are instantiated.
  \<open>exampleEngine\<close> is a new engine whose particle cloud was seeded with the random
  value 1/2 throughout.
\<close>

definition halfRandom :: "nat \<Rightarrow> real" where
  "halfRandom k = 1/2"

definition exampleEngine :: PhysicsEngine where
  "exampleEngine = PhysicsEngine_new (\<lambda>k. 1/2)"

definition emptyConfig :: SimObjectConfig where
  "emptyConfig = \<lparr>cfg_mass = None, cfg_material = None, cfg_x = None,
      cfg_y = None, cfg_width = None, cfg_height = None, cfg_radius = None,
      cfg_fixed = None, cfg_color = None,
      cfg_vx = None, cfg_vy = None, cfg_angle = None, cfg_segmentsX = None,
      cfg_segmentsY = None, cfg_pinTop = None\<rparr>"

text \<open>A configuration with the explicit mass 0, and one with the mass -2.\<close>

definition massZeroConfig :: SimObjectConfig where
  "massZeroConfig = emptyConfig\<lparr>cfg_mass := Some 0\<rparr>"

definition negativeMassConfig :: SimObjectConfig where
  "negativeMassConfig = emptyConfig\<lparr>cfg_mass := Some (-2)\<rparr>"

text \<open>Two circles of the default radius and mass, at distance 3.\<close>

definition circleAt :: "real \<Rightarrow> SimObjectConfig" where
  "circleAt px = emptyConfig\<lparr>cfg_x := Some px\<rparr>"

definition twoBodyEngine :: PhysicsEngine where
  "twoBodyEngine = snd (addBody Circle (circleAt 3) (snd (addBody Circle (circleAt 0) exampleEngine)))"

text \<open>Two circles of radius -1, at distance 1.\<close>

definition negativeRadiusCircle :: "real \<Rightarrow> SimObjectConfig" where
  "negativeRadiusCircle px = emptyConfig\<lparr>cfg_x := Some px, cfg_radius := Some (-1)\<rparr>"

definition negativeRadiusEngine :: PhysicsEngine where
  "negativeRadiusEngine =
     snd (addBody Circle (negativeRadiusCircle 1)
       (snd (addBody Circle (negativeRadiusCircle 0) exampleEngine)))"

text \<open>A circle of mass 1 and, at distance 3, a circle of mass -2.\<close>

definition massCircleAt :: "real \<Rightarrow> real \<Rightarrow> SimObjectConfig" where
  "massCircleAt ms px = emptyConfig\<lparr>cfg_mass := Some ms, cfg_x := Some px\<rparr>"

definition negativeMassEngine :: PhysicsEngine where
  "negativeMassEngine =
     snd (addBody Circle (massCircleAt (-2) 3) (snd (addBody Circle (massCircleAt 1 0) exampleEngine)))"

text \<open>A contact of depth 1 between the bodies 0 and 1, with the normal along the x axis.\<close>

definition unitContact :: Manifold where
  "unitContact = \<lparr>m_bodyA = 0, m_bodyB = 1, normal = \<lparr>xv = 1, yv = 0\<rparr>, depth = 1,
                   hasCollision = True\<rparr>"

text \<open>Configurations of \<^verbatim>\<open>connect\<close>.\<close>

definition zeroConnectConfig :: ConnectConfig where
  "zeroConnectConfig = \<lparr>cc_length = Some 0, cc_stiffness = Some 0, cc_color = None\<rparr>"

definition rodConfig :: ConnectConfig where
  "rodConfig = \<lparr>cc_length = Some 5, cc_stiffness = Some 1, cc_color = None\<rparr>"

definition unitRodConfig :: ConnectConfig where
  "unitRodConfig = \<lparr>cc_length = Some 1, cc_stiffness = Some 1, cc_color = None\<rparr>"

definition negativeRodConfig :: ConnectConfig where
  "negativeRodConfig = \<lparr>cc_length = Some (-1), cc_stiffness = Some 1, cc_color = None\<rparr>"

text \<open>Two circles created at the same place, joined by a rod of length 1.\<close>

definition coincidentEngine :: PhysicsEngine where
  "coincidentEngine =
     connect ''obj_1'' ''obj_2'' unitRodConfig
       (snd (addBody Circle (circleAt 0) (snd (addBody Circle (circleAt 0) exampleEngine))))"

text \<open>Two circles at distance 3, joined by a rod of length 5, and by one of length -1.\<close>

definition rodEngine :: PhysicsEngine where
  "rodEngine = connect ''obj_1'' ''obj_2'' rodConfig twoBodyEngine"

definition negativeRodEngine :: PhysicsEngine where
  "negativeRodEngine = connect ''obj_1'' ''obj_2'' negativeRodConfig twoBodyEngine"

text \<open>
  Two unit boxes, the second half a unit to the right of the first, and their vertex
  lists.
\<close>

definition boxAt :: "real \<Rightarrow> SimObjectConfig" where
  "boxAt px = emptyConfig\<lparr>cfg_x := Some px\<rparr>"

definition twoBoxEngine :: PhysicsEngine where
  "twoBoxEngine = snd (addBody Box (boxAt (1/2)) (snd (addBody Box (boxAt 0) exampleEngine)))"

definition squareA :: "Vector2 list" where
  "squareA = [\<lparr>xv = -(1/2), yv = -(1/2)\<rparr>, \<lparr>xv = 1/2, yv = -(1/2)\<rparr>,
              \<lparr>xv = 1/2, yv = 1/2\<rparr>, \<lparr>xv = -(1/2), yv = 1/2\<rparr>]"

definition squareB :: "Vector2 list" where
  "squareB = [\<lparr>xv = 0, yv = -(1/2)\<rparr>, \<lparr>xv = 1, yv = -(1/2)\<rparr>,
              \<lparr>xv = 1, yv = 1/2\<rparr>, \<lparr>xv = 0, yv = 1/2\<rparr>]"

text \<open>A fixed plane at height 0 and a box of mass 10 dropped from height 5.\<close>

definition groundScene :: "call list" where
  "groundScene =
     [Add Plane (emptyConfig\<lparr>cfg_fixed := Some True, cfg_material := Some Concrete\<rparr>),
      Add Box (emptyConfig\<lparr>cfg_mass := Some 10, cfg_material := Some Steel, cfg_y := Some 5,
                           cfg_x := Some 4\<rparr>)]"

section \<open>Properties of the registry\<close>

subsection \<open>The particle cloud is not read by \<^verbatim>\<open>add\<close> and \<^verbatim>\<open>connect\<close>\<close>

lemma generateId_fluid: "generateId (s\<lparr>fluidSystem := f\<rparr>) = apsnd (\<lambda>t. t\<lparr>fluidSystem := f\<rparr>) (generateId s)"
  by (simp add: generateId_def)

lemma log_msg_fluid: "log_msg m (s\<lparr>fluidSystem := f\<rparr>) = (log_msg m s)\<lparr>fluidSystem := f\<rparr>"
  by (simp add: log_msg_def Let_def)

lemma addBody_fluid: "addBody ty c (s\<lparr>fluidSystem := f\<rparr>) = apsnd (\<lambda>t. t\<lparr>fluidSystem := f\<rparr>) (addBody ty c s)"
  by (simp add: addBody_def generateId_def log_msg_def Let_def)

lemma connect_fluid: "connect a b c (s\<lparr>fluidSystem := f\<rparr>) = (connect a b c s)\<lparr>fluidSystem := f\<rparr>"
  by (simp add: connect_def generateId_def Let_def split: option.splits)

lemma connect_opt_fluid: "connect_opt a b c (s\<lparr>fluidSystem := f\<rparr>) = (connect_opt a b c s)\<lparr>fluidSystem := f\<rparr>"
  by (simp add: connect_opt_def connect_fluid split: option.splits)

lemma clothRow_fluid: "clothRow c sx dx py y xs (s\<lparr>fluidSystem := f\<rparr>) = apsnd (\<lambda>t. t\<lparr>fluidSystem := f\<rparr>) (clothRow c sx dx py y xs s)"
  by (induction xs arbitrary: s) (simp_all add: addBody_fluid Let_def split: prod.splits)

lemma clothParticles_fluid: "clothParticles c sx sy dx dy xs ys (s\<lparr>fluidSystem := f\<rparr>) = apsnd (\<lambda>t. t\<lparr>fluidSystem := f\<rparr>) (clothParticles c sx sy dx dy xs ys s)"
  by (induction ys arbitrary: s) (simp_all add: clothRow_fluid Let_def split: prod.splits)

lemma clothConstraints_fluid: "clothConstraints g segX segY cells (s\<lparr>fluidSystem := f\<rparr>) = apsnd (\<lambda>t. t\<lparr>fluidSystem := f\<rparr>) (clothConstraints g segX segY cells s)"
proof (induction cells arbitrary: s)
  case Nil show ?case by simp
next
  case (Cons yx cells) then show ?case by (cases yx) (simp add: connect_opt_fluid Let_def)
qed

lemma addCloth_fluid: "addCloth c (s\<lparr>fluidSystem := f\<rparr>) = apsnd (\<lambda>t. t\<lparr>fluidSystem := f\<rparr>) (addCloth c s)"
  by (simp add: addCloth_def clothParticles_fluid clothConstraints_fluid Let_def split: prod.splits option.splits)

lemma add_fluid: "add ty c (s\<lparr>fluidSystem := f\<rparr>) = apsnd (\<lambda>t. t\<lparr>fluidSystem := f\<rparr>) (add ty c s)"
  by (simp add: add_def addCloth_fluid addBody_fluid Let_def split: prod.splits)

lemma replay_fluid: "replay cmds (s\<lparr>fluidSystem := f\<rparr>) = apsnd (\<lambda>t. t\<lparr>fluidSystem := f\<rparr>) (replay cmds s)"
  by (induction cmds s rule: replay.induct) (simp_all add: add_fluid connect_fluid split: prod.splits sum.splits)

lemma reset_fluid: "reset s' = (reset s)\<lparr>fluidSystem := fluidSystem s'\<rparr>"
  by (simp add: reset_def)

subsection \<open>The body created by \<^verbatim>\<open>add\<close>\<close>

lemma objects_log_msg [simp]: "objects (log_msg m s) = objects s"
  by (simp add: log_msg_def Let_def)

lemma objects_addBody:
  "objects (snd (addBody ty c s)) = objects s @ [newObject ty c (''obj_'' @ string_of_nat (idCounter s + 1))]"
  by (simp add: addBody_def generateId_def Let_def)

lemma fst_addBody: "fst (addBody ty c s) = length (objects s)"
  by (simp add: addBody_def generateId_def Let_def)

lemma add_not_cloth: "ty \<noteq> Cloth \<Longrightarrow> add ty c s = (Inr (Some (length (objects s))), snd (addBody ty c s))"
  using fst_addBody[of ty c s] by (auto simp: add_def split: prod.splits)

lemma newObject_mass: "ty \<noteq> Plane \<Longrightarrow> mass (newObject ty c i) = (if truthy (cfg_fixed c) then 0 else or_default (cfg_mass c) 1)"
  by (simp add: newObject_def updateGeometry_def Let_def)

lemma newObject_fixed: "ty \<noteq> Plane \<Longrightarrow> fixed (newObject ty c i) = truthy (cfg_fixed c)"
  by (simp add: newObject_def updateGeometry_def Let_def)

lemma newObject_invMass: "ty \<noteq> Plane \<Longrightarrow> invMass (newObject ty c i) = (if mass (newObject ty c i) = 0 then 0 else 1 / mass (newObject ty c i))"
  by (simp add: newObject_def updateGeometry_def Let_def)

lemma newObject_inertia: "ty = Box \<or> ty = Circle \<Longrightarrow> inertia (newObject ty c i) = 
  (let obj = newObject ty c i in if mass obj > 0 then (if ty = Box then mass obj * ((width obj)\<^sup>2 + (height obj)\<^sup>2) / 12 else mass obj * (radius obj)\<^sup>2 / 2) else 0)"
  by (elim disjE) (simp_all add: newObject_def updateGeometry_def Let_def power2_eq_square)

lemma newObject_invInertia: "ty \<noteq> Plane \<Longrightarrow> invInertia (newObject ty c i) = 
  (let obj = newObject ty c i in if inertia obj = 0 \<or> fixed obj then 0 else 1 / inertia obj)"
  by (simp add: newObject_def updateGeometry_def Let_def)

lemma or_default_nonzero: "d \<noteq> 0 \<Longrightarrow> or_default v d \<noteq> 0"
  by (simp add: or_default_def split: option.splits)

text \<open>
  C5 (as amended). For \<^verbatim>\<open>add(kind, config)\<close> with kind box or circle, the call
  returns a reference to the created body, and for that body: the mass is 0 when
  \<^verbatim>\<open>config.fixed\<close> is set, otherwise \<^verbatim>\<open>config.mass\<close> when it is given and not 0,
  and 1 when it is missing or 0; \<open>invMass\<close> is 0 exactly when the mass is 0 or the
  body is fixed, and \<open>1 / mass\<close> otherwise; when the mass is positive the inertia is
  \<open>mass * (width\<^sup>2 + height\<^sup>2) / 12\<close> for a box and \<open>mass * radius\<^sup>2 / 2\<close> for a
  circle, and it is 0 when the mass is not positive; \<open>invInertia\<close> is 0 when the
  inertia is 0 or the body is fixed, and \<open>1 / inertia\<close> otherwise.
\<close>

theorem add_mass_properties:
  assumes "ty = Box \<or> ty = Circle"
  shows "\<exists>ref s'. add ty config s = (Inr (Some ref), s') \<and> ref < length (objects s') \<and>
     (let obj = objects s' ! ref in
        mass obj = (if truthy (cfg_fixed config) then 0
                    else case cfg_mass config of None \<Rightarrow> 1 | Some m \<Rightarrow> if m = 0 then 1 else m) \<and>
        fixed obj = truthy (cfg_fixed config) \<and>
        ((invMass obj = 0) = (mass obj = 0 \<or> fixed obj)) \<and>
        (if mass obj = 0 \<or> fixed obj then invMass obj = 0 else invMass obj = 1 / mass obj) \<and>
        inertia obj = (if mass obj > 0
                       then (if ty = Box then mass obj * ((width obj)\<^sup>2 + (height obj)\<^sup>2) / 12
                             else mass obj * (radius obj)\<^sup>2 / 2)
                       else 0) \<and>
        invInertia obj = (if inertia obj = 0 \<or> fixed obj then 0 else 1 / inertia obj))"
proof -
  let ?i = "''obj_'' @ string_of_nat (idCounter s + 1)"
  let ?o = "newObject ty config ?i"
  from assms have nc: "ty \<noteq> Cloth" and np: "ty \<noteq> Plane" by auto
  have a: "add ty config s = (Inr (Some (length (objects s))), snd (addBody ty config s))"
    using nc by (rule add_not_cloth)
  have o: "objects (snd (addBody ty config s)) ! length (objects s) = ?o"
    by (simp add: objects_addBody)
  have m: "mass ?o = (if truthy (cfg_fixed config) then 0
                    else case cfg_mass config of None \<Rightarrow> 1 | Some m \<Rightarrow> if m = 0 then 1 else m)"
    using np by (simp add: newObject_mass or_default_def split: option.splits)
  have f: "fixed ?o = truthy (cfg_fixed config)" using np by (simp add: newObject_fixed)
  have fm: "fixed ?o \<Longrightarrow> mass ?o = 0" using m f by simp
  have im: "invMass ?o = (if mass ?o = 0 then 0 else 1 / mass ?o)"
    using np by (rule newObject_invMass)
  have i: "inertia ?o = (if mass ?o > 0
                       then (if ty = Box then mass ?o * ((width ?o)\<^sup>2 + (height ?o)\<^sup>2) / 12
                             else mass ?o * (radius ?o)\<^sup>2 / 2)
                       else 0)"
    using newObject_inertia[OF assms, of config ?i] by (simp add: Let_def)
  have ii: "invInertia ?o = (if inertia ?o = 0 \<or> fixed ?o then 0 else 1 / inertia ?o)"
    using newObject_invInertia[OF np, of config ?i] by (simp add: Let_def)
  have im1: "(invMass ?o = 0) = (mass ?o = 0 \<or> fixed ?o)" using im fm by auto
  have im2: "(if mass ?o = 0 \<or> fixed ?o then invMass ?o = 0 else invMass ?o = 1 / mass ?o)"
    using im fm by auto
  show ?thesis
    apply (rule exI[of _ "length (objects s)"])
    apply (rule exI[of _ "snd (addBody ty config s)"])
    apply (simp only: a o Let_def)
    using m f im1 im2 i ii by (simp add: objects_addBody)
qed

theorem add_mass_properties_witness:
  "\<exists>ref s'. add Circle massZeroConfig exampleEngine = (Inr (Some ref), s') \<and>
      ref < length (objects s') \<and> mass (objects s' ! ref) = 1 \<and>
      \<not> fixed (objects s' ! ref) \<and> invMass (objects s' ! ref) = 1"
proof -
  have k: "Circle = Box \<or> Circle = Circle" by simp
  have c: "cfg_fixed massZeroConfig = None" "cfg_mass massZeroConfig = Some 0"
    by (simp_all add: massZeroConfig_def emptyConfig_def)
  from add_mass_properties[OF k, of massZeroConfig exampleEngine]
  obtain ref s' where a: "add Circle massZeroConfig exampleEngine = (Inr (Some ref), s')"
    and r: "ref < length (objects s')"
    and m: "mass (objects s' ! ref) = (if truthy (cfg_fixed massZeroConfig) then 0
                    else case cfg_mass massZeroConfig of None \<Rightarrow> 1 | Some m \<Rightarrow> if m = 0 then 1 else m)"
    and f: "fixed (objects s' ! ref) = truthy (cfg_fixed massZeroConfig)"
    and i: "(if mass (objects s' ! ref) = 0 \<or> fixed (objects s' ! ref)
             then invMass (objects s' ! ref) = 0
             else invMass (objects s' ! ref) = 1 / mass (objects s' ! ref))"
    unfolding Let_def by blast
  from m have m1: "mass (objects s' ! ref) = 1" by (simp add: c truthy_def)
  from f have f1: "\<not> fixed (objects s' ! ref)" by (simp add: c truthy_def)
  from i m1 f1 have "invMass (objects s' ! ref) = 1" by simp
  with a r m1 f1 show ?thesis by blast
qed

text \<open>
  The claim C5 as stated fails at two inputs. A box created with the explicit mass 0
  (and not fixed) has mass 1, not the mass of the configuration. A box created with
  the mass -2 and the default width and height 1 has inertia 0, not
  \<open>-2 * (1 + 1) / 12\<close>.
\<close>

theorem add_mass_counterexample:
  "cfg_mass massZeroConfig = Some 0 \<and> cfg_fixed massZeroConfig = None \<and>
   fst (add Box massZeroConfig exampleEngine) = Inr (Some 0) \<and>
   mass (objects (snd (add Box massZeroConfig exampleEngine)) ! 0) = 1 \<and>
   fst (add Box negativeMassConfig exampleEngine) = Inr (Some 0) \<and>
   mass (objects (snd (add Box negativeMassConfig exampleEngine)) ! 0) = -2 \<and>
   width (objects (snd (add Box negativeMassConfig exampleEngine)) ! 0) = 1 \<and>
   height (objects (snd (add Box negativeMassConfig exampleEngine)) ! 0) = 1 \<and>
   inertia (objects (snd (add Box negativeMassConfig exampleEngine)) ! 0) = 0"
  by (simp add: add_not_cloth objects_addBody exampleEngine_def PhysicsEngine_new_def
      massZeroConfig_def negativeMassConfig_def emptyConfig_def newObject_def updateGeometry_def
      or_default_def truthy_def Let_def)

subsection \<open>\<^verbatim>\<open>connect\<close>\<close>

lemma objectMap_log_msg [simp]: "objectMap (log_msg m s) = objectMap s"
  by (simp add: log_msg_def Let_def)

lemma objectMap_addBody:
  "objectMap (snd (addBody ty c s)) =
     (objectMap s)(oid (newObject ty c (''obj_'' @ string_of_nat (idCounter s + 1))) \<mapsto> length (objects s))"
  by (simp add: addBody_def generateId_def Let_def)

lemma oid_newObject [simp]: "oid (newObject ty c i) = i"
  by (simp add: newObject_def updateGeometry_def Let_def)

lemma idCounter_log_msg [simp]: "idCounter (log_msg m s) = idCounter s"
  by (simp add: log_msg_def Let_def)

lemma idCounter_addBody [simp]: "idCounter (snd (addBody ty c s)) = idCounter s + 1"
  by (simp add: addBody_def generateId_def Let_def)

lemma pos_newObject: "ty \<noteq> Plane \<Longrightarrow> pos (newObject ty c i) = \<lparr>xv = or_default (cfg_x c) 0, yv = or_default (cfg_y c) 0\<rparr>"
  by (simp add: newObject_def updateGeometry_def Let_def)

lemma twoBody_map: "objectMap twoBodyEngine ''obj_1'' = Some 0" "objectMap twoBodyEngine ''obj_2'' = Some 1"
  by (simp_all add: twoBodyEngine_def objectMap_addBody objects_addBody exampleEngine_def PhysicsEngine_new_def string_of_nat.simps)

lemma twoBody_pos: "pos (objects twoBodyEngine ! 0) = \<lparr>xv = 0, yv = 0\<rparr>" "pos (objects twoBodyEngine ! 1) = \<lparr>xv = 3, yv = 0\<rparr>"
  by (simp_all add: twoBodyEngine_def objects_addBody exampleEngine_def PhysicsEngine_new_def pos_newObject circleAt_def emptyConfig_def or_default_def)

lemma twoBody_dist: "vdist (pos (objects twoBodyEngine ! 0)) (pos (objects twoBodyEngine ! 1)) = 3"
proof -
  have "sqrt 9 = (3::real)" by (rule real_sqrt_unique) simp_all
  then show ?thesis unfolding twoBody_pos vdist_def by simp
qed

lemma connect_found:
  assumes "objectMap s idA = Some a" and "objectMap s idB = Some b"
  shows "constraints (connect idA idB config s) =
           constraints s @
           [\<lparr>cid = ''c_obj_'' @ string_of_nat (idCounter s + 1), bodyA = idA, bodyB = idB,
             clength = or_default (cc_length config) (vdist (pos (objects s ! a)) (pos (objects s ! b))),
             stiffness = or_default (cc_stiffness config) (1/2),
             ccolor = or_default_str (cc_color config) ''#3498db''\<rparr>]"
  using assms by (simp add: connect_def generateId_def Let_def)

text \<open>
  C6 (as amended). For \<^verbatim>\<open>connect(idA, idB, config)\<close> with both bodies in the
  registry, one constraint between the two identifiers is appended; its rest length
  is \<^verbatim>\<open>config.length\<close> when a length other than 0 is given, and the distance of
  the two bodies' positions at the call when the length is missing or 0; its
  stiffness is \<^verbatim>\<open>config.stiffness\<close> when one other than 0 is given, and 0.5 when
  it is missing or 0.
\<close>

theorem connect_rest_length:
  assumes "objectMap s idA = Some a" and "objectMap s idB = Some b"
  shows "\<exists>c. constraints (connect idA idB config s) = constraints s @ [c] \<and>
           bodyA c = idA \<and> bodyB c = idB \<and>
           clength c = (case cc_length config of
                          None \<Rightarrow> vdist (pos (objects s ! a)) (pos (objects s ! b))
                        | Some l \<Rightarrow> if l = 0 then vdist (pos (objects s ! a)) (pos (objects s ! b)) else l) \<and>
           stiffness c = (case cc_stiffness config of
                            None \<Rightarrow> 1/2
                          | Some k \<Rightarrow> if k = 0 then 1/2 else k)"
  by (simp add: connect_found[OF assms] or_default_def split: option.splits)

theorem connect_rest_length_witness:
  "\<exists>c. constraints (connect ''obj_1'' ''obj_2'' rodConfig twoBodyEngine) = constraints twoBodyEngine @ [c] \<and>
       clength c = 5 \<and> stiffness c = 1"
  using connect_rest_length[OF twoBody_map, of rodConfig]
  by (auto simp add: rodConfig_def)

text \<open>
  The claim C6 as stated fails when the length 0 or the stiffness 0 is supplied: for two
  bodies at distance 3 the constraint gets the rest length 3 and the stiffness 0.5.
\<close>

theorem connect_rest_length_counterexample:
  "objectMap twoBodyEngine ''obj_1'' = Some 0 \<and> objectMap twoBodyEngine ''obj_2'' = Some 1 \<and>
   cc_length zeroConnectConfig = Some 0 \<and> cc_stiffness zeroConnectConfig = Some 0 \<and>
   clength (last (constraints (connect ''obj_1'' ''obj_2'' zeroConnectConfig twoBodyEngine))) = 3 \<and>
   stiffness (last (constraints (connect ''obj_1'' ''obj_2'' zeroConnectConfig twoBodyEngine))) = 1/2"
  using twoBody_dist
  by (simp add: connect_found[OF twoBody_map] twoBody_map zeroConnectConfig_def or_default_def)

text \<open>
  C7. When at least one of the two identifiers of \<^verbatim>\<open>connect(idA, idB, config)\<close> is
  not in the registry, the call returns without an error and the whole state of the
  engine (constraints, bodies, map, counter, clock, log, drag target, particle cloud)
  is what it was.
\<close>

theorem connect_unknown_noop:
  assumes "objectMap s idA = None \<or> objectMap s idB = None"
  shows "connect idA idB config s = s"
  using assms by (auto simp add: connect_def split: option.splits)

theorem connect_unknown_noop_witness:
  "objectMap twoBodyEngine ''obj_1'' = Some 0 \<and> objectMap twoBodyEngine ''obj_7'' = None \<and>
   connect ''obj_1'' ''obj_7'' rodConfig twoBodyEngine = twoBodyEngine"
proof -
  have n: "objectMap twoBodyEngine ''obj_7'' = None"
    by (simp add: twoBodyEngine_def objectMap_addBody objects_addBody exampleEngine_def PhysicsEngine_new_def string_of_nat.simps)
  then have "objectMap twoBodyEngine ''obj_1'' = None \<or> objectMap twoBodyEngine ''obj_7'' = None" by simp
  from connect_unknown_noop[OF this] n twoBody_map(1) show ?thesis by simp
qed

subsection \<open>Replaying a scenario after \<^verbatim>\<open>reset\<close>\<close>

text \<open>
  C8. A scenario replayed after \<^verbatim>\<open>reset()\<close> gives the same results whatever
  the engine held before the reset (so also on every further replay): the calls return
  the same references or raise the same error, and the bodies are the same, in
  particular their number, their identifiers, their positions and their velocities;
  so are the map, the constraints, the counter, the clock, the log and the drag target.
\<close>

theorem reset_replay_deterministic:
  "fst (replay cmds (reset s)) = fst (replay cmds (reset s')) \<and>
   objects (snd (replay cmds (reset s))) = objects (snd (replay cmds (reset s'))) \<and>
   length (objects (snd (replay cmds (reset s)))) = length (objects (snd (replay cmds (reset s')))) \<and>
   map oid (objects (snd (replay cmds (reset s)))) = map oid (objects (snd (replay cmds (reset s')))) \<and>
   map pos (objects (snd (replay cmds (reset s)))) = map pos (objects (snd (replay cmds (reset s')))) \<and>
   map vel (objects (snd (replay cmds (reset s)))) = map vel (objects (snd (replay cmds (reset s')))) \<and>
   objectMap (snd (replay cmds (reset s))) = objectMap (snd (replay cmds (reset s'))) \<and>
   constraints (snd (replay cmds (reset s))) = constraints (snd (replay cmds (reset s'))) \<and>
   idCounter (snd (replay cmds (reset s))) = idCounter (snd (replay cmds (reset s'))) \<and>
   time (snd (replay cmds (reset s))) = time (snd (replay cmds (reset s'))) \<and>
   logs (snd (replay cmds (reset s))) = logs (snd (replay cmds (reset s'))) \<and>
   draggedObj (snd (replay cmds (reset s))) = draggedObj (snd (replay cmds (reset s')))"
proof -
  have "replay cmds (reset s') = apsnd (\<lambda>t. t\<lparr>fluidSystem := fluidSystem s'\<rparr>) (replay cmds (reset s))"
    by (subst reset_fluid[of s' s]) (rule replay_fluid)
  then show ?thesis by (simp add: apsnd_def map_prod_def split: prod.splits)
qed

theorem reset_replay_deterministic_witness:
  "map oid (objects (snd (replay [AddCmd Circle (circleAt 3)] (reset exampleEngine)))) =
   map oid (objects (snd (replay [AddCmd Circle (circleAt 3)] (reset twoBodyEngine)))) \<and>
   map pos (objects (snd (replay [AddCmd Circle (circleAt 3)] (reset exampleEngine)))) =
   map pos (objects (snd (replay [AddCmd Circle (circleAt 3)] (reset twoBodyEngine))))"
  using reset_replay_deterministic[of "[AddCmd Circle (circleAt 3)]" exampleEngine twoBodyEngine]
  by blast

section \<open>Properties of the particle cloud\<close>

lemma updatePos_in_domain: "in_domain (updatePos dt p v)"
  by (cases p, cases v) (simp add: updatePos_def in_domain_def Let_def)

lemma getParticles_fluid_step:
  "getParticles (fluid_step dt g fs) =
     map (\<lambda>i. updatePos dt (tex_in (posState fs) ! i)
                 (map (\<lambda>i. updateVel dt g (tex_in (posState fs) ! i) (tex_in (velState fs) ! i))
                      [0..<TEX_WIDTH * TEX_HEIGHT] ! i))
         [0..<TEX_WIDTH * TEX_HEIGHT]"
  by (simp add: getParticles_def fluid_step_def gpu_run_def Let_def)

lemma fluid_step_in_domain:
  "length (getParticles (fluid_step dt g fs)) = TEX_WIDTH * TEX_HEIGHT \<and>
   (\<forall>i < TEX_WIDTH * TEX_HEIGHT. in_domain (getParticles (fluid_step dt g fs) ! i))"
  by (simp add: getParticles_fluid_step updatePos_in_domain)

lemma getParticles_new:
  "getParticles (FluidSystem_new rnd) =
     map (\<lambda>i. (rnd (4 * i) * 10 - 5, rnd (4 * i + 1) * 10 + 5, 0, 1)) [0..<TEX_WIDTH * TEX_HEIGHT]"
  by (simp add: getParticles_def FluidSystem_new_def writeData_def createState_def Let_def)

lemma new_in_domain:
  assumes "\<forall>k. 0 \<le> rnd k \<and> rnd k < 1"
  shows "length (getParticles (FluidSystem_new rnd)) = TEX_WIDTH * TEX_HEIGHT \<and>
         (\<forall>i < TEX_WIDTH * TEX_HEIGHT. in_domain (getParticles (FluidSystem_new rnd) ! i))"
proof -
  have "in_domain (rnd (4 * i) * 10 - 5, rnd (4 * i + 1) * 10 + 5, 0, 1)" for i
  proof -
    from assms have "0 \<le> rnd (4 * i)" "rnd (4 * i) < 1" "0 \<le> rnd (4 * i + 1)" by auto
    then show ?thesis by (simp add: in_domain_def)
  qed
  then show ?thesis by (simp add: getParticles_new)
qed

text \<open>The step of the engine advances the cloud by one step with the engine's constants.\<close>

lemma fluidSystem_subStepLoop: "fluidSystem (snd (subStepLoop n dt s)) = fluidSystem s"
proof (induction n arbitrary: s)
  case 0 show ?case by simp
next
  case (Suc n)
  have "fluidSystem (snd (subStep dt s)) = fluidSystem s"
    by (simp add: subStep_def applyForces_def integrate_def Let_def split: prod.splits)
  with Suc show ?case by (auto split: prod.splits option.splits)
qed

lemma fluidSystem_step: "fluidSystem (snd (step s)) = fluid_step DT GRAVITY (fluidSystem s)"
  by (simp add: step_def Let_def fluidSystem_subStepLoop)

lemma fluidSystem_steps:
  "fluidSystem (((\<lambda>t. snd (step t)) ^^ n) s) = (fluid_step DT GRAVITY ^^ n) (fluidSystem s)"
  by (induction n) (simp_all add: fluidSystem_step)

lemma fluidSystem_new: "fluidSystem (PhysicsEngine_new rnd) = FluidSystem_new rnd"
  by (simp add: PhysicsEngine_new_def)

lemma cloud_in_domain:
  assumes "\<forall>k. 0 \<le> rnd k \<and> rnd k < 1" and "i < TEX_WIDTH * TEX_HEIGHT"
  shows "length (getParticles ((fluid_step dt g ^^ n) (FluidSystem_new rnd))) = TEX_WIDTH * TEX_HEIGHT \<and>
         (case getParticles ((fluid_step dt g ^^ n) (FluidSystem_new rnd)) ! i of
            (x, y, z, w) \<Rightarrow> 0 \<le> y \<and> -10 \<le> x \<and> x \<le> 10)"
proof (cases n)
  case 0
  with new_in_domain[OF assms(1)] assms(2) show ?thesis
    by (simp add: in_domain_def)
next
  case (Suc m)
  with fluid_step_in_domain[of dt g "(fluid_step dt g ^^ m) (FluidSystem_new rnd)"] assms(2)
  show ?thesis by (simp add: in_domain_def)
qed

text \<open>
  C9. With every value of \<^verbatim>\<open>Math.random()\<close> in \<open>[0, 1)\<close>, for every number \<open>n\<close> of
  steps (zero included) and every particle \<open>i\<close> of the 64 by 64 grid, the position
  read back from the position buffer has \<open>y \<ge> 0\<close> and \<open>-10 \<le> x \<le> 10\<close>: so it is for
  the cloud stepped alone with any time step and gravity, and for the cloud of a new
  engine after \<open>n\<close> calls of \<^verbatim>\<open>step\<close>.
\<close>

theorem fluid_positions_in_domain:
  assumes "\<forall>k. 0 \<le> rnd k \<and> rnd k < 1" and "i < TEX_WIDTH * TEX_HEIGHT"
  shows "let cloud = (fluid_step dt g ^^ n) (FluidSystem_new rnd);
             engineCloud = fluidSystem (((\<lambda>t. snd (step t)) ^^ n) (PhysicsEngine_new rnd))
         in length (getParticles cloud) = TEX_WIDTH * TEX_HEIGHT \<and>
            (case getParticles cloud ! i of (x, y, z, w) \<Rightarrow> 0 \<le> y \<and> -10 \<le> x \<and> x \<le> 10) \<and>
            length (getParticles engineCloud) = TEX_WIDTH * TEX_HEIGHT \<and>
            (case getParticles engineCloud ! i of (x, y, z, w) \<Rightarrow> 0 \<le> y \<and> -10 \<le> x \<and> x \<le> 10)"
  unfolding Let_def fluidSystem_steps fluidSystem_new
  using cloud_in_domain[OF assms, where dt = dt and g = g and n = n]
    cloud_in_domain[OF assms, where dt = DT and g = GRAVITY and n = n]
  by simp

theorem fluid_positions_in_domain_witness:
  "length (getParticles (fluidSystem (((\<lambda>t. snd (step t)) ^^ 3) (PhysicsEngine_new halfRandom)))) =
     TEX_WIDTH * TEX_HEIGHT \<and>
   (case getParticles (fluidSystem (((\<lambda>t. snd (step t)) ^^ 3) (PhysicsEngine_new halfRandom))) ! 0 of
      (x, y, z, w) \<Rightarrow> 0 \<le> y \<and> -10 \<le> x \<and> x \<le> 10)"
proof -
  have r: "\<forall>k. 0 \<le> halfRandom k \<and> halfRandom k < 1" by (simp add: halfRandom_def)
  have i: "(0::nat) < TEX_WIDTH * TEX_HEIGHT" by (simp add: TEX_WIDTH_def TEX_HEIGHT_def)
  from fluid_positions_in_domain[OF r i, where dt = DT and g = GRAVITY and n = 3]
  show ?thesis unfolding Let_def by simp
qed

section \<open>Properties of the collision system\<close>

subsection \<open>Circle against circle\<close>

lemma vdist_sqrt_vlenSq: "vdist p q = sqrt (vlenSq (vsub q p))"
  by (simp add: vdist_def vlenSq_def vsub_def power2_eq_square algebra_simps)

lemma vlenSq_nonneg: "0 \<le> vlenSq v"
  by (simp add: vlenSq_def)

lemma vlen_vdiv_unit:
  assumes "sqrt (vlenSq v) \<noteq> 0"
  shows "vlen (vdiv v (sqrt (vlenSq v))) = 1"
proof -
  let ?l = "sqrt (vlenSq v)"
  have p: "0 < vlenSq v" using assms vlenSq_nonneg[of v] by (cases "vlenSq v = 0") auto
  have g: "x / l * (x / l) + y / l * (y / l) = (x * x + y * y) / (l * l)" for x y l :: real
    by (simp add: add_divide_distrib)
  have "xv v / ?l * (xv v / ?l) + yv v / ?l * (yv v / ?l) = vlenSq v / (?l * ?l)"
    unfolding g by (simp only: vlenSq_def)
  also have "?l * ?l = vlenSq v" using p by simp
  finally have f: "xv v / ?l * (xv v / ?l) + yv v / ?l * (yv v / ?l) = 1" using p by simp
  have e: "vlen (vdiv v ?l) = sqrt (xv v / ?l * (xv v / ?l) + yv v / ?l * (yv v / ?l))"
    unfolding vlen_def vdiv_def by (simp only: Vector2.simps)
  show ?thesis by (simp only: e f real_sqrt_one)
qed

lemma circleVsCircle_collides:
  "hasCollision (circleVsCircle os a b) =
     (vdist (pos (os ! a)) (pos (os ! b)) \<le> \<bar>radius (os ! a) + radius (os ! b)\<bar>)"
proof -
  let ?q = "vlenSq (vsub (pos (os ! b)) (pos (os ! a)))"
  let ?rs = "radius (os ! a) + radius (os ! b)"
  have "(?q > ?rs * ?rs) = (sqrt ?q > sqrt (?rs * ?rs))" by (simp only: real_sqrt_less_iff)
  also have "sqrt (?rs * ?rs) = \<bar>?rs\<bar>" by (rule real_sqrt_abs2)
  finally have "(?q > ?rs * ?rs) = (sqrt ?q > \<bar>?rs\<bar>)" .
  then show ?thesis
    by (auto simp add: circleVsCircle_def Let_def vdist_sqrt_vlenSq)
qed

lemma circleVsCircle_bodies:
  "m_bodyA (circleVsCircle os a b) = a \<and> m_bodyB (circleVsCircle os a b) = b"
  by (simp add: circleVsCircle_def Let_def)

lemma circleVsCircle_contact:
  assumes "hasCollision (circleVsCircle os a b)"
  shows "if vdist (pos (os ! a)) (pos (os ! b)) = 0
         then normal (circleVsCircle os a b) = \<lparr>xv = 1, yv = 0\<rparr> \<and>
              depth (circleVsCircle os a b) = radius (os ! a) + radius (os ! b)
         else normal (circleVsCircle os a b) =
                vdiv (vsub (pos (os ! b)) (pos (os ! a))) (vdist (pos (os ! a)) (pos (os ! b))) \<and>
              depth (circleVsCircle os a b) =
                radius (os ! a) + radius (os ! b) - vdist (pos (os ! a)) (pos (os ! b))"
  using assms by (simp add: circleVsCircle_def Let_def vdist_sqrt_vlenSq split: if_splits)

text \<open>
  C10 (as amended). For two circle bodies with centre distance \<open>d\<close> and radius sum
  \<open>rs\<close>: a collision is reported exactly when \<open>d \<le> \<bar>rs\<bar>\<close>, so for a radius sum
  that is not negative no collision is reported when \<open>d\<close> exceeds it; whenever
  \<open>0 < d \<le> rs\<close> the manifold has the collision flag set, the unit vector from the
  first centre to the second as its normal and the depth \<open>rs - d\<close>; for concentric
  circles (\<open>d = 0\<close>) the result is the fixed unit normal \<open>(1, 0)\<close> with the depth
  \<open>rs\<close> and the collision flag set.
\<close>

theorem circleVsCircle_manifold:
  "let A = os ! a; B = os ! b; d = vdist (pos A) (pos B); rs = radius A + radius B;
       m = circleVsCircle os a b
   in m_bodyA m = a \<and> m_bodyB m = b \<and>
      (hasCollision m = (d \<le> \<bar>rs\<bar>)) \<and>
      (if 0 \<le> rs \<and> rs < d then \<not> hasCollision m
       else if d = 0 then hasCollision m \<and> normal m = \<lparr>xv = 1, yv = 0\<rparr> \<and> depth m = rs
       else if d \<le> rs then hasCollision m \<and> normal m = vdiv (vsub (pos B) (pos A)) d \<and>
                             vlen (normal m) = 1 \<and> depth m = rs - d
       else True)"
proof -
  let ?d = "vdist (pos (os ! a)) (pos (os ! b))"
  let ?rs = "radius (os ! a) + radius (os ! b)"
  let ?m = "circleVsCircle os a b"
  have c: "hasCollision ?m = (?d \<le> \<bar>?rs\<bar>)" by (rule circleVsCircle_collides)
  have d0: "0 \<le> ?d" by (simp add: vdist_def)
  have k: "hasCollision ?m \<Longrightarrow> ?d \<noteq> 0 \<Longrightarrow>
           normal ?m = vdiv (vsub (pos (os ! b)) (pos (os ! a))) ?d \<and> depth ?m = ?rs - ?d"
    using circleVsCircle_contact[of os a b] by simp
  have k0: "hasCollision ?m \<Longrightarrow> ?d = 0 \<Longrightarrow>
           normal ?m = \<lparr>xv = 1, yv = 0\<rparr> \<and> depth ?m = ?rs"
    using circleVsCircle_contact[of os a b] by simp
  have u: "?d \<noteq> 0 \<Longrightarrow> vlen (vdiv (vsub (pos (os ! b)) (pos (os ! a))) ?d) = 1"
    using vlen_vdiv_unit[of "vsub (pos (os ! b)) (pos (os ! a))"] by (simp add: vdist_sqrt_vlenSq)
  have 1: "0 \<le> ?rs \<and> ?rs < ?d \<Longrightarrow> \<not> hasCollision ?m" using c by simp
  have 2: "?d = 0 \<Longrightarrow> hasCollision ?m \<and> normal ?m = \<lparr>xv = 1, yv = 0\<rparr> \<and> depth ?m = ?rs"
    using c k0 by simp
  have 3: "?d \<noteq> 0 \<Longrightarrow> ?d \<le> ?rs \<Longrightarrow> hasCollision ?m \<and>
             normal ?m = vdiv (vsub (pos (os ! b)) (pos (os ! a))) ?d \<and>
             vlen (normal ?m) = 1 \<and> depth ?m = ?rs - ?d"
  proof -
    assume n: "?d \<noteq> 0" and l: "?d \<le> ?rs"
    from l have h: "hasCollision ?m" using c by simp
    from k[OF h n] u[OF n] h show ?thesis by simp
  qed
  show ?thesis unfolding Let_def using circleVsCircle_bodies[of os a b] c 1 2 3 by auto
qed

lemma radius_newObject:
  "ty \<noteq> Plane \<Longrightarrow> radius (newObject ty c i) = or_default (cfg_radius c) (if ty = Circle then 1/2 else 0)"
  by (simp add: newObject_def updateGeometry_def Let_def)

lemma negativeRadius_objects:
  "pos (objects negativeRadiusEngine ! 0) = \<lparr>xv = 0, yv = 0\<rparr>"
  "pos (objects negativeRadiusEngine ! 1) = \<lparr>xv = 1, yv = 0\<rparr>"
  "radius (objects negativeRadiusEngine ! 0) = -1"
  "radius (objects negativeRadiusEngine ! 1) = -1"
  by (simp_all add: negativeRadiusEngine_def objects_addBody exampleEngine_def
      PhysicsEngine_new_def pos_newObject radius_newObject negativeRadiusCircle_def
      emptyConfig_def or_default_def)

lemma negativeRadius_dist:
  "vdist (pos (objects negativeRadiusEngine ! 0)) (pos (objects negativeRadiusEngine ! 1)) = 1"
  unfolding negativeRadius_objects vdist_def by simp

lemma twoBody_radius:
  "radius (objects twoBodyEngine ! 0) = 1/2" "radius (objects twoBodyEngine ! 1) = 1/2"
  by (simp_all add: twoBodyEngine_def objects_addBody exampleEngine_def PhysicsEngine_new_def
      radius_newObject circleAt_def emptyConfig_def or_default_def)

theorem circleVsCircle_manifold_witness:
  "vdist (pos (objects twoBodyEngine ! 0)) (pos (objects twoBodyEngine ! 1)) = 3 \<and>
   \<not> hasCollision (circleVsCircle (objects twoBodyEngine) 0 1) \<and>
   m_bodyA (circleVsCircle (objects twoBodyEngine) 0 1) = 0"
  using circleVsCircle_manifold[of "objects twoBodyEngine" 0 1]
  unfolding Let_def twoBody_dist twoBody_radius
  by simp

text \<open>
  The claim C10 as stated fails for a negative radius sum: two circles of radius -1
  with centres at distance 1 have the radius sum -2, which the distance exceeds, and
  a collision is reported.
\<close>

theorem circleVsCircle_counterexample:
  "vdist (pos (objects negativeRadiusEngine ! 0)) (pos (objects negativeRadiusEngine ! 1)) = 1 \<and>
   radius (objects negativeRadiusEngine ! 0) + radius (objects negativeRadiusEngine ! 1) = -2 \<and>
   hasCollision (circleVsCircle (objects negativeRadiusEngine) 0 1)"
  unfolding circleVsCircle_collides negativeRadius_dist negativeRadius_objects(3,4) by simp

subsection \<open>Resolution\<close>

lemma applyResolution_length [simp]: "length (applyResolution m os) = length os"
  by (simp add: applyResolution_def Let_def)

lemma applyResolution_immovable:
  "invMass (os ! m_bodyA m) + invMass (os ! m_bodyB m) = 0 \<Longrightarrow> applyResolution m os = os"
  by (simp add: applyResolution_def Let_def)

lemma applyResolution_others:
  "k \<noteq> m_bodyA m \<Longrightarrow> k \<noteq> m_bodyB m \<Longrightarrow> applyResolution m os ! k = os ! k"
  by (simp add: applyResolution_def Let_def)

lemma applyResolution_pos:
  assumes "m_bodyA m < length os" and "m_bodyB m < length os" and "m_bodyA m \<noteq> m_bodyB m"
    and "invMass (os ! m_bodyA m) + invMass (os ! m_bodyB m) \<noteq> 0"
  shows "pos (applyResolution m os ! m_bodyA m) =
           (if fixed (os ! m_bodyA m) then pos (os ! m_bodyA m)
            else vadd (pos (os ! m_bodyA m))
                   (vmul (vmul (normal m) (depth m))
                      (- invMass (os ! m_bodyA m) / (invMass (os ! m_bodyA m) + invMass (os ! m_bodyB m)))))"
    and "pos (applyResolution m os ! m_bodyB m) =
           (if fixed (os ! m_bodyB m) then pos (os ! m_bodyB m)
            else vadd (pos (os ! m_bodyB m))
                   (vmul (vmul (normal m) (depth m))
                      (invMass (os ! m_bodyB m) / (invMass (os ! m_bodyA m) + invMass (os ! m_bodyB m)))))"
  using assms by (simp_all add: applyResolution_def Let_def nth_list_update)

lemma vadd_vmul_neg: "vadd p (vmul (vmul n d) (- i / s)) = vsub p (vmul n (d * (i / s)))"
  by (simp add: vadd_def vsub_def vmul_def)

lemma vadd_vmul_pos: "vadd p (vmul (vmul n d) (j / s)) = vadd p (vmul n (d * (j / s)))"
  by (simp add: vadd_def vmul_def)

lemma share_sum: "s \<noteq> 0 \<Longrightarrow> i + j = s \<Longrightarrow> d * (i / s) + d * (j / s) = (d::real)"
  by (simp add: distrib_left[symmetric] add_divide_distrib[symmetric])

lemma separation_change:
  assumes "s \<noteq> 0" and "i + j = s"
  shows "vsub (vadd q (vmul n (d * (j / s)))) (vsub p (vmul n (d * (i / s)))) =
         vadd (vsub q p) (vmul n d)"
proof -
  have h: "d * (i / s) + d * (j / s) = d" using assms by (rule share_sum)
  have k: "k * (d * (i / s)) + k * (d * (j / s)) = k * d" for k :: real
  proof -
    have "k * (d * (i / s)) + k * (d * (j / s)) = k * (d * (i / s) + d * (j / s))"
      by (rule distrib_left[symmetric])
    then show ?thesis by (simp only: h)
  qed
  have x: "a + c * (d * (j / s)) - (b - c * (d * (i / s))) = a - b + c * d" for a b c :: real
    using k[of c] by linarith
  show ?thesis unfolding vadd_def vsub_def vmul_def by (simp only: Vector2.simps x)
qed

lemma applyResolution_moved:
  assumes "m_bodyA m < length os" and "m_bodyB m < length os" and "m_bodyA m \<noteq> m_bodyB m"
    and "invMass (os ! m_bodyA m) + invMass (os ! m_bodyB m) \<noteq> 0"
  shows "pos (applyResolution m os ! m_bodyA m) =
           (if fixed (os ! m_bodyA m) then pos (os ! m_bodyA m)
            else vsub (pos (os ! m_bodyA m))
                   (vmul (normal m) (depth m *
                      (invMass (os ! m_bodyA m) / (invMass (os ! m_bodyA m) + invMass (os ! m_bodyB m))))))"
    and "pos (applyResolution m os ! m_bodyB m) =
           (if fixed (os ! m_bodyB m) then pos (os ! m_bodyB m)
            else vadd (pos (os ! m_bodyB m))
                   (vmul (normal m) (depth m *
                      (invMass (os ! m_bodyB m) / (invMass (os ! m_bodyA m) + invMass (os ! m_bodyB m))))))"
  unfolding applyResolution_pos[OF assms] by (simp_all add: vadd_def vsub_def vmul_def)

lemma vlen_vmul: "vlen (vmul n k) = \<bar>k\<bar> * vlen n"
proof -
  have "xv n * k * (xv n * k) + yv n * k * (yv n * k) = k\<^sup>2 * (xv n * xv n + yv n * yv n)"
    by (simp add: power2_eq_square algebra_simps)
  then have "vlen (vmul n k) = sqrt (k\<^sup>2 * (xv n * xv n + yv n * yv n))"
    by (simp add: vlen_def vmul_def)
  also have "\<dots> = \<bar>k\<bar> * sqrt (xv n * xv n + yv n * yv n)"
    by (simp add: real_sqrt_mult)
  finally show ?thesis by (simp add: vlen_def)
qed

lemma vdot_vmul_vmul: "vdot (vmul n j) (vmul n k) = j * k * vdot n n"
  by (simp add: vdot_def vmul_def algebra_simps)

lemma vdot_self_nonneg: "0 \<le> vdot n n"
  by (simp add: vdot_def)

lemma vsub_vsub_same: "vsub (vsub p v) p = vmul v (-1)"
  by (simp add: vsub_def vmul_def)

lemma vsub_vadd_same: "vsub (vadd p v) p = v"
  by (simp add: vsub_def vadd_def)

lemma vsub_same: "vsub p p = \<lparr>xv = 0, yv = 0\<rparr>"
  by (simp add: vsub_def)

lemma vmul_zero: "vmul n 0 = \<lparr>xv = 0, yv = 0\<rparr>"
  by (simp add: vmul_def)

lemma vmul_neg: "vmul (vmul n k) (-1) = vmul n (- k)"
  by (simp add: vmul_def)

text \<open>The displacements of the two bodies of a manifold.\<close>

lemma applyResolution_shift:
  assumes "m_bodyA m < length os" and "m_bodyB m < length os" and "m_bodyA m \<noteq> m_bodyB m"
    and "invMass (os ! m_bodyA m) + invMass (os ! m_bodyB m) \<noteq> 0"
  shows "vsub (pos (applyResolution m os ! m_bodyA m)) (pos (os ! m_bodyA m)) =
           (if fixed (os ! m_bodyA m) then \<lparr>xv = 0, yv = 0\<rparr>
            else vmul (normal m) (- (depth m *
                   (invMass (os ! m_bodyA m) / (invMass (os ! m_bodyA m) + invMass (os ! m_bodyB m))))))"
    and "vsub (pos (applyResolution m os ! m_bodyB m)) (pos (os ! m_bodyB m)) =
           (if fixed (os ! m_bodyB m) then \<lparr>xv = 0, yv = 0\<rparr>
            else vmul (normal m) (depth m *
                   (invMass (os ! m_bodyB m) / (invMass (os ! m_bodyA m) + invMass (os ! m_bodyB m)))))"
  unfolding applyResolution_moved[OF assms]
  by (simp_all add: vsub_vsub_same vsub_vadd_same vsub_same vmul_neg)

lemma opposite_shifts:
  assumes "0 \<le> i" and "0 \<le> j" and "i + j \<noteq> 0"
  shows "0 \<le> i / (i + j)" and "0 \<le> j / (i + j)"
    and "vdot (vmul n (- (d * (i / (i + j))))) (vmul n (d * (j / (i + j)))) \<le> 0"
    and "vlen (vmul n (- (d * (i / (i + j))))) + vlen (vmul n (d * (j / (i + j)))) = \<bar>d\<bar> * vlen n"
proof -
  from assms have s: "0 < i + j" by linarith
  show a: "0 \<le> i / (i + j)" using assms(1) s by simp
  show b: "0 \<le> j / (i + j)" using assms(2) s by simp
  have "- (d * (i / (i + j))) * (d * (j / (i + j))) = - (d\<^sup>2 * ((i / (i + j)) * (j / (i + j))))"
    by (simp add: power2_eq_square)
  also have "\<dots> \<le> 0"
  proof -
    have "0 \<le> (i / (i + j)) * (j / (i + j))" using a b by (rule mult_nonneg_nonneg)
    then have "0 \<le> d\<^sup>2 * ((i / (i + j)) * (j / (i + j)))"
      by (rule mult_nonneg_nonneg[OF zero_le_power2])
    then show ?thesis by linarith
  qed
  finally have "- (d * (i / (i + j))) * (d * (j / (i + j))) * vdot n n \<le> 0"
    using vdot_self_nonneg[of n] by (rule mult_nonpos_nonneg)
  then show "vdot (vmul n (- (d * (i / (i + j))))) (vmul n (d * (j / (i + j)))) \<le> 0"
    by (simp only: vdot_vmul_vmul)
  have "\<bar>- (d * (i / (i + j)))\<bar> + \<bar>d * (j / (i + j))\<bar> = \<bar>d\<bar> * (i / (i + j) + j / (i + j))"
  proof -
    have "\<bar>- (d * (i / (i + j)))\<bar> = \<bar>d\<bar> * (i / (i + j))"
      using a by (simp only: abs_minus_cancel abs_mult abs_of_nonneg)
    moreover have "\<bar>d * (j / (i + j))\<bar> = \<bar>d\<bar> * (j / (i + j))"
      using b by (simp only: abs_mult abs_of_nonneg)
    ultimately show ?thesis by (simp only: distrib_left)
  qed
  also have "i / (i + j) + j / (i + j) = 1" using s by (simp add: add_divide_distrib[symmetric])
  finally have e: "\<bar>- (d * (i / (i + j)))\<bar> + \<bar>d * (j / (i + j))\<bar> = \<bar>d\<bar>" by simp
  have "vlen (vmul n (- (d * (i / (i + j))))) + vlen (vmul n (d * (j / (i + j)))) =
        (\<bar>- (d * (i / (i + j)))\<bar> + \<bar>d * (j / (i + j))\<bar>) * vlen n"
    by (simp only: vlen_vmul distrib_right)
  then show "vlen (vmul n (- (d * (i / (i + j))))) + vlen (vmul n (d * (j / (i + j)))) = \<bar>d\<bar> * vlen n"
    by (simp only: e)
qed

lemma if_else_TrueI: "(P \<Longrightarrow> Q) \<Longrightarrow> if P then Q else True"
  by simp

lemma if_then_TrueI: "(\<not> P \<Longrightarrow> Q) \<Longrightarrow> if P then True else Q"
  by simp

lemma shift_of_fixed:
  assumes "i + j \<noteq> (0::real)" and "f \<longrightarrow> i = 0"
  shows "(if f then \<lparr>xv = 0, yv = 0\<rparr> else vmul n (- (d * (i / (i + j))))) = vmul n (- (d * (i / (i + j))))"
    and "(if f then \<lparr>xv = 0, yv = 0\<rparr> else vmul n (d * (i / (i + j)))) = vmul n (d * (i / (i + j)))"
  using assms by (simp_all add: vmul_def)

text \<open>
  C2 (as amended). For a manifold on two different bodies of the store: when the two
  inverse masses sum to 0 the store is returned as it is; otherwise a body that is not
  fixed is moved
  along the normal by the depth times its share \<open>invMass / (invMassA + invMassB)\<close>,
  the first body against the normal and the second along it, a fixed body keeps its
  position, the two amounts add up to the depth, and when neither body is fixed the
  vector from the first to the second position grows by the depth times the normal.
  When neither inverse mass is negative (and a fixed body has the inverse mass 0, as
  every body the engine creates), the displacement of the first body is the normal
  times \<open>- shareA\<close> and that of the second the normal times \<open>shareB\<close>, with shares
  that are not negative: the two displacements have a scalar product that is not
  positive, so they point in opposite directions along the normal, and their lengths
  add up to the absolute value of the depth times the length of the normal, which is
  the depth itself for a depth that is not negative and a unit normal.
\<close>

theorem applyResolution_displacement:
  assumes "m_bodyA m < length os" and "m_bodyB m < length os" and "m_bodyA m \<noteq> m_bodyB m"
  shows "let A = os ! m_bodyA m; B = os ! m_bodyB m;
             invMassSum = invMass A + invMass B;
             shareA = depth m * (invMass A / invMassSum);
             shareB = depth m * (invMass B / invMassSum);
             A' = applyResolution m os ! m_bodyA m;
             B' = applyResolution m os ! m_bodyB m;
             moveA = vsub (pos A') (pos A);
             moveB = vsub (pos B') (pos B)
         in if invMassSum = 0 then applyResolution m os = os
            else pos A' = (if fixed A then pos A else vsub (pos A) (vmul (normal m) shareA)) \<and>
                 pos B' = (if fixed B then pos B else vadd (pos B) (vmul (normal m) shareB)) \<and>
                 shareA + shareB = depth m \<and>
                 (if fixed A \<or> fixed B then True
                  else vsub (pos B') (pos A') = vadd (vsub (pos B) (pos A)) (vmul (normal m) (depth m))) \<and>
                 (if 0 \<le> invMass A \<and> 0 \<le> invMass B \<and>
                     (fixed A \<longrightarrow> invMass A = 0) \<and> (fixed B \<longrightarrow> invMass B = 0)
                  then moveA = vmul (normal m) (- shareA) \<and> moveB = vmul (normal m) shareB \<and>
                       0 \<le> invMass A / invMassSum \<and> 0 \<le> invMass B / invMassSum \<and>
                       vdot moveA moveB \<le> 0 \<and>
                       vlen moveA + vlen moveB = \<bar>depth m\<bar> * vlen (normal m) \<and>
                       (if 0 \<le> depth m \<and> vlen (normal m) = 1
                        then vlen moveA + vlen moveB = depth m else True)
                  else True)"
proof (cases "invMass (os ! m_bodyA m) + invMass (os ! m_bodyB m) = 0")
  case True
  then show ?thesis by (simp add: Let_def applyResolution_immovable)
next
  case False
  let ?i = "invMass (os ! m_bodyA m)" and ?j = "invMass (os ! m_bodyB m)"
  let ?s = "?i + ?j"
  let ?shA = "depth m * (?i / ?s)"
  let ?shB = "depth m * (?j / ?s)"
  let ?mA = "vsub (pos (applyResolution m os ! m_bodyA m)) (pos (os ! m_bodyA m))"
  let ?mB = "vsub (pos (applyResolution m os ! m_bodyB m)) (pos (os ! m_bodyB m))"
  note p = applyResolution_moved[OF assms False]
  have s: "?shA + ?shB = depth m"
    using share_sum[OF False refl] .
  have c: "if fixed (os ! m_bodyA m) \<or> fixed (os ! m_bodyB m) then True
           else vsub (pos (applyResolution m os ! m_bodyB m)) (pos (applyResolution m os ! m_bodyA m)) =
                vadd (vsub (pos (os ! m_bodyB m)) (pos (os ! m_bodyA m))) (vmul (normal m) (depth m))"
  proof (rule if_then_TrueI)
    assume "\<not> (fixed (os ! m_bodyA m) \<or> fixed (os ! m_bodyB m))"
    then have "\<not> fixed (os ! m_bodyA m)" and "\<not> fixed (os ! m_bodyB m)" by simp_all
    then show "vsub (pos (applyResolution m os ! m_bodyB m)) (pos (applyResolution m os ! m_bodyA m)) =
               vadd (vsub (pos (os ! m_bodyB m)) (pos (os ! m_bodyA m))) (vmul (normal m) (depth m))"
      unfolding p using separation_change[OF False refl] by (simp only: if_False)
  qed
  let ?H = "0 \<le> ?i \<and> 0 \<le> ?j \<and> (fixed (os ! m_bodyA m) \<longrightarrow> ?i = 0) \<and>
            (fixed (os ! m_bodyB m) \<longrightarrow> ?j = 0)"
  have q: "if ?H
           then ?mA = vmul (normal m) (- ?shA) \<and> ?mB = vmul (normal m) ?shB \<and>
                0 \<le> ?i / ?s \<and> 0 \<le> ?j / ?s \<and> vdot ?mA ?mB \<le> 0 \<and>
                vlen ?mA + vlen ?mB = \<bar>depth m\<bar> * vlen (normal m) \<and>
                (if 0 \<le> depth m \<and> vlen (normal m) = 1 then vlen ?mA + vlen ?mB = depth m else True)
           else True"
  proof (rule if_else_TrueI)
    assume hyp: ?H
    then have n: "0 \<le> ?i" "0 \<le> ?j" and f: "fixed (os ! m_bodyA m) \<longrightarrow> ?i = 0"
      "fixed (os ! m_bodyB m) \<longrightarrow> ?j = 0" by blast+
    have a: "?mA = vmul (normal m) (- ?shA)"
      unfolding applyResolution_shift(1)[OF assms False] using False f(1) by (rule shift_of_fixed(1))
    have False': "?j + ?i \<noteq> 0" using False by linarith
    have "(if fixed (os ! m_bodyB m) then \<lparr>xv = 0, yv = 0\<rparr> else vmul (normal m) (depth m * (?j / (?j + ?i))))
          = vmul (normal m) (depth m * (?j / (?j + ?i)))"
      using False' f(2) by (rule shift_of_fixed(2))
    then have b: "?mB = vmul (normal m) ?shB"
      unfolding applyResolution_shift(2)[OF assms False] by (simp only: add.commute[of ?j ?i])
    note o = opposite_shifts[OF n False]
    have l: "vlen ?mA + vlen ?mB = \<bar>depth m\<bar> * vlen (normal m)"
      unfolding a b by (rule o(4))
    have d: "vdot ?mA ?mB \<le> 0" unfolding a b by (rule o(3))
    have u: "if 0 \<le> depth m \<and> vlen (normal m) = 1 then vlen ?mA + vlen ?mB = depth m else True"
      using l by simp
    show "?mA = vmul (normal m) (- ?shA) \<and> ?mB = vmul (normal m) ?shB \<and>
          0 \<le> ?i / ?s \<and> 0 \<le> ?j / ?s \<and> vdot ?mA ?mB \<le> 0 \<and>
          vlen ?mA + vlen ?mB = \<bar>depth m\<bar> * vlen (normal m) \<and>
          (if 0 \<le> depth m \<and> vlen (normal m) = 1 then vlen ?mA + vlen ?mB = depth m else True)"
      by (intro conjI a b o(1) o(2) d l u)
  qed
  show ?thesis
    unfolding Let_def
    apply (simp only: False if_False)
    apply (intro conjI p s c q)
    done
qed

lemma twoBody_length: "length (objects twoBodyEngine) = 2"
  by (simp add: twoBodyEngine_def objects_addBody exampleEngine_def PhysicsEngine_new_def)

lemma twoBody_free:
  "\<not> fixed (objects twoBodyEngine ! 0)" "\<not> fixed (objects twoBodyEngine ! 1)"
  "invMass (objects twoBodyEngine ! 0) = 1" "invMass (objects twoBodyEngine ! 1) = 1"
  by (simp_all add: twoBodyEngine_def objects_addBody exampleEngine_def PhysicsEngine_new_def
      newObject_fixed newObject_invMass newObject_mass circleAt_def emptyConfig_def
      or_default_def truthy_def)

lemma sqrt_quarter: "sqrt (1/4) = (1/2::real)"
  by (rule real_sqrt_unique) (simp_all add: power2_eq_square)

theorem applyResolution_displacement_witness:
  "m_bodyA unitContact < length (objects twoBodyEngine) \<and>
   m_bodyB unitContact < length (objects twoBodyEngine) \<and>
   m_bodyA unitContact \<noteq> m_bodyB unitContact \<and>
   0 \<le> invMass (objects twoBodyEngine ! 0) \<and> 0 \<le> invMass (objects twoBodyEngine ! 1) \<and>
   \<not> fixed (objects twoBodyEngine ! 0) \<and> \<not> fixed (objects twoBodyEngine ! 1) \<and>
   0 \<le> depth unitContact \<and> vlen (normal unitContact) = 1 \<and>
   pos (applyResolution unitContact (objects twoBodyEngine) ! 0) = \<lparr>xv = - (1/2), yv = 0\<rparr> \<and>
   pos (applyResolution unitContact (objects twoBodyEngine) ! 1) = \<lparr>xv = 7/2, yv = 0\<rparr> \<and>
   vdot (vsub (pos (applyResolution unitContact (objects twoBodyEngine) ! 0)) (pos (objects twoBodyEngine ! 0)))
        (vsub (pos (applyResolution unitContact (objects twoBodyEngine) ! 1)) (pos (objects twoBodyEngine ! 1))) \<le> 0 \<and>
   vlen (vsub (pos (applyResolution unitContact (objects twoBodyEngine) ! 0)) (pos (objects twoBodyEngine ! 0))) +
   vlen (vsub (pos (applyResolution unitContact (objects twoBodyEngine) ! 1)) (pos (objects twoBodyEngine ! 1))) = 1"
proof -
  have a: "m_bodyA unitContact = 0" and b: "m_bodyB unitContact = 1"
    and n: "normal unitContact = \<lparr>xv = 1, yv = 0\<rparr>" and d: "depth unitContact = 1"
    by (simp_all add: unitContact_def)
  have u: "vlen \<lparr>xv = 1, yv = 0\<rparr> = 1" by (simp add: vlen_def)
  have h: "m_bodyA unitContact < length (objects twoBodyEngine)"
    "m_bodyB unitContact < length (objects twoBodyEngine)"
    "m_bodyA unitContact \<noteq> m_bodyB unitContact"
    by (simp_all add: a b twoBody_length)
  have fx: "fixed (objects twoBodyEngine ! 0) = False" "fixed (objects twoBodyEngine ! 1) = False"
    using twoBody_free(1,2) by simp_all
  note r = applyResolution_displacement[OF h, unfolded Let_def a b n d u twoBody_free(3,4) twoBody_pos fx,
      simplified]
  from r
  have p: "pos (applyResolution unitContact (objects twoBodyEngine) ! 0) = \<lparr>xv = - (1/2), yv = 0\<rparr> \<and>
           pos (applyResolution unitContact (objects twoBodyEngine) ! 1) = \<lparr>xv = 7/2, yv = 0\<rparr>"
    by (simp add: vsub_def vadd_def vmul_def)
  from r
  have q: "vdot (vsub (pos (applyResolution unitContact (objects twoBodyEngine) ! 0)) \<lparr>xv = 0, yv = 0\<rparr>)
                (vsub (pos (applyResolution unitContact (objects twoBodyEngine) ! 1)) \<lparr>xv = 3, yv = 0\<rparr>) \<le> 0 \<and>
           vlen (vsub (pos (applyResolution unitContact (objects twoBodyEngine) ! 0)) \<lparr>xv = 0, yv = 0\<rparr>) +
           vlen (vsub (pos (applyResolution unitContact (objects twoBodyEngine) ! 1)) \<lparr>xv = 3, yv = 0\<rparr>) = 1"
    unfolding One_nat_def by blast
  have e: "0 \<le> (1::real)" "\<not> False" by simp_all
  show ?thesis
    unfolding twoBody_free(3,4) twoBody_pos fx d n u
    by (intro conjI h e p[THEN conjunct1] p[THEN conjunct2] q[THEN conjunct1] q[THEN conjunct2] refl)
qed

lemma negativeMass_length: "length (objects negativeMassEngine) = 2"
  by (simp add: negativeMassEngine_def objects_addBody exampleEngine_def PhysicsEngine_new_def)

lemma negativeMass_objects:
  "\<not> fixed (objects negativeMassEngine ! 0)" "\<not> fixed (objects negativeMassEngine ! 1)"
  "mass (objects negativeMassEngine ! 0) = 1" "mass (objects negativeMassEngine ! 1) = -2"
  "invMass (objects negativeMassEngine ! 0) = 1" "invMass (objects negativeMassEngine ! 1) = - (1/2)"
  "pos (objects negativeMassEngine ! 0) = \<lparr>xv = 0, yv = 0\<rparr>"
  "pos (objects negativeMassEngine ! 1) = \<lparr>xv = 3, yv = 0\<rparr>"
  by (simp_all add: negativeMassEngine_def objects_addBody exampleEngine_def PhysicsEngine_new_def
      newObject_fixed newObject_invMass newObject_mass pos_newObject massCircleAt_def emptyConfig_def
      or_default_def truthy_def)

lemma negativeRadius_length: "length (objects negativeRadiusEngine) = 2"
  by (simp add: negativeRadiusEngine_def objects_addBody exampleEngine_def PhysicsEngine_new_def)

lemma negativeRadius_free:
  "\<not> fixed (objects negativeRadiusEngine ! 0)" "\<not> fixed (objects negativeRadiusEngine ! 1)"
  "invMass (objects negativeRadiusEngine ! 0) = 1" "invMass (objects negativeRadiusEngine ! 1) = 1"
  by (simp_all add: negativeRadiusEngine_def objects_addBody exampleEngine_def PhysicsEngine_new_def
      newObject_fixed newObject_invMass newObject_mass negativeRadiusCircle_def emptyConfig_def
      or_default_def truthy_def)

lemma negativeRadius_contact:
  "circleVsCircle (objects negativeRadiusEngine) 0 1 =
     \<lparr>m_bodyA = 0, m_bodyB = 1, normal = \<lparr>xv = 1, yv = 0\<rparr>, depth = -3, hasCollision = True\<rparr>"
  unfolding circleVsCircle_def Let_def negativeRadius_objects
  by (simp add: vsub_def vlenSq_def vdiv_def)

text \<open>
  The claim C2 as stated fails for a negative inverse mass and for a negative depth.
  A circle of mass 1 and a circle of mass -2 have the inverse masses 1 and -1/2; a
  contact of depth 1 with the normal (1, 0) moves the first by (-2, 0) and the second
  by (-1, 0): the same direction, and lengths that add up to 3. Two circles of radius
  -1 with centres at distance 1 are detected as colliding with the depth -3; the
  resolution of that manifold moves them by (3/2, 0) and (-3/2, 0), lengths that add
  up to 3.
\<close>

theorem applyResolution_counterexample:
  "mass (objects negativeMassEngine ! 0) = 1 \<and> mass (objects negativeMassEngine ! 1) = -2 \<and>
   invMass (objects negativeMassEngine ! 0) = 1 \<and> invMass (objects negativeMassEngine ! 1) = - (1/2) \<and>
   \<not> fixed (objects negativeMassEngine ! 0) \<and> \<not> fixed (objects negativeMassEngine ! 1) \<and>
   normal unitContact = \<lparr>xv = 1, yv = 0\<rparr> \<and> depth unitContact = 1 \<and>
   vsub (pos (applyResolution unitContact (objects negativeMassEngine) ! 0))
        (pos (objects negativeMassEngine ! 0)) = \<lparr>xv = -2, yv = 0\<rparr> \<and>
   vsub (pos (applyResolution unitContact (objects negativeMassEngine) ! 1))
        (pos (objects negativeMassEngine ! 1)) = \<lparr>xv = -1, yv = 0\<rparr> \<and>
   circleVsCircle (objects negativeRadiusEngine) 0 1 =
     \<lparr>m_bodyA = 0, m_bodyB = 1, normal = \<lparr>xv = 1, yv = 0\<rparr>, depth = -3, hasCollision = True\<rparr> \<and>
   vsub (pos (applyResolution (circleVsCircle (objects negativeRadiusEngine) 0 1)
                (objects negativeRadiusEngine) ! 0))
        (pos (objects negativeRadiusEngine ! 0)) = \<lparr>xv = 3/2, yv = 0\<rparr> \<and>
   vsub (pos (applyResolution (circleVsCircle (objects negativeRadiusEngine) 0 1)
                (objects negativeRadiusEngine) ! 1))
        (pos (objects negativeRadiusEngine ! 1)) = \<lparr>xv = - (3/2), yv = 0\<rparr>"
proof -
  have a: "m_bodyA unitContact = 0" and b: "m_bodyB unitContact = 1"
    and n: "normal unitContact = \<lparr>xv = 1, yv = 0\<rparr>" and d: "depth unitContact = 1"
    by (simp_all add: unitContact_def)
  have h: "m_bodyA unitContact < length (objects negativeMassEngine)"
    "m_bodyB unitContact < length (objects negativeMassEngine)"
    "m_bodyA unitContact \<noteq> m_bodyB unitContact"
    by (simp_all add: a b negativeMass_length)
  have s: "invMass (objects negativeMassEngine ! m_bodyA unitContact) +
           invMass (objects negativeMassEngine ! m_bodyB unitContact) \<noteq> 0"
    unfolding a b negativeMass_objects by simp
  note x = applyResolution_shift[OF h s]
  have x1: "vsub (pos (applyResolution unitContact (objects negativeMassEngine) ! 0))
        (pos (objects negativeMassEngine ! 0)) = \<lparr>xv = -2, yv = 0\<rparr>"
    using x(1) negativeMass_objects(1) unfolding a b n d negativeMass_objects(5,6)
    by (simp add: vmul_def)
  have x2: "vsub (pos (applyResolution unitContact (objects negativeMassEngine) ! 1))
        (pos (objects negativeMassEngine ! 1)) = \<lparr>xv = -1, yv = 0\<rparr>"
    using x(2) negativeMass_objects(2) unfolding a b n d negativeMass_objects(5,6)
    by (simp add: vmul_def)
  let ?c = "circleVsCircle (objects negativeRadiusEngine) 0 1"
  have k: "m_bodyA ?c < length (objects negativeRadiusEngine)"
    "m_bodyB ?c < length (objects negativeRadiusEngine)"
    "m_bodyA ?c \<noteq> m_bodyB ?c"
    unfolding negativeRadius_contact by (simp_all add: negativeRadius_length)
  have t: "invMass (objects negativeRadiusEngine ! m_bodyA ?c) +
           invMass (objects negativeRadiusEngine ! m_bodyB ?c) \<noteq> 0"
    unfolding negativeRadius_contact by (simp add: negativeRadius_free[unfolded One_nat_def])
  note y = applyResolution_shift[OF k t]
  have y1: "vsub (pos (applyResolution ?c (objects negativeRadiusEngine) ! 0))
        (pos (objects negativeRadiusEngine ! 0)) = \<lparr>xv = 3/2, yv = 0\<rparr>"
    using y(1) negativeRadius_free(1) unfolding negativeRadius_contact
    by (simp add: vmul_def negativeRadius_free(3,4)[unfolded One_nat_def])
  have y2: "vsub (pos (applyResolution ?c (objects negativeRadiusEngine) ! 1))
        (pos (objects negativeRadiusEngine ! 1)) = \<lparr>xv = - (3/2), yv = 0\<rparr>"
    using y(2) negativeRadius_free(2) unfolding negativeRadius_contact
    by (simp add: vmul_def negativeRadius_free(3,4)[unfolded One_nat_def])
  show ?thesis
    by (intro conjI negativeMass_objects(1-6) n d x1 x2 negativeRadius_contact y1 y2)
qed

section \<open>Properties of the constraint solver\<close>

lemma solveConstraint_length [simp]: "length (solveConstraint om c os) = length os"
  by (simp add: solveConstraint_def Let_def split: option.splits)

lemma fixed_update_pos [simp]: "fixed (xs[i := (xs ! i)\<lparr>pos := p\<rparr>] ! k) = fixed (xs ! k)"
  by (cases "i < length xs"; cases "k = i") (simp_all add: list_update_beyond)

lemma solveConstraint_fixed [simp]: "fixed (solveConstraint om c os ! k) = fixed (os ! k)"
  by (simp add: solveConstraint_def Let_def split: option.splits)

lemma solveConstraint_skip:
  assumes "om (bodyA c) = Some a" and "om (bodyB c) = Some b"
    and "vdist (pos (os ! a)) (pos (os ! b)) = 0"
  shows "solveConstraint om c os = os"
  using assms by (simp add: solveConstraint_def)

lemma vdist_same [simp]: "vdist p p = 0"
  by (simp add: vdist_def)

lemma solveConstraint_moved:
  assumes "om (bodyA c) = Some a" and "om (bodyB c) = Some b"
    and "a < length os" and "b < length os"
    and "vdist (pos (os ! a)) (pos (os ! b)) \<noteq> 0"
  shows "pos (solveConstraint om c os ! a) =
           (if fixed (os ! a) then pos (os ! a)
            else vadd (pos (os ! a))
                   (vmul (vsub (pos (os ! b)) (pos (os ! a)))
                      ((vdist (pos (os ! a)) (pos (os ! b)) - clength c) /
                        vdist (pos (os ! a)) (pos (os ! b)) * (stiffness c * (5/10)))))"
    and "pos (solveConstraint om c os ! b) =
           (if fixed (os ! b) then pos (os ! b)
            else vsub (pos (os ! b))
                   (vmul (vsub (pos (os ! b)) (pos (os ! a)))
                      ((vdist (pos (os ! a)) (pos (os ! b)) - clength c) /
                        vdist (pos (os ! a)) (pos (os ! b)) * (stiffness c * (5/10)))))"
proof -
  from assms(5) have ne: "a \<noteq> b" by auto
  show "pos (solveConstraint om c os ! a) =
           (if fixed (os ! a) then pos (os ! a)
            else vadd (pos (os ! a))
                   (vmul (vsub (pos (os ! b)) (pos (os ! a)))
                      ((vdist (pos (os ! a)) (pos (os ! b)) - clength c) /
                        vdist (pos (os ! a)) (pos (os ! b)) * (stiffness c * (5/10)))))"
    using assms ne by (simp add: solveConstraint_def Let_def nth_list_update)
  show "pos (solveConstraint om c os ! b) =
           (if fixed (os ! b) then pos (os ! b)
            else vsub (pos (os ! b))
                   (vmul (vsub (pos (os ! b)) (pos (os ! a)))
                      ((vdist (pos (os ! a)) (pos (os ! b)) - clength c) /
                        vdist (pos (os ! a)) (pos (os ! b)) * (stiffness c * (5/10)))))"
    using assms ne by (simp add: solveConstraint_def Let_def nth_list_update)
qed

lemma solve_single: "solve [c] om = solveConstraint om c"
  by (rule ext) (simp add: solve_def)

lemma vdist_nonneg: "0 \<le> vdist p q"
  by (simp add: vdist_def)

lemma vdist_square: "(vdist p q)\<^sup>2 = (xv p - xv q)\<^sup>2 + (yv p - yv q)\<^sup>2"
  by (simp add: vdist_def)

text \<open>
  Moving both endpoints by the same multiple \<open>k\<close> of the connecting vector scales
  their distance by \<open>\<bar>1 - 2 * k\<bar>\<close>.
\<close>

lemma vdist_nudged:
  "vdist (vadd p (vmul (vsub q p) k)) (vsub q (vmul (vsub q p) k)) = \<bar>1 - 2 * k\<bar> * vdist p q"
proof -
  have x: "xv (vadd p (vmul (vsub q p) k)) - xv (vsub q (vmul (vsub q p) k)) = (1 - 2 * k) * (xv p - xv q)"
    by (simp add: vadd_def vsub_def vmul_def algebra_simps)
  have y: "yv (vadd p (vmul (vsub q p) k)) - yv (vsub q (vmul (vsub q p) k)) = (1 - 2 * k) * (yv p - yv q)"
    by (simp add: vadd_def vsub_def vmul_def algebra_simps)
  have "(vdist (vadd p (vmul (vsub q p) k)) (vsub q (vmul (vsub q p) k)))\<^sup>2 =
        ((1 - 2 * k) * (xv p - xv q))\<^sup>2 + ((1 - 2 * k) * (yv p - yv q))\<^sup>2"
    unfolding vdist_square x y ..
  also have "\<dots> = (1 - 2 * k)\<^sup>2 * ((xv p - xv q)\<^sup>2 + (yv p - yv q)\<^sup>2)"
    by (simp add: power_mult_distrib distrib_left)
  also have "\<dots> = (\<bar>1 - 2 * k\<bar> * vdist p q)\<^sup>2"
    by (simp add: power_mult_distrib vdist_square)
  finally have "(vdist (vadd p (vmul (vsub q p) k)) (vsub q (vmul (vsub q p) k)))\<^sup>2 =
                (\<bar>1 - 2 * k\<bar> * vdist p q)\<^sup>2" .
  moreover have "0 \<le> \<bar>1 - 2 * k\<bar> * vdist p q" by (simp add: vdist_nonneg)
  ultimately show ?thesis using vdist_nonneg[of "vadd p (vmul (vsub q p) k)" "vsub q (vmul (vsub q p) k)"]
    by (simp only: power2_eq_iff_nonneg)
qed

text \<open>One pass on a rigid rod (stiffness 1) between two free bodies that do not coincide.\<close>

lemma solveConstraint_rigid:
  assumes "om (bodyA c) = Some a" and "om (bodyB c) = Some b"
    and "a < length os" and "b < length os"
    and "\<not> fixed (os ! a)" and "\<not> fixed (os ! b)" and "stiffness c = 1"
    and "vdist (pos (os ! a)) (pos (os ! b)) \<noteq> 0"
  shows "vdist (pos (solveConstraint om c os ! a)) (pos (solveConstraint om c os ! b)) = \<bar>clength c\<bar>"
proof -
  let ?d = "vdist (pos (os ! a)) (pos (os ! b))"
  let ?k = "(?d - clength c) / ?d * (stiffness c * (5/10))"
  have d: "0 < ?d" using assms(8) vdist_nonneg[of "pos (os ! a)" "pos (os ! b)"] by linarith
  have "1 - 2 * ?k = clength c / ?d" using d assms(7) by (simp add: field_simps)
  then have k: "\<bar>1 - 2 * ?k\<bar> * ?d = \<bar>clength c\<bar>" using d by (simp add: abs_divide)
  show ?thesis
    unfolding solveConstraint_moved[OF assms(1-4,8)] using assms(5,6) vdist_nudged[of "pos (os ! a)" "pos (os ! b)" ?k] k
    by (simp only: if_False)
qed

lemma solve_rigid_passes:
  assumes "om (bodyA c) = Some a" and "om (bodyB c) = Some b"
    and "a < length os" and "b < length os"
    and "\<not> fixed (os ! a)" and "\<not> fixed (os ! b)" and "stiffness c = 1"
    and "vdist (pos (os ! a)) (pos (os ! b)) \<noteq> 0"
  shows "vdist (pos ((solve [c] om ^^ Suc n) os ! a)) (pos ((solve [c] om ^^ Suc n) os ! b)) = \<bar>clength c\<bar> \<and>
         length ((solve [c] om ^^ Suc n) os) = length os \<and>
         \<not> fixed ((solve [c] om ^^ Suc n) os ! a) \<and> \<not> fixed ((solve [c] om ^^ Suc n) os ! b)"
  unfolding solve_single
proof (induction n)
  case 0
  show ?case using solveConstraint_rigid[OF assms] assms(5,6) by simp
next
  case (Suc n)
  let ?os = "(solveConstraint om c ^^ Suc n) os"
  from Suc have l: "a < length ?os" "b < length ?os" and f: "\<not> fixed (?os ! a)" "\<not> fixed (?os ! b)"
    and e: "vdist (pos (?os ! a)) (pos (?os ! b)) = \<bar>clength c\<bar>"
    using assms(3,4) by simp_all
  have s: "(solveConstraint om c ^^ Suc (Suc n)) os = solveConstraint om c ?os" by simp
  show ?case
  proof (cases "vdist (pos (?os ! a)) (pos (?os ! b)) = 0")
    case True
    then have "solveConstraint om c ?os = ?os" using assms(1,2) by (rule solveConstraint_skip[rotated 2])
    then show ?thesis unfolding s using Suc by simp
  next
    case False
    from solveConstraint_rigid[OF assms(1,2) l f assms(7) False] Suc f
    show ?thesis unfolding s by simp
  qed
qed

text \<open>
  C4 (as amended). For a distance constraint whose two endpoints are bodies of the
  store, with \<open>d\<close> their distance: a pass leaves the store as it is when \<open>d = 0\<close>;
  otherwise an endpoint that is not fixed moves by \<open>stiffness * 0.5\<close> times the error
  \<open>(d - restLength) / d\<close> times the vector from the first endpoint to the second, the
  first endpoint along that vector and the second against it, and a fixed endpoint
  does not move. For stiffness 1, both endpoints not fixed, \<open>d \<noteq> 0\<close> and a rest
  length that is not negative, and for every tolerance \<open>\<epsilon> > 0\<close>, the distance after 5
  or more passes is within \<open>\<epsilon>\<close> of the rest length. Numbers are real numbers here:
  the rounding of floating-point arithmetic is not part of the model.
\<close>

theorem solveConstraint_pass:
  assumes "om (bodyA c) = Some a" and "om (bodyB c) = Some b"
    and "a < length os" and "b < length os"
  shows "let A = os ! a; B = os ! b; d = vdist (pos A) (pos B); vec = vsub (pos B) (pos A);
             amount = stiffness c * (1/2) * ((d - clength c) / d);
             os' = solveConstraint om c os;
             dist = (\<lambda>n. vdist (pos ((solve [c] om ^^ n) os ! a)) (pos ((solve [c] om ^^ n) os ! b)))
         in if d = 0 then os' = os
            else pos (os' ! a) = (if fixed A then pos A else vadd (pos A) (vmul vec amount)) \<and>
                 pos (os' ! b) = (if fixed B then pos B else vsub (pos B) (vmul vec amount)) \<and>
                 (if fixed A \<or> fixed B \<or> stiffness c \<noteq> 1 \<or> clength c < 0 \<or> \<epsilon> \<le> 0 then True
                  else \<forall>n\<ge>5. \<bar>dist n - clength c\<bar> < \<epsilon>)"
proof (cases "vdist (pos (os ! a)) (pos (os ! b)) = 0")
  case True
  with solveConstraint_skip[OF assms(1,2) True] show ?thesis by (simp add: Let_def)
next
  case False
  let ?d = "vdist (pos (os ! a)) (pos (os ! b))"
  have am: "(?d - clength c) / ?d * (stiffness c * (5/10)) = stiffness c * (1/2) * ((?d - clength c) / ?d)"
    by (simp add: mult.commute)
  note m = solveConstraint_moved[OF assms False, unfolded am]
  have r: "vdist (pos ((solve [c] om ^^ n) os ! a)) (pos ((solve [c] om ^^ n) os ! b)) = clength c"
    if "\<not> fixed (os ! a)" "\<not> fixed (os ! b)" "stiffness c = 1" "0 \<le> clength c" "5 \<le> n" for n
  proof -
    from that(5) obtain k where n: "n = Suc k" by (cases n) auto
    from solve_rigid_passes[OF assms that(1-3) False, of k] that(4) show ?thesis
      unfolding n by simp
  qed
  have t: "if fixed (os ! a) \<or> fixed (os ! b) \<or> stiffness c \<noteq> 1 \<or> clength c < 0 \<or> \<epsilon> \<le> 0 then True
           else \<forall>n\<ge>5. \<bar>vdist (pos ((solve [c] om ^^ n) os ! a))
                              (pos ((solve [c] om ^^ n) os ! b)) - clength c\<bar> < \<epsilon>"
  proof (rule if_then_TrueI)
    assume "\<not> (fixed (os ! a) \<or> fixed (os ! b) \<or> stiffness c \<noteq> 1 \<or> clength c < 0 \<or> \<epsilon> \<le> 0)"
    then have h: "\<not> fixed (os ! a)" "\<not> fixed (os ! b)" "stiffness c = 1" "0 \<le> clength c"
      and e: "0 < \<epsilon>" by auto
    show "\<forall>n\<ge>5. \<bar>vdist (pos ((solve [c] om ^^ n) os ! a))
                        (pos ((solve [c] om ^^ n) os ! b)) - clength c\<bar> < \<epsilon>"
      using r[OF h] e by simp
  qed
  show ?thesis
    unfolding Let_def using False m t by (simp only: if_False simp_thms)
qed

lemma objects_connect [simp]: "objects (connect idA idB config s) = objects s"
  by (simp add: connect_def generateId_def Let_def split: option.splits)

lemma objectMap_connect [simp]: "objectMap (connect idA idB config s) = objectMap s"
  by (simp add: connect_def generateId_def Let_def split: option.splits)

lemma constraints_log_msg [simp]: "constraints (log_msg m s) = constraints s"
  by (simp add: log_msg_def Let_def)

lemma constraints_addBody [simp]: "constraints (snd (addBody ty c s)) = constraints s"
  by (simp add: addBody_def generateId_def Let_def)

lemma twoBody_constraints: "constraints twoBodyEngine = []"
  by (simp add: twoBodyEngine_def exampleEngine_def PhysicsEngine_new_def)

lemma rod_constraint:
  "\<exists>c. constraints rodEngine = [c] \<and> bodyA c = ''obj_1'' \<and> bodyB c = ''obj_2'' \<and>
       clength c = 5 \<and> stiffness c = 1"
  by (simp add: rodEngine_def connect_found[OF twoBody_map] twoBody_constraints rodConfig_def
      or_default_def)

theorem solveConstraint_pass_witness:
  "\<exists>c. constraints rodEngine = [c] \<and> stiffness c = 1 \<and> clength c = 5 \<and>
       objectMap rodEngine (bodyA c) = Some 0 \<and> objectMap rodEngine (bodyB c) = Some 1 \<and>
       \<not> fixed (objects rodEngine ! 0) \<and> \<not> fixed (objects rodEngine ! 1) \<and>
       vdist (pos (objects rodEngine ! 0)) (pos (objects rodEngine ! 1)) = 3 \<and>
       \<bar>vdist (pos ((solve [c] (objectMap rodEngine) ^^ 5) (objects rodEngine) ! 0))
              (pos ((solve [c] (objectMap rodEngine) ^^ 5) (objects rodEngine) ! 1)) - 5\<bar> < 1/1000"
proof -
  from rod_constraint obtain c where c: "constraints rodEngine = [c]" "bodyA c = ''obj_1''"
    "bodyB c = ''obj_2''" "clength c = 5" "stiffness c = 1" by blast
  have o: "objects rodEngine = objects twoBodyEngine" and m: "objectMap rodEngine = objectMap twoBodyEngine"
    by (simp_all add: rodEngine_def)
  have h: "objectMap rodEngine (bodyA c) = Some 0" "objectMap rodEngine (bodyB c) = Some 1"
    "0 < length (objects rodEngine)" "1 < length (objects rodEngine)"
    by (simp_all add: m o c twoBody_map twoBody_length)
  have d: "vdist (pos (objects rodEngine ! 0)) (pos (objects rodEngine ! 1)) = 3"
    unfolding o by (rule twoBody_dist)
  have f: "\<not> fixed (objects rodEngine ! 0)" "\<not> fixed (objects rodEngine ! 1)"
    unfolding o by (rule twoBody_free)+
  from solveConstraint_pass[OF h, where \<epsilon> = "1/1000"] have
    "\<forall>n\<ge>5. \<bar>vdist (pos ((solve [c] (objectMap rodEngine) ^^ n) (objects rodEngine) ! 0))
                  (pos ((solve [c] (objectMap rodEngine) ^^ n) (objects rodEngine) ! 1)) - 5\<bar> < 1/1000"
    unfolding Let_def d using f c(4,5) by simp
  then have
    "\<bar>vdist (pos ((solve [c] (objectMap rodEngine) ^^ 5) (objects rodEngine) ! 0))
           (pos ((solve [c] (objectMap rodEngine) ^^ 5) (objects rodEngine) ! 1)) - 5\<bar> < 1/1000"
    by (simp only: le_refl simp_thms)
  with c h d f show ?thesis by blast
qed

lemma funpow_fixed: "f x = x \<Longrightarrow> (f ^^ n) x = x"
  by (induction n) simp_all

lemma coincident_facts:
  "objectMap coincidentEngine ''obj_1'' = Some 0" "objectMap coincidentEngine ''obj_2'' = Some 1"
  "pos (objects coincidentEngine ! 0) = \<lparr>xv = 0, yv = 0\<rparr>"
  "pos (objects coincidentEngine ! 1) = \<lparr>xv = 0, yv = 0\<rparr>"
  "\<not> fixed (objects coincidentEngine ! 0)" "\<not> fixed (objects coincidentEngine ! 1)"
  by (simp_all add: coincidentEngine_def objectMap_addBody objects_addBody exampleEngine_def
      PhysicsEngine_new_def string_of_nat.simps pos_newObject newObject_fixed circleAt_def
      emptyConfig_def or_default_def truthy_def)

lemma coincident_constraints:
  "constraints coincidentEngine =
     [\<lparr>cid = ''c_obj_3'', bodyA = ''obj_1'', bodyB = ''obj_2'', clength = 1, stiffness = 1,
       ccolor = ''#3498db''\<rparr>]"
  by (simp add: coincidentEngine_def connect_def generateId_def Let_def objectMap_addBody
      objects_addBody exampleEngine_def PhysicsEngine_new_def string_of_nat.simps
      unitRodConfig_def or_default_def or_default_str_def)

lemma negativeRod_constraint:
  "\<exists>c. constraints negativeRodEngine = [c] \<and> bodyA c = ''obj_1'' \<and> bodyB c = ''obj_2'' \<and>
       clength c = -1 \<and> stiffness c = 1"
  by (simp add: negativeRodEngine_def connect_found[OF twoBody_map] twoBody_constraints
      negativeRodConfig_def or_default_def)

text \<open>
  The claim C4 as stated fails on its last part. Two free bodies created at the same
  place and joined by a rod of stiffness 1 and rest length 1 stay where they are under
  every pass (the pass skips a constraint of distance 0), so their distance stays 0.
  Two free bodies at distance 3 joined by a rod of stiffness 1 and rest length -1 are at
  distance 1 after 5 passes.
\<close>

theorem solveConstraint_counterexample:
  "length (constraints coincidentEngine) = 1 \<and>
   stiffness (hd (constraints coincidentEngine)) = 1 \<and>
   clength (hd (constraints coincidentEngine)) = 1 \<and>
   objectMap coincidentEngine (bodyA (hd (constraints coincidentEngine))) = Some 0 \<and>
   objectMap coincidentEngine (bodyB (hd (constraints coincidentEngine))) = Some 1 \<and>
   \<not> fixed (objects coincidentEngine ! 0) \<and> \<not> fixed (objects coincidentEngine ! 1) \<and>
   solve (constraints coincidentEngine) (objectMap coincidentEngine) (objects coincidentEngine) =
     objects coincidentEngine \<and>
   (solve (constraints coincidentEngine) (objectMap coincidentEngine) ^^ 5) (objects coincidentEngine) =
     objects coincidentEngine \<and>
   vdist (pos (objects coincidentEngine ! 0)) (pos (objects coincidentEngine ! 1)) = 0 \<and>
   length (constraints negativeRodEngine) = 1 \<and>
   stiffness (hd (constraints negativeRodEngine)) = 1 \<and>
   clength (hd (constraints negativeRodEngine)) = -1 \<and>
   vdist (pos ((solve (constraints negativeRodEngine) (objectMap negativeRodEngine) ^^ 5)
                 (objects negativeRodEngine) ! 0))
         (pos ((solve (constraints negativeRodEngine) (objectMap negativeRodEngine) ^^ 5)
                 (objects negativeRodEngine) ! 1)) = 1"
proof -
  let ?c = "hd (constraints coincidentEngine)"
  have c: "constraints coincidentEngine = [?c]" by (simp add: coincident_constraints)
  have c1: "bodyA ?c = ''obj_1''" "bodyB ?c = ''obj_2''" "stiffness ?c = 1" "clength ?c = 1"
    by (simp_all add: coincident_constraints)
  have d: "vdist (pos (objects coincidentEngine ! 0)) (pos (objects coincidentEngine ! 1)) = 0"
    unfolding coincident_facts by simp
  have s: "solve (constraints coincidentEngine) (objectMap coincidentEngine) (objects coincidentEngine) =
           objects coincidentEngine"
    by (subst c, unfold solve_single, rule solveConstraint_skip[OF _ _ d])
       (simp_all add: c1 coincident_facts)
  from negativeRod_constraint obtain k where k: "constraints negativeRodEngine = [k]"
    "bodyA k = ''obj_1''" "bodyB k = ''obj_2''" "clength k = -1" "stiffness k = 1" by blast
  have o: "objects negativeRodEngine = objects twoBodyEngine"
    and m: "objectMap negativeRodEngine = objectMap twoBodyEngine"
    by (simp_all add: negativeRodEngine_def)
  have d3: "vdist (pos (objects twoBodyEngine ! 0)) (pos (objects twoBodyEngine ! 1)) \<noteq> 0"
    unfolding twoBody_dist by simp
  have h: "objectMap twoBodyEngine (bodyA k) = Some 0" "objectMap twoBodyEngine (bodyB k) = Some 1"
    "0 < length (objects twoBodyEngine)" "1 < length (objects twoBodyEngine)"
    by (simp_all add: k twoBody_map twoBody_length)
  have n: "vdist (pos ((solve [k] (objectMap twoBodyEngine) ^^ 5) (objects twoBodyEngine) ! 0))
                 (pos ((solve [k] (objectMap twoBodyEngine) ^^ 5) (objects twoBodyEngine) ! 1)) = 1"
    using solve_rigid_passes[OF h twoBody_free(1,2) k(5) d3, of 4] k(4) by simp
  show ?thesis
    using c1 coincident_facts(1,2,5,6) s d n k
      funpow_fixed[of "solve (constraints coincidentEngine) (objectMap coincidentEngine)"
                      "objects coincidentEngine" 5, OF s]
    unfolding o m by (simp add: coincident_constraints)
qed

subsection \<open>Polygon against polygon\<close>

lemma Min_insert_pick:
  assumes "finite S"
  shows "Min (insert (if x < lo then x else lo) S) = Min (insert lo (insert (x::real) S))"
proof -
  have e: "(if x < lo then x else lo) = min lo x" by (auto simp add: min_def)
  show ?thesis
  proof (cases "S = {}")
    case True
    then show ?thesis unfolding e by simp
  next
    case False
    from assms False have 1: "Min (insert (min lo x) S) = min (min lo x) (Min S)"
      by (rule Min_insert)
    from False assms have 2: "Min (insert lo (insert x S)) = min lo (min x (Min S))"
      by (simp only: Min_insert finite_insert insert_not_empty simp_thms)
    show ?thesis unfolding e 1 2 by (rule min.assoc)
  qed
qed

lemma Max_insert_pick:
  assumes "finite S"
  shows "Max (insert (if hi < x then x else hi) S) = Max (insert hi (insert (x::real) S))"
proof -
  have e: "(if hi < x then x else hi) = max hi x" by (auto simp add: max_def)
  show ?thesis
  proof (cases "S = {}")
    case True
    then show ?thesis unfolding e by simp
  next
    case False
    from assms False have 1: "Max (insert (max hi x) S) = max (max hi x) (Max S)"
      by (rule Max_insert)
    from False assms have 2: "Max (insert hi (insert x S)) = max hi (max x (Max S))"
      by (simp only: Max_insert finite_insert insert_not_empty simp_thms)
    show ?thesis unfolding e 1 2 by (rule max.assoc)
  qed
qed

lemma projectLoop_Fin:
  "projectLoop vs axis (Fin lo, Fin hi) =
     (Fin (Min (insert lo ((\<lambda>v. vdot v axis) ` set vs))),
      Fin (Max (insert hi ((\<lambda>v. vdot v axis) ` set vs))))"
proof (induction vs arbitrary: lo hi)
  case Nil
  show ?case by simp
next
  case (Cons v vs)
  have a: "Min (insert (if vdot v axis < lo then vdot v axis else lo) ((\<lambda>v. vdot v axis) ` set vs)) =
           Min (insert lo (insert (vdot v axis) ((\<lambda>v. vdot v axis) ` set vs)))"
    by (rule Min_insert_pick) simp
  have b: "Max (insert (if hi < vdot v axis then vdot v axis else hi) ((\<lambda>v. vdot v axis) ` set vs)) =
           Max (insert hi (insert (vdot v axis) ((\<lambda>v. vdot v axis) ` set vs)))"
    by (rule Max_insert_pick) simp
  have c: "(if vdot v axis < lo then Fin (vdot v axis) else Fin lo) = Fin (if vdot v axis < lo then vdot v axis else lo)"
    "(if hi < vdot v axis then Fin (vdot v axis) else Fin hi) = Fin (if hi < vdot v axis then vdot v axis else hi)"
    by simp_all
  show ?case
    by (simp only: projectLoop.simps Let_def num_less.simps c Cons.IH a b list.set image_insert)
qed

lemma projectVertices_finite:
  assumes "vs \<noteq> []"
  shows "projectVertices vs axis = (Fin (projMin vs axis), Fin (projMax vs axis))"
proof -
  from assms obtain v ws where vs: "vs = v # ws" by (cases vs) auto
  show ?thesis
    by (simp add: projectVertices_def vs Let_def projectLoop_Fin projMin_def projMax_def)
qed

lemma testAxis_finite:
  assumes "va \<noteq> []" and "vb \<noteq> []"
  shows "testAxis axis (projectVertices va axis) (projectVertices vb axis) (n0, d0) =
           (if separatedOn va vb axis then None
            else if num_less (Fin (overlapOn va vb axis)) d0
                 then Some (axis, Fin (overlapOn va vb axis))
                 else Some (n0, d0))"
proof -
  have m: "num_min (Fin x) (Fin y) = Fin (min x y)" for x y
    by (auto simp add: min_def)
  show ?thesis
    by (simp add: testAxis_def projectVertices_finite[OF assms(1)] projectVertices_finite[OF assms(2)]
        separatedOn_def overlapOn_def m Let_def)
qed

lemma axesLoop_separated:
  assumes "va \<noteq> []" and "vb \<noteq> []"
  shows "(axesLoop P (projectVertices va) (projectVertices vb) is acc = None) =
         (\<exists>i\<in>set is. separatedOn va vb (edgeAxis P i))"
proof (induction "is" arbitrary: acc)
  case Nil
  show ?case by simp
next
  case (Cons i "is")
  obtain n0 d0 where acc: "acc = (n0, d0)" by (cases acc)
  show ?case
    by (simp add: acc Let_def testAxis_finite[OF assms] Cons.IH)
qed

lemma axesLoop_least:
  assumes "va \<noteq> []" and "vb \<noteq> []"
    and "axesLoop P (projectVertices va) (projectVertices vb) is (n0, Fin r) = Some (n1, d1)"
  shows "d1 = Fin (Min (insert r (overlapOn va vb ` edgeAxis P ` set is))) \<and>
         ((n1 = n0 \<and> d1 = Fin r) \<or>
          (\<exists>i\<in>set is. n1 = edgeAxis P i \<and> d1 = Fin (overlapOn va vb (edgeAxis P i))))"
  using assms(3)
proof (induction "is" arbitrary: n0 r)
  case Nil
  then show ?case by simp
next
  case (Cons i "is")
  let ?ov = "overlapOn va vb (edgeAxis P i)"
  let ?S = "overlapOn va vb ` edgeAxis P ` set is"
  from Cons.prems have ns: "\<not> separatedOn va vb (edgeAxis P i)"
    by (simp add: Let_def testAxis_finite[OF assms(1,2)] split: if_splits)
  show ?case
  proof (cases "?ov < r")
    case True
    with Cons.prems ns have
      "axesLoop P (projectVertices va) (projectVertices vb) is (edgeAxis P i, Fin ?ov) = Some (n1, d1)"
      by (simp add: Let_def testAxis_finite[OF assms(1,2)])
    from Cons.IH[OF this] have d: "d1 = Fin (Min (insert ?ov ?S))"
      and n: "(n1 = edgeAxis P i \<and> d1 = Fin ?ov) \<or>
              (\<exists>j\<in>set is. n1 = edgeAxis P j \<and> d1 = Fin (overlapOn va vb (edgeAxis P j)))"
      by blast+
    have e: "Min (insert ?ov ?S) = Min (insert r (insert ?ov ?S))"
      using Min_insert_pick[of ?S ?ov r] True by (simp only: if_True finite_imageI finite_set)
    have g1: "d1 = Fin (Min (insert r (overlapOn va vb ` edgeAxis P ` set (i # is))))"
      unfolding d e by (simp only: list.set image_insert)
    have g2: "(n1 = n0 \<and> d1 = Fin r) \<or>
              (\<exists>j\<in>set (i # is). n1 = edgeAxis P j \<and> d1 = Fin (overlapOn va vb (edgeAxis P j)))"
      using n by (simp only: list.set) blast
    from g1 g2 show ?thesis ..
  next
    case False
    with Cons.prems ns have
      "axesLoop P (projectVertices va) (projectVertices vb) is (n0, Fin r) = Some (n1, d1)"
      by (simp add: Let_def testAxis_finite[OF assms(1,2)])
    from Cons.IH[OF this] have d: "d1 = Fin (Min (insert r ?S))"
      and n: "(n1 = n0 \<and> d1 = Fin r) \<or>
              (\<exists>j\<in>set is. n1 = edgeAxis P j \<and> d1 = Fin (overlapOn va vb (edgeAxis P j)))"
      by blast+
    have e: "Min (insert r ?S) = Min (insert r (insert ?ov ?S))"
      using Min_insert_pick[of ?S ?ov r] False by (simp only: if_False finite_imageI finite_set)
    have g1: "d1 = Fin (Min (insert r (overlapOn va vb ` edgeAxis P ` set (i # is))))"
      unfolding d e by (simp only: list.set image_insert)
    have g2: "(n1 = n0 \<and> d1 = Fin r) \<or>
              (\<exists>j\<in>set (i # is). n1 = edgeAxis P j \<and> d1 = Fin (overlapOn va vb (edgeAxis P j)))"
      using n by (simp only: list.set) blast
    from g1 g2 show ?thesis ..
  qed
qed

lemma axesLoop_first:
  assumes "va \<noteq> []" and "vb \<noteq> []" and "is \<noteq> []"
    and "axesLoop P (projectVertices va) (projectVertices vb) is (n0, PInf) = Some (n1, d1)"
  shows "d1 = Fin (Min (overlapOn va vb ` edgeAxis P ` set is)) \<and>
         (\<exists>i\<in>set is. n1 = edgeAxis P i \<and> d1 = Fin (overlapOn va vb (edgeAxis P i)))"
proof -
  from assms(3) obtain i js where i: "is = i # js" by (cases "is") auto
  from assms(4) have ns: "\<not> separatedOn va vb (edgeAxis P i)"
    by (simp add: i Let_def testAxis_finite[OF assms(1,2)] split: if_splits)
  with assms(4) have
    "axesLoop P (projectVertices va) (projectVertices vb) js
       (edgeAxis P i, Fin (overlapOn va vb (edgeAxis P i))) = Some (n1, d1)"
    by (simp add: i Let_def testAxis_finite[OF assms(1,2)])
  from axesLoop_least[OF assms(1,2) this]
  have d: "d1 = Fin (Min (insert (overlapOn va vb (edgeAxis P i)) (overlapOn va vb ` edgeAxis P ` set js)))"
    and n: "(n1 = edgeAxis P i \<and> d1 = Fin (overlapOn va vb (edgeAxis P i))) \<or>
            (\<exists>j\<in>set js. n1 = edgeAxis P j \<and> d1 = Fin (overlapOn va vb (edgeAxis P j)))"
    by blast+
  have g1: "d1 = Fin (Min (overlapOn va vb ` edgeAxis P ` set is))"
    unfolding d i by (simp only: list.set image_insert)
  have g2: "\<exists>j\<in>set is. n1 = edgeAxis P j \<and> d1 = Fin (overlapOn va vb (edgeAxis P j))"
    unfolding i using n by (simp only: list.set) blast
  from g1 g2 show ?thesis ..
qed

lemma orient_nonneg: "0 \<le> vdot d (orient d n)"
  by (simp add: orient_def vdot_def vmul_def)

lemma set_edgeAxes: "set (edgeAxes P) = edgeAxis P ` set [0..<length P]"
  by (simp add: edgeAxes_def)

lemma Min_insert_Min:
  assumes "finite A" and "A \<noteq> {}" and "finite B" and "B \<noteq> {}"
  shows "Min (insert (Min A) B) = Min (A \<union> (B::real set))"
proof -
  have "Min (insert (Min A) B) = min (Min A) (Min B)" using assms(3,4) by (rule Min_insert)
  also have "\<dots> = Min (A \<union> B)" using assms by (rule Min_Un[symmetric])
  finally show ?thesis .
qed

text \<open>
  The detection in terms of the axes that it computes, for two bodies with cached
  vertex lists that are not empty: no manifold is returned exactly when the
  projections do not overlap on one of the computed axes; a manifold that is returned
  has as its depth the least overlap over the computed axes and as its normal a
  computed axis of that overlap, turned towards the second body.
\<close>

lemma polygonVsPolygon_axes:
  assumes "vertices (os ! a) = Some va" and "vertices (os ! b) = Some vb"
    and "va \<noteq> []" and "vb \<noteq> []"
  shows "let axes = edgeAxes va @ edgeAxes vb;
             direction = vsub (pos (os ! b)) (pos (os ! a))
         in case polygonVsPolygon os a b of
              Inl e \<Rightarrow> False
            | Inr None \<Rightarrow> (\<exists>axis\<in>set axes. separatedOn va vb axis)
            | Inr (Some m) \<Rightarrow>
                \<not> (\<exists>axis\<in>set axes. separatedOn va vb axis) \<and>
                hasCollision m \<and> m_bodyA m = a \<and> m_bodyB m = b \<and>
                depth m = Min (overlapOn va vb ` set axes) \<and>
                (\<exists>axis\<in>set axes. overlapOn va vb axis = depth m \<and>
                                   normal m = orient direction axis) \<and>
                0 \<le> vdot direction (normal m)"
proof -
  let ?pa = "projectVertices va" and ?pb = "projectVertices vb"
  let ?SA = "overlapOn va vb ` edgeAxis va ` set [0..<length va]"
  let ?SB = "overlapOn va vb ` edgeAxis vb ` set [0..<length vb]"
  let ?dir = "vsub (pos (os ! b)) (pos (os ! a))"
  have ia: "[0..<length va] \<noteq> []" and ib: "[0..<length vb] \<noteq> []" using assms(3,4) by simp_all
  have ax: "set (edgeAxes va @ edgeAxes vb) =
            edgeAxis va ` set [0..<length va] \<union> edgeAxis vb ` set [0..<length vb]"
    by (simp only: set_append set_edgeAxes)
  have sepA: "(axesLoop va ?pa ?pb [0..<length va] acc = None) =
              (\<exists>i\<in>set [0..<length va]. separatedOn va vb (edgeAxis va i))" for acc
    by (rule axesLoop_separated[OF assms(3,4)])
  have sepB: "(axesLoop vb ?pa ?pb [0..<length vb] acc = None) =
              (\<exists>i\<in>set [0..<length vb]. separatedOn va vb (edgeAxis vb i))" for acc
    by (rule axesLoop_separated[OF assms(3,4)])
  show ?thesis
  proof (cases "axesLoop va ?pa ?pb [0..<length va] (\<lparr>xv = 0, yv = 0\<rparr>, PInf)")
    case None
    then have r: "polygonVsPolygon os a b = Inr None"
      by (simp add: polygonVsPolygon_def assms(1,2))
    from None have "\<exists>i\<in>set [0..<length va]. separatedOn va vb (edgeAxis va i)"
      by (simp only: sepA)
    then have "\<exists>axis\<in>set (edgeAxes va @ edgeAxes vb). separatedOn va vb axis"
      unfolding ax by blast
    then show ?thesis unfolding Let_def r by simp
  next
    case (Some acc1)
    obtain nA dA where acc1: "acc1 = (nA, dA)" by (cases acc1)
    note first = Some[unfolded acc1]
    from axesLoop_first[OF assms(3,4) ia first]
    have dA: "dA = Fin (Min ?SA)"
      and nA: "\<exists>i\<in>set [0..<length va]. nA = edgeAxis va i \<and> dA = Fin (overlapOn va vb (edgeAxis va i))"
      by blast+
    from first have nsA: "\<not> (\<exists>i\<in>set [0..<length va]. separatedOn va vb (edgeAxis va i))"
      using sepA[of "(\<lparr>xv = 0, yv = 0\<rparr>, PInf)"] by simp
    show ?thesis
    proof (cases "axesLoop vb ?pa ?pb [0..<length vb] (nA, Fin (Min ?SA))")
      case None
      then have r: "polygonVsPolygon os a b = Inr None"
        using first by (simp add: polygonVsPolygon_def assms(1,2) dA)
      from None have "\<exists>i\<in>set [0..<length vb]. separatedOn va vb (edgeAxis vb i)"
        by (simp only: sepB)
      then have "\<exists>axis\<in>set (edgeAxes va @ edgeAxes vb). separatedOn va vb axis"
        unfolding ax by blast
      then show ?thesis unfolding Let_def r by simp
    next
      case (Some acc2)
      obtain n1 d1 where acc2: "acc2 = (n1, d1)" by (cases acc2)
      note second = Some[unfolded acc2]
      from axesLoop_least[OF assms(3,4) second]
      have d1: "d1 = Fin (Min (insert (Min ?SA) ?SB))"
        and n1: "(n1 = nA \<and> d1 = Fin (Min ?SA)) \<or>
                 (\<exists>i\<in>set [0..<length vb]. n1 = edgeAxis vb i \<and> d1 = Fin (overlapOn va vb (edgeAxis vb i)))"
        by blast+
      from second have nsB: "\<not> (\<exists>i\<in>set [0..<length vb]. separatedOn va vb (edgeAxis vb i))"
        using sepB[of "(nA, Fin (Min ?SA))"] by simp
      have fin: "finite ?SA" "finite ?SB" by simp_all
      have ne: "?SA \<noteq> {}" "?SB \<noteq> {}" using ia ib by simp_all
      have mn: "Min (insert (Min ?SA) ?SB) = Min (overlapOn va vb ` set (edgeAxes va @ edgeAxes vb))"
        unfolding ax image_Un by (rule Min_insert_Min[OF fin(1) ne(1) fin(2) ne(2)])
      let ?m = "\<lparr>m_bodyA = a, m_bodyB = b, normal = orient ?dir n1,
                 depth = Min (overlapOn va vb ` set (edgeAxes va @ edgeAxes vb)), hasCollision = True\<rparr>"
      have r: "polygonVsPolygon os a b = Inr (Some ?m)"
        by (simp only: polygonVsPolygon_def assms(1,2) first[unfolded dA] second[unfolded d1]
            option.case prod.case num.case Let_def mn)
      have ns: "\<not> (\<exists>axis\<in>set (edgeAxes va @ edgeAxes vb). separatedOn va vb axis)"
        unfolding ax using nsA nsB by blast
      have w: "\<exists>axis\<in>set (edgeAxes va @ edgeAxes vb).
                 overlapOn va vb axis = Min (overlapOn va vb ` set (edgeAxes va @ edgeAxes vb)) \<and>
                 orient ?dir n1 = orient ?dir axis"
      proof -
        from n1 show ?thesis
        proof
          assume h: "n1 = nA \<and> d1 = Fin (Min ?SA)"
          from nA obtain i where i: "i \<in> set [0..<length va]" "nA = edgeAxis va i"
            "dA = Fin (overlapOn va vb (edgeAxis va i))" by blast
          from h d1 mn have "Min ?SA = Min (overlapOn va vb ` set (edgeAxes va @ edgeAxes vb))" by simp
          moreover from i(3) dA have "overlapOn va vb (edgeAxis va i) = Min ?SA" by simp
          moreover have "edgeAxis va i \<in> set (edgeAxes va @ edgeAxes vb)" unfolding ax using i(1) by blast
          ultimately show ?thesis using h i(2) by metis
        next
          assume "\<exists>i\<in>set [0..<length vb]. n1 = edgeAxis vb i \<and> d1 = Fin (overlapOn va vb (edgeAxis vb i))"
          then obtain i where i: "i \<in> set [0..<length vb]" "n1 = edgeAxis vb i"
            "d1 = Fin (overlapOn va vb (edgeAxis vb i))" by blast
          from i(3) d1 mn have "overlapOn va vb (edgeAxis vb i) = Min (overlapOn va vb ` set (edgeAxes va @ edgeAxes vb))"
            by simp
          moreover have "edgeAxis vb i \<in> set (edgeAxes va @ edgeAxes vb)" unfolding ax using i(1) by blast
          ultimately show ?thesis using i(2) by metis
        qed
      qed
      show ?thesis unfolding Let_def r using ns w orient_nonneg[of ?dir n1]
        by (simp only: sum.case option.case Manifold.simps simp_thms)
    qed
  qed
qed

lemma newObject_box:
  "vertices (newObject Box c i) =
     (let p = \<lparr>xv = or_default (cfg_x c) 0, yv = or_default (cfg_y c) 0\<rparr>;
          hw = or_default (cfg_width c) 1 / 2; hh = or_default (cfg_height c) 1 / 2;
          an = or_default (cfg_angle c) 0
      in Some (map (\<lambda>q. vadd p (vrotate q an))
                 [\<lparr>xv = - hw, yv = - hh\<rparr>, \<lparr>xv = hw, yv = - hh\<rparr>,
                  \<lparr>xv = hw, yv = hh\<rparr>, \<lparr>xv = - hw, yv = hh\<rparr>]))"
  by (simp add: newObject_def updateGeometry_def Let_def)

lemma twoBox_vertices:
  "vertices (objects twoBoxEngine ! 0) = Some squareA"
  "vertices (objects twoBoxEngine ! 1) = Some squareB"
  by (simp_all add: twoBoxEngine_def objects_addBody exampleEngine_def PhysicsEngine_new_def
      newObject_box boxAt_def emptyConfig_def or_default_def Let_def vadd_def vrotate_def
      squareA_def squareB_def)

lemma twoBox_pos:
  "pos (objects twoBoxEngine ! 0) = \<lparr>xv = 0, yv = 0\<rparr>"
  "pos (objects twoBoxEngine ! 1) = \<lparr>xv = 1/2, yv = 0\<rparr>"
  by (simp_all add: twoBoxEngine_def objects_addBody exampleEngine_def PhysicsEngine_new_def
      pos_newObject boxAt_def emptyConfig_def or_default_def)

lemma upt_4: "[0..<4] = [0, 1, 2, 3]"
  by (simp add: upt_rec)

lemma squares_loopA:
  "axesLoop squareA (projectVertices squareA) (projectVertices squareB) [0, 1, 2, 3]
     (\<lparr>xv = 0, yv = 0\<rparr>, PInf) = Some (\<lparr>xv = -1, yv = 0\<rparr>, Fin (1/2))"
  by (simp add: edgeAxis_def squareA_def squareB_def Let_def vsub_def vperp_def vnormalize_def
      testAxis_def projectVertices_def vdot_def)

lemma squares_loopB:
  "axesLoop squareB (projectVertices squareA) (projectVertices squareB) [0, 1, 2, 3]
     (\<lparr>xv = -1, yv = 0\<rparr>, Fin (1/2)) = Some (\<lparr>xv = -1, yv = 0\<rparr>, Fin (1/2))"
  by (simp add: edgeAxis_def squareA_def squareB_def Let_def vsub_def vperp_def vnormalize_def
      testAxis_def projectVertices_def vdot_def)

lemma squares_length: "length squareA = 4" "length squareB = 4"
  by (simp_all add: squareA_def squareB_def)

lemma twoBox_detect:
  "polygonVsPolygon (objects twoBoxEngine) 0 1 =
     Inr (Some \<lparr>m_bodyA = 0, m_bodyB = 1, normal = \<lparr>xv = 1, yv = 0\<rparr>, depth = 1/2,
                 hasCollision = True\<rparr>)"
proof -
  have o: "orient (vsub \<lparr>xv = 1/2, yv = 0\<rparr> \<lparr>xv = 0, yv = 0\<rparr>) \<lparr>xv = -1, yv = 0\<rparr> =
           \<lparr>xv = 1, yv = 0\<rparr>"
    by (simp add: orient_def vdot_def vsub_def vmul_def)
  show ?thesis
    by (simp only: polygonVsPolygon_def twoBox_vertices twoBox_pos option.case prod.case
        squares_length upt_4 squares_loopA squares_loopB Let_def num.case o)
qed

lemma unit_sq:
  fixes l :: real
  assumes "l \<noteq> 0" and "l * l = y * y + x * x"
  shows "(- y / l) * (- y / l) + (x / l) * (x / l) = 1"
proof -
  have "(- y / l) * (- y / l) + (x / l) * (x / l) = (y * y + x * x) / (l * l)"
    by (simp add: add_divide_distrib)
  also have "\<dots> = (l * l) / (l * l)" by (simp only: assms(2))
  also have "\<dots> = 1" using assms(1) by simp
  finally show ?thesis .
qed

lemma edge_length_pos:
  assumes "e \<noteq> \<lparr>xv = 0, yv = 0\<rparr>"
  shows "0 < yv e * yv e + xv e * xv e"
proof -
  from assms have "xv e \<noteq> 0 \<or> yv e \<noteq> 0" by (cases e) auto
  then show ?thesis using sum_squares_gt_zero_iff[of "yv e" "xv e"] by blast
qed

lemma vnormalize_vperp_eq:
  assumes "e \<noteq> \<lparr>xv = 0, yv = 0\<rparr>"
  shows "vnormalize (vperp e) =
           \<lparr>xv = - yv e / sqrt (yv e * yv e + xv e * xv e), yv = xv e / sqrt (yv e * yv e + xv e * xv e)\<rparr>"
proof -
  from assms have "yv e = 0 \<longrightarrow> xv e \<noteq> 0" by (cases e) auto
  then show ?thesis by (simp add: vnormalize_def vperp_def Let_def)
qed

lemma edge_length_sqrt:
  assumes "e \<noteq> \<lparr>xv = 0, yv = 0\<rparr>"
  shows "sqrt (yv e * yv e + xv e * xv e) \<noteq> 0"
    and "sqrt (yv e * yv e + xv e * xv e) * sqrt (yv e * yv e + xv e * xv e) = yv e * yv e + xv e * xv e"
    and "yv e * yv e + xv e * xv e \<noteq> 0"
proof -
  note q = edge_length_pos[OF assms]
  from real_sqrt_gt_zero[OF q] show "sqrt (yv e * yv e + xv e * xv e) \<noteq> 0" by linarith
  from q have "0 \<le> yv e * yv e + xv e * xv e" by linarith
  then show "sqrt (yv e * yv e + xv e * xv e) * sqrt (yv e * yv e + xv e * xv e) = yv e * yv e + xv e * xv e"
    by (rule real_sqrt_mult_self[simplified] | simp)
  from q show "yv e * yv e + xv e * xv e \<noteq> 0" by linarith
qed

lemma vnormalize_vperp:
  assumes "e \<noteq> \<lparr>xv = 0, yv = 0\<rparr>"
  shows "vdot (vnormalize (vperp e)) e = 0" and "vlen (vnormalize (vperp e)) = 1"
proof -
  let ?q = "yv e * yv e + xv e * xv e"
  let ?l = "sqrt ?q"
  note l = edge_length_sqrt(1)[OF assms] and ll = edge_length_sqrt(2)[OF assms]
  note n = vnormalize_vperp_eq[OF assms]
  show "vdot (vnormalize (vperp e)) e = 0" unfolding n by (simp add: vdot_def)
  show "vlen (vnormalize (vperp e)) = 1"
    by (simp only: n vlen_def Vector2.simps unit_sq[OF l ll] real_sqrt_one)
qed

lemma unit_perp_cases:
  assumes "e \<noteq> \<lparr>xv = 0, yv = 0\<rparr>" and "vdot a e = 0" and "vlen a = 1"
  shows "a = vnormalize (vperp e) \<or> a = vmul (vnormalize (vperp e)) (-1)"
proof -
  let ?q = "yv e * yv e + xv e * xv e"
  let ?l = "sqrt ?q"
  note l = edge_length_sqrt(1)[OF assms(1)] and ll = edge_length_sqrt(2)[OF assms(1)]
    and qn = edge_length_sqrt(3)[OF assms(1)]
  note n = vnormalize_vperp_eq[OF assms(1)]
  have d: "xv a * xv e + yv a * yv e = 0" using assms(2) by (simp add: vdot_def)
  have "sqrt (xv a * xv a + yv a * yv a) = 1" using assms(3) by (simp add: vlen_def)
  then have u: "xv a * xv a + yv a * yv a = 1" by (simp add: real_sqrt_eq_1_iff)
  define t where "t = (yv a * xv e - xv a * yv e) / ?l"
  have x: "(yv a * xv e - xv a * yv e) * (- yv e) = xv a * ?q"
  proof -
    have "(yv a * xv e - xv a * yv e) * (- yv e) = xv a * (yv e * yv e) - (yv a * yv e) * xv e"
      by (simp add: algebra_simps)
    also have "yv a * yv e = - (xv a * xv e)" using d by linarith
    finally show ?thesis by (simp add: algebra_simps)
  qed
  have y: "(yv a * xv e - xv a * yv e) * xv e = yv a * ?q"
  proof -
    have "(yv a * xv e - xv a * yv e) * xv e = yv a * (xv e * xv e) - (xv a * xv e) * yv e"
      by (simp add: algebra_simps)
    also have "xv a * xv e = - (yv a * yv e)" using d by linarith
    finally show ?thesis by (simp add: algebra_simps)
  qed
  have ax: "xv a = t * (- yv e / ?l)"
  proof -
    have "t * (- yv e / ?l) = ((yv a * xv e - xv a * yv e) * (- yv e)) / (?l * ?l)"
      unfolding t_def by (rule times_divide_times_eq)
    also have "\<dots> = xv a * ?q / ?q" by (simp only: ll x)
    also have "\<dots> = xv a" by (rule nonzero_mult_div_cancel_right[OF qn])
    finally show ?thesis by (rule sym)
  qed
  have ay: "yv a = t * (xv e / ?l)"
  proof -
    have "t * (xv e / ?l) = ((yv a * xv e - xv a * yv e) * xv e) / (?l * ?l)"
      unfolding t_def by (rule times_divide_times_eq)
    also have "\<dots> = yv a * ?q / ?q" by (simp only: ll y)
    also have "\<dots> = yv a" by (rule nonzero_mult_div_cancel_right[OF qn])
    finally show ?thesis by (rule sym)
  qed
  define cx cy where "cx = - yv e / ?l" and "cy = xv e / ?l"
  have c: "cx * cx + cy * cy = 1" unfolding cx_def cy_def by (rule unit_sq[OF l ll])
  have "(t * cx) * (t * cx) + (t * cy) * (t * cy) = 1"
    using u ax ay unfolding cx_def cy_def by simp
  then have "t * t * (cx * cx + cy * cy) = 1" by (simp add: algebra_simps)
  then have "t * t = 1" by (simp only: c mult_1_right)
  then have "t = 1 \<or> t = -1" using square_eq_1_iff[of t] by simp
  then show ?thesis
  proof
    assume "t = 1"
    with ax ay have "a = \<lparr>xv = - yv e / ?l, yv = xv e / ?l\<rparr>" by (cases a) simp
    then show ?thesis unfolding n by simp
  next
    assume "t = -1"
    with ax ay have "a = vmul \<lparr>xv = - yv e / ?l, yv = xv e / ?l\<rparr> (-1)" by (cases a) (simp add: vmul_def)
    then show ?thesis unfolding n by simp
  qed
qed

lemma vdot_neg: "vdot v (vmul a (-1)) = - vdot v a"
  by (simp add: vdot_def vmul_def)

lemma vmul_neg_neg: "vmul (vmul a (-1)) (-1) = a"
  by (simp add: vmul_def)

lemma vlen_neg: "vlen (vmul a (-1)) = vlen a"
  by (simp add: vlen_def vmul_def)

lemma vdot_neg_left: "vdot (vmul a (-1)) e = - vdot a e"
  by (simp add: vdot_def vmul_def)

lemma proj_neg:
  assumes "vs \<noteq> []"
  shows "projMin vs (vmul a (-1)) = - projMax vs a" and "projMax vs (vmul a (-1)) = - projMin vs a"
proof -
  let ?S = "(\<lambda>v. vdot v a) ` set vs"
  have f: "finite ?S" and n: "?S \<noteq> {}" using assms by simp_all
  have i: "(\<lambda>v. vdot v (vmul a (-1))) ` set vs = uminus ` ?S"
    by (simp only: vdot_neg image_image)
  show "projMin vs (vmul a (-1)) = - projMax vs a"
    unfolding projMin_def projMax_def i by (rule minus_Max_eq_Min[OF f n, symmetric])
  show "projMax vs (vmul a (-1)) = - projMin vs a"
    unfolding projMin_def projMax_def i by (rule minus_Min_eq_Max[OF f n, symmetric])
qed

lemma separatedOn_neg:
  "va \<noteq> [] \<Longrightarrow> vb \<noteq> [] \<Longrightarrow> separatedOn va vb (vmul a (-1)) = separatedOn va vb a"
  unfolding separatedOn_def by (simp add: proj_neg) blast

lemma overlapOn_neg:
  "va \<noteq> [] \<Longrightarrow> vb \<noteq> [] \<Longrightarrow> overlapOn va vb (vmul a (-1)) = overlapOn va vb a"
  unfolding overlapOn_def by (simp add: proj_neg min_def)

lemma orient_cases: "orient d n = n \<or> orient d n = vmul n (-1)"
  by (simp add: orient_def)

lemma polygonEdges_nth:
  "i < length P \<Longrightarrow> polygonEdges P ! i = vsub (P ! ((i + 1) mod length P)) (P ! i)"
  by (simp add: polygonEdges_def)

lemma edgeAxis_edge:
  "i < length P \<Longrightarrow> edgeAxis P i = vnormalize (vperp (polygonEdges P ! i))"
  by (simp add: edgeAxis_def Let_def polygonEdges_nth)

lemma length_polygonEdges [simp]: "length (polygonEdges P) = length P"
  by (simp add: polygonEdges_def)

text \<open>
  When no edge is the zero vector, the unit vectors perpendicular to the edges of a
  polygon are the axes that the detection computes for it and their opposites.
\<close>

lemma unit_perp_edgeAxes:
  assumes "\<lparr>xv = 0, yv = 0\<rparr> \<notin> set (polygonEdges P)"
  shows "(\<exists>e\<in>set (polygonEdges P). vdot axis e = 0 \<and> vlen axis = 1) =
         (\<exists>c\<in>set (edgeAxes P). axis = c \<or> axis = vmul c (-1))"
proof
  assume "\<exists>e\<in>set (polygonEdges P). vdot axis e = 0 \<and> vlen axis = 1"
  then obtain e where e: "e \<in> set (polygonEdges P)" "vdot axis e = 0" "vlen axis = 1" by blast
  from e(1) obtain i where i: "i < length P" "e = polygonEdges P ! i"
    by (auto simp: in_set_conv_nth)
  from e(1) assms have z: "e \<noteq> \<lparr>xv = 0, yv = 0\<rparr>" by blast
  from unit_perp_cases[OF z e(2,3)]
  have "axis = edgeAxis P i \<or> axis = vmul (edgeAxis P i) (-1)"
    unfolding edgeAxis_edge[OF i(1)] i(2) .
  moreover have "edgeAxis P i \<in> set (edgeAxes P)" using i(1) by (simp add: edgeAxes_def)
  ultimately show "\<exists>c\<in>set (edgeAxes P). axis = c \<or> axis = vmul c (-1)" by blast
next
  assume "\<exists>c\<in>set (edgeAxes P). axis = c \<or> axis = vmul c (-1)"
  then obtain i where i: "i < length P" "axis = edgeAxis P i \<or> axis = vmul (edgeAxis P i) (-1)"
    by (auto simp: edgeAxes_def)
  let ?e = "polygonEdges P ! i"
  have m: "?e \<in> set (polygonEdges P)" using i(1) by simp
  with assms have z: "?e \<noteq> \<lparr>xv = 0, yv = 0\<rparr>" by metis
  note p = vnormalize_vperp[OF z, folded edgeAxis_edge[OF i(1)]]
  from i(2) have "vdot axis ?e = 0 \<and> vlen axis = 1"
  proof
    assume "axis = edgeAxis P i"
    with p show ?thesis by simp
  next
    assume "axis = vmul (edgeAxis P i) (-1)"
    with p show ?thesis by (simp add: vdot_neg_left vlen_neg)
  qed
  with m show "\<exists>e\<in>set (polygonEdges P). vdot axis e = 0 \<and> vlen axis = 1" by blast
qed

lemma isEdgeAxis_edgeAxes:
  assumes "\<lparr>xv = 0, yv = 0\<rparr> \<notin> set (polygonEdges va @ polygonEdges vb)"
  shows "isEdgeAxis va vb axis =
         (\<exists>c\<in>set (edgeAxes va @ edgeAxes vb). axis = c \<or> axis = vmul c (-1))"
proof -
  from assms have a: "\<lparr>xv = 0, yv = 0\<rparr> \<notin> set (polygonEdges va)"
    and b: "\<lparr>xv = 0, yv = 0\<rparr> \<notin> set (polygonEdges vb)" by simp_all
  have "isEdgeAxis va vb axis =
        ((\<exists>e\<in>set (polygonEdges va). vdot axis e = 0 \<and> vlen axis = 1) \<or>
         (\<exists>e\<in>set (polygonEdges vb). vdot axis e = 0 \<and> vlen axis = 1))"
    unfolding isEdgeAxis_def set_append by blast
  also have "\<dots> = ((\<exists>c\<in>set (edgeAxes va). axis = c \<or> axis = vmul c (-1)) \<or>
                   (\<exists>c\<in>set (edgeAxes vb). axis = c \<or> axis = vmul c (-1)))"
    by (simp only: unit_perp_edgeAxes[OF a] unit_perp_edgeAxes[OF b])
  also have "\<dots> = (\<exists>c\<in>set (edgeAxes va @ edgeAxes vb). axis = c \<or> axis = vmul c (-1))"
    unfolding set_append by blast
  finally show ?thesis .
qed

lemma separated_edgeAxes:
  assumes "va \<noteq> []" and "vb \<noteq> []"
    and "\<lparr>xv = 0, yv = 0\<rparr> \<notin> set (polygonEdges va @ polygonEdges vb)"
  shows "(\<exists>axis. isEdgeAxis va vb axis \<and> separatedOn va vb axis) =
         (\<exists>c\<in>set (edgeAxes va @ edgeAxes vb). separatedOn va vb c)"
proof
  assume "\<exists>axis. isEdgeAxis va vb axis \<and> separatedOn va vb axis"
  then obtain axis where x: "isEdgeAxis va vb axis" "separatedOn va vb axis" by blast
  from x(1) obtain c where c: "c \<in> set (edgeAxes va @ edgeAxes vb)" "axis = c \<or> axis = vmul c (-1)"
    unfolding isEdgeAxis_edgeAxes[OF assms(3)] by blast
  from c(2) x(2) have "separatedOn va vb c"
    using separatedOn_neg[OF assms(1,2), of c] by blast
  with c(1) show "\<exists>c\<in>set (edgeAxes va @ edgeAxes vb). separatedOn va vb c" by blast
next
  assume "\<exists>c\<in>set (edgeAxes va @ edgeAxes vb). separatedOn va vb c"
  then obtain c where c: "c \<in> set (edgeAxes va @ edgeAxes vb)" "separatedOn va vb c" by blast
  from c(1) have "isEdgeAxis va vb c" unfolding isEdgeAxis_edgeAxes[OF assms(3)] by blast
  with c(2) show "\<exists>axis. isEdgeAxis va vb axis \<and> separatedOn va vb axis" by blast
qed

lemma least_overlap_edgeAxes:
  assumes "va \<noteq> []" and "vb \<noteq> []"
    and "\<lparr>xv = 0, yv = 0\<rparr> \<notin> set (polygonEdges va @ polygonEdges vb)"
    and "isEdgeAxis va vb axis"
  shows "Min (overlapOn va vb ` set (edgeAxes va @ edgeAxes vb)) \<le> overlapOn va vb axis"
proof -
  from assms(4) obtain c where c: "c \<in> set (edgeAxes va @ edgeAxes vb)" "axis = c \<or> axis = vmul c (-1)"
    unfolding isEdgeAxis_edgeAxes[OF assms(3)] by blast
  from c(2) have "overlapOn va vb axis = overlapOn va vb c"
    using overlapOn_neg[OF assms(1,2), of c] by blast
  moreover have "Min (overlapOn va vb ` set (edgeAxes va @ edgeAxes vb)) \<le> overlapOn va vb c"
    using c(1) by (intro Min_le) simp_all
  ultimately show ?thesis by simp
qed

lemma oriented_edgeAxis:
  assumes "va \<noteq> []" and "vb \<noteq> []"
    and "\<lparr>xv = 0, yv = 0\<rparr> \<notin> set (polygonEdges va @ polygonEdges vb)"
    and "c \<in> set (edgeAxes va @ edgeAxes vb)"
  shows "isEdgeAxis va vb (orient d c)" and "overlapOn va vb (orient d c) = overlapOn va vb c"
proof -
  show "isEdgeAxis va vb (orient d c)"
    unfolding isEdgeAxis_edgeAxes[OF assms(3)] using assms(4) orient_cases[of d c] by blast
  show "overlapOn va vb (orient d c) = overlapOn va vb c"
    using orient_cases[of d c] overlapOn_neg[OF assms(1,2), of c] by metis
qed

lemma rotation_kernel:
  fixes x y c s :: real
  assumes "c * c + s * s = 1" and "x * c - y * s = 0" and "x * s + y * c = 0"
  shows "x = 0" and "y = 0"
proof -
  have "(x * c - y * s) * c + (x * s + y * c) * s = x * (c * c + s * s)"
    by (simp add: algebra_simps)
  then show "x = 0" using assms by simp
  have "(x * s + y * c) * c - (x * c - y * s) * s = y * (c * c + s * s)"
    by (simp add: algebra_simps)
  then show "y = 0" using assms by simp
qed

lemma vrotate_zero:
  assumes "vrotate v an = \<lparr>xv = 0, yv = 0\<rparr>"
  shows "v = \<lparr>xv = 0, yv = 0\<rparr>"
proof -
  from assms have a: "xv v * cos an - yv v * sin an = 0" and b: "xv v * sin an + yv v * cos an = 0"
    by (simp_all add: vrotate_def Let_def)
  have u: "cos an * cos an + sin an * sin an = 1"
    using sin_cos_squared_add2[of an] by (simp only: power2_eq_square)
  from rotation_kernel[OF u a b] show ?thesis by (cases v) simp
qed

lemma rotated_edge:
  "vsub (vadd p (vrotate q2 an)) (vadd p (vrotate q1 an)) = vrotate (vsub q2 q1) an"
  by (simp add: vsub_def vadd_def vrotate_def Let_def algebra_simps)

text \<open>
  The vertex list that \<^verbatim>\<open>updateGeometry\<close> caches for a box of width and height other
  than 0 has four vertices and no edge that is the zero vector.
\<close>

lemma box_edges:
  assumes "type obj = Box" and "width obj \<noteq> 0" and "height obj \<noteq> 0"
  shows "\<exists>vs. vertices (updateGeometry obj) = Some vs \<and> length vs = 4 \<and>
              \<lparr>xv = 0, yv = 0\<rparr> \<notin> set (polygonEdges vs)"
proof -
  let ?hw = "width obj / 2" and ?hh = "height obj / 2"
  let ?f = "\<lambda>p. vadd (pos obj) (vrotate p (angle obj))"
  let ?vs = "map ?f [\<lparr>xv = - ?hw, yv = - ?hh\<rparr>, \<lparr>xv = ?hw, yv = - ?hh\<rparr>,
                      \<lparr>xv = ?hw, yv = ?hh\<rparr>, \<lparr>xv = - ?hw, yv = ?hh\<rparr>]"
  have v: "vertices (updateGeometry obj) = Some ?vs"
    using assms(1) by (simp add: updateGeometry_def Let_def)
  have e: "polygonEdges ?vs =
             map (\<lambda>q. vrotate q (angle obj))
               [\<lparr>xv = width obj, yv = 0\<rparr>, \<lparr>xv = 0, yv = height obj\<rparr>,
                \<lparr>xv = - width obj, yv = 0\<rparr>, \<lparr>xv = 0, yv = - height obj\<rparr>]"
    by (simp add: polygonEdges_def upt_conv_Cons rotated_edge) (simp add: vsub_def)
  have "\<lparr>xv = 0, yv = 0\<rparr> \<notin> set (polygonEdges ?vs)"
  proof
    assume "\<lparr>xv = 0, yv = 0\<rparr> \<in> set (polygonEdges ?vs)"
    then have "\<lparr>xv = 0, yv = 0\<rparr> \<in> (\<lambda>q. vrotate q (angle obj)) `
                 set [\<lparr>xv = width obj, yv = 0\<rparr>, \<lparr>xv = 0, yv = height obj\<rparr>,
                      \<lparr>xv = - width obj, yv = 0\<rparr>, \<lparr>xv = 0, yv = - height obj\<rparr>]"
      unfolding e by (simp only: set_map)
    then obtain q where q: "q \<in> set [\<lparr>xv = width obj, yv = 0\<rparr>, \<lparr>xv = 0, yv = height obj\<rparr>,
                \<lparr>xv = - width obj, yv = 0\<rparr>, \<lparr>xv = 0, yv = - height obj\<rparr>]"
      "\<lparr>xv = 0, yv = 0\<rparr> = vrotate q (angle obj)" by (rule imageE)
    from vrotate_zero[OF q(2)[symmetric]] have qz: "q = \<lparr>xv = 0, yv = 0\<rparr>" .
    from q(1) have "width obj = 0 \<or> height obj = 0 \<or> width obj = 0 \<or> height obj = 0"
      unfolding qz by simp
    then have "width obj = 0 \<or> height obj = 0" by blast
    with assms(2,3) show False by blast
  qed
  with v show ?thesis by simp
qed

lemma updateGeometry_idem: "updateGeometry (updateGeometry obj) = updateGeometry obj"
  by (simp add: updateGeometry_def Let_def)

lemma newObject_updateGeometry: "updateGeometry (newObject ty c i) = newObject ty c i"
  unfolding newObject_def Let_def by (rule updateGeometry_idem)

lemma newObject_box_size:
  "type (newObject Box c i) = Box" "width (newObject Box c i) \<noteq> 0" "height (newObject Box c i) \<noteq> 0"
  by (simp_all add: newObject_def updateGeometry_def Let_def or_default_nonzero)

text \<open>The box that \<^verbatim>\<open>add\<close> creates has four vertices and no edge that is the zero vector.\<close>

lemma newObject_box_edges:
  "\<exists>vs. vertices (newObject Box c i) = Some vs \<and> length vs = 4 \<and>
        \<lparr>xv = 0, yv = 0\<rparr> \<notin> set (polygonEdges vs)"
  using box_edges[OF newObject_box_size(1)[of c i] newObject_box_size(2)[of c i] newObject_box_size(3)[of c i]]
  unfolding newObject_updateGeometry .

text \<open>
  C3. For two bodies with cached vertex lists that are not empty and have no edge of
  length 0 (as the four vertices of every box, see above), an axis being a unit vector
  perpendicular to an edge of either polygon: the detection returns no manifold
  exactly when the projections of the two vertex sets do not overlap on some such axis
  (touching projections count as not overlapping); and a manifold that is returned
  has the collision flag set, a normal that is such an axis, as its depth the overlap
  of the projections on its normal, which is the least overlap over all such axes,
  and a normal whose dot product with the vector from the first centre to the second
  is not negative. The detection does not fail on such bodies. The axes are described
  by the edges alone, not by the way the detection computes them.
\<close>

theorem polygonVsPolygon_sat:
  assumes "vertices (os ! a) = Some va" and "vertices (os ! b) = Some vb"
    and "va \<noteq> []" and "vb \<noteq> []"
    and "\<lparr>xv = 0, yv = 0\<rparr> \<notin> set (polygonEdges va @ polygonEdges vb)"
  shows "let direction = vsub (pos (os ! b)) (pos (os ! a));
             separated = (\<exists>axis. isEdgeAxis va vb axis \<and> separatedOn va vb axis)
         in case polygonVsPolygon os a b of
              Inl e \<Rightarrow> False
            | Inr None \<Rightarrow> separated
            | Inr (Some m) \<Rightarrow>
                \<not> separated \<and>
                hasCollision m \<and> m_bodyA m = a \<and> m_bodyB m = b \<and>
                isEdgeAxis va vb (normal m) \<and>
                depth m = overlapOn va vb (normal m) \<and>
                (\<forall>axis. isEdgeAxis va vb axis \<longrightarrow> depth m \<le> overlapOn va vb axis) \<and>
                0 \<le> vdot direction (normal m)"
proof -
  let ?axes = "edgeAxes va @ edgeAxes vb"
  let ?dir = "vsub (pos (os ! b)) (pos (os ! a))"
  note old = polygonVsPolygon_axes[OF assms(1-4), unfolded Let_def]
  note sep = separated_edgeAxes[OF assms(3-5)]
  show ?thesis
  proof (cases "polygonVsPolygon os a b")
    case (Inl e)
    with old show ?thesis by simp
  next
    case (Inr r)
    show ?thesis
    proof (cases r)
      case None
      from old have "\<exists>c\<in>set ?axes. separatedOn va vb c" unfolding Inr None by simp
      then have "\<exists>axis. isEdgeAxis va vb axis \<and> separatedOn va vb axis" by (simp only: sep)
      then show ?thesis unfolding Let_def Inr None by simp
    next
      case (Some m)
      note all = old[unfolded Inr Some sum.case option.case]
      from all have o: "\<not> (\<exists>c\<in>set ?axes. separatedOn va vb c)" "hasCollision m" "m_bodyA m = a"
        "m_bodyB m = b" "depth m = Min (overlapOn va vb ` set ?axes)"
        "\<exists>c\<in>set ?axes. overlapOn va vb c = depth m \<and> normal m = orient ?dir c"
        "0 \<le> vdot ?dir (normal m)"
        by blast+
      from o(6) obtain c where c: "c \<in> set ?axes" "overlapOn va vb c = depth m"
        "normal m = orient ?dir c" by blast
      have n: "isEdgeAxis va vb (normal m)" unfolding c(3) by (rule oriented_edgeAxis(1)[OF assms(3-5) c(1)])
      have d: "depth m = overlapOn va vb (normal m)"
        unfolding c(3) oriented_edgeAxis(2)[OF assms(3-5) c(1)] by (rule c(2)[symmetric])
      have l: "\<forall>axis. isEdgeAxis va vb axis \<longrightarrow> depth m \<le> overlapOn va vb axis"
        unfolding o(5) using least_overlap_edgeAxes[OF assms(3-5)] by blast
      have s: "\<not> (\<exists>axis. isEdgeAxis va vb axis \<and> separatedOn va vb axis)"
        unfolding sep by (rule o(1))
      show ?thesis unfolding Let_def Inr Some using s o(2,3,4,7) n d l
        by (simp only: sum.case option.case simp_thms)
    qed
  qed
qed

lemma squares_edges:
  "polygonEdges squareA = [\<lparr>xv = 1, yv = 0\<rparr>, \<lparr>xv = 0, yv = 1\<rparr>, \<lparr>xv = -1, yv = 0\<rparr>, \<lparr>xv = 0, yv = -1\<rparr>]"
  "polygonEdges squareB = [\<lparr>xv = 1, yv = 0\<rparr>, \<lparr>xv = 0, yv = 1\<rparr>, \<lparr>xv = -1, yv = 0\<rparr>, \<lparr>xv = 0, yv = -1\<rparr>]"
  by (simp_all add: polygonEdges_def squareA_def squareB_def upt_conv_Cons vsub_def)

theorem polygonVsPolygon_sat_witness:
  "vertices (objects twoBoxEngine ! 0) = Some squareA \<and>
   vertices (objects twoBoxEngine ! 1) = Some squareB \<and>
   squareA \<noteq> [] \<and> squareB \<noteq> [] \<and>
   \<lparr>xv = 0, yv = 0\<rparr> \<notin> set (polygonEdges squareA @ polygonEdges squareB) \<and>
   polygonVsPolygon (objects twoBoxEngine) 0 1 =
     Inr (Some \<lparr>m_bodyA = 0, m_bodyB = 1, normal = \<lparr>xv = 1, yv = 0\<rparr>, depth = 1/2,
                 hasCollision = True\<rparr>) \<and>
   isEdgeAxis squareA squareB \<lparr>xv = 1, yv = 0\<rparr> \<and>
   overlapOn squareA squareB \<lparr>xv = 1, yv = 0\<rparr> = 1/2 \<and>
   isEdgeAxis squareA squareB \<lparr>xv = 0, yv = 1\<rparr> \<and>
   1/2 \<le> overlapOn squareA squareB \<lparr>xv = 0, yv = 1\<rparr>"
proof -
  have n: "squareA \<noteq> []" "squareB \<noteq> []" by (simp_all add: squareA_def squareB_def)
  have z: "\<lparr>xv = 0, yv = 0\<rparr> \<notin> set (polygonEdges squareA @ polygonEdges squareB)"
    by (simp add: squares_edges)
  have y: "isEdgeAxis squareA squareB \<lparr>xv = 0, yv = 1\<rparr>"
    by (simp add: isEdgeAxis_def squares_edges vdot_def vlen_def)
  note t = polygonVsPolygon_sat[OF twoBox_vertices n z,
      unfolded Let_def twoBox_detect sum.case option.case Manifold.simps]
  from t have x: "isEdgeAxis squareA squareB \<lparr>xv = 1, yv = 0\<rparr>"
    and d: "overlapOn squareA squareB \<lparr>xv = 1, yv = 0\<rparr> = 1/2"
    and l: "\<forall>axis. isEdgeAxis squareA squareB axis \<longrightarrow> 1/2 \<le> overlapOn squareA squareB axis"
    by simp_all
  from l y have "1/2 \<le> overlapOn squareA squareB \<lparr>xv = 0, yv = 1\<rparr>" by blast
  with twoBox_vertices n z twoBox_detect x d y show ?thesis by blast
qed

section \<open>Fixed bodies\<close>

lemma keeps_refl [simp]: "keeps obj obj"
  by (simp add: keeps_def)

lemma keeps_trans: "keeps a b \<Longrightarrow> keeps b c \<Longrightarrow> keeps a c"
  by (simp add: keeps_def split: if_splits)

lemma keeps_all_refl [simp]: "keeps_all os os"
  by (simp add: keeps_all_def list_all2_refl)

lemma keeps_all_trans: "keeps_all a b \<Longrightarrow> keeps_all b c \<Longrightarrow> keeps_all a c"
  unfolding keeps_all_def by (rule list_all2_trans[of keeps keeps keeps, OF keeps_trans])

lemma keeps_all_length: "keeps_all os os' \<Longrightarrow> length os' = length os"
  by (simp add: keeps_all_def list_all2_lengthD)

lemma keeps_all_nth: "keeps_all os os' \<Longrightarrow> i < length os \<Longrightarrow> keeps (os ! i) (os' ! i)"
  by (simp add: keeps_all_def list_all2_nthD)

lemma keeps_all_update:
  assumes "keeps (os ! i) v"
  shows "keeps_all os (os[i := v])"
proof (cases "i < length os")
  case True
  have "list_all2 keeps os (os[i := v])"
    using True assms by (simp add: list_all2_conv_all_nth nth_list_update)
  then show ?thesis by (simp add: keeps_all_def)
next
  case False
  then show ?thesis by (simp add: list_update_beyond)
qed

lemma keeps_pos: "\<not> fixed obj \<Longrightarrow> keeps obj (obj\<lparr>pos := p\<rparr>)"
  by (simp add: keeps_def)

lemma keeps_oldPos: "keeps obj (obj\<lparr>oldPos := p\<rparr>)"
  by (simp add: keeps_def)

lemma keeps_all_move:
  "keeps_all os (if \<not> fixed (os ! i) then os[i := (os ! i)\<lparr>pos := p\<rparr>] else os)"
  by (simp add: keeps_all_update keeps_pos)

lemma keeps_all_brake:
  "keeps_all os (if \<not> fixed (os ! i) then os[i := (os ! i)\<lparr>oldPos := p\<rparr>] else os)"
  by (simp add: keeps_all_update keeps_oldPos)

subsection \<open>The constraint solver\<close>

lemma keeps_all_if: "keeps_all os x \<Longrightarrow> keeps_all os y \<Longrightarrow> keeps_all os (if c then x else y)"
  by simp

lemma solveConstraint_keeps: "keeps_all os (solveConstraint om c os)"
proof (cases "om (bodyA c)")
  case None
  then show ?thesis by (simp add: solveConstraint_def)
next
  case a: (Some a)
  show ?thesis
  proof (cases "om (bodyB c)")
    case None
    then show ?thesis by (simp add: solveConstraint_def a)
  next
    case b: (Some b)
    show ?thesis
      unfolding solveConstraint_def a b Let_def
      apply (simp only: option.case prod.case)
      apply (rule keeps_all_if)
       apply (rule keeps_all_refl)
      apply (rule keeps_all_if)
       apply (rule keeps_all_refl)
      apply (rule keeps_all_trans[OF keeps_all_move keeps_all_move])
      done
  qed
qed

lemma solve_keeps: "keeps_all os (solve cs om os)"
  unfolding solve_def
proof (induction cs arbitrary: os)
  case Nil
  show ?case by simp
next
  case (Cons c cs)
  show ?case using keeps_all_trans[OF solveConstraint_keeps Cons] by simp
qed

lemma solve_passes_keeps: "keeps_all os ((solve cs om ^^ n) os)"
proof (induction n)
  case 0
  show ?case by simp
next
  case (Suc n)
  show ?case using keeps_all_trans[OF Suc solve_keeps] by simp
qed

subsection \<open>Collision resolution\<close>

lemma applyResolution_keeps: "keeps_all os (applyResolution m os)"
  unfolding applyResolution_def Let_def
  apply (rule keeps_all_if)
   apply (rule keeps_all_refl)
  apply (rule keeps_all_trans[OF keeps_all_trans[OF keeps_all_trans[OF keeps_all_move keeps_all_move]
            keeps_all_brake] keeps_all_brake])
  done

lemma resolvePair_keeps: "keeps_all os (snd (resolvePair i j os))"
  by (simp add: resolvePair_def applyResolution_keeps split: sum.splits option.splits)

lemma resolvePairs_keeps: "keeps_all os (snd (resolvePairs ps os))"
proof (induction ps arbitrary: os)
  case Nil
  show ?case by simp
next
  case (Cons p ps)
  obtain i j where p: "p = (i, j)" by (cases p)
  obtain e os1 where r: "resolvePair i j os = (e, os1)" by (cases "resolvePair i j os")
  have k: "keeps_all os os1" using resolvePair_keeps[of os i j] by (simp add: r)
  show ?case
  proof (cases e)
    case None
    then show ?thesis using keeps_all_trans[OF k Cons[of os1]] by (simp add: p r)
  next
    case (Some err)
    then show ?thesis using k by (simp add: p r)
  qed
qed

lemma resolve_keeps: "keeps_all os (snd (resolve os))"
  by (simp add: resolve_def resolvePairs_keeps)

subsection \<open>Forces, integration and geometry\<close>

lemma keeps_all_map_enumerate:
  assumes "\<And>k obj. keeps obj (g k obj)"
  shows "keeps_all os (map (\<lambda>(k, obj). g k obj) (enumerate n os))"
  unfolding keeps_all_def
  by (induction os arbitrary: n) (simp_all add: assms)

lemma keeps_all_map:
  assumes "\<And>obj. keeps obj (g obj)"
  shows "keeps_all os (map g os)"
  unfolding keeps_all_def
  by (induction os) (simp_all add: assms)

lemma applyForces_keeps: "keeps_all (objects s) (objects (applyForces s))"
proof -
  have "keeps obj (if fixed obj \<or> draggedObj s = Some k then obj else applyForce obj)" for k obj
    by (simp add: keeps_def applyForce_def Let_def)
  from keeps_all_map_enumerate[of "\<lambda>k obj. if fixed obj \<or> draggedObj s = Some k then obj else applyForce obj", OF this]
  show ?thesis by (simp add: applyForces_def)
qed

lemma integrate_keeps: "keeps_all (objects s) (objects (integrate dt s))"
proof -
  have "keeps obj (if fixed obj then obj
                   else if draggedObj s = Some k then obj\<lparr>oldPos := pos obj, oldAngle := angle obj\<rparr>
                   else integrateObj dt obj)" for k obj
    by (simp add: keeps_def integrateObj_def Let_def)
  from keeps_all_map_enumerate[of "\<lambda>k obj. if fixed obj then obj
                   else if draggedObj s = Some k then obj\<lparr>oldPos := pos obj, oldAngle := angle obj\<rparr>
                   else integrateObj dt obj", OF this]
  show ?thesis by (simp add: integrate_def)
qed

lemma updateGeometry_keeps: "keeps obj (updateGeometry obj)"
  by (simp add: keeps_def updateGeometry_def Let_def)

subsection \<open>The step\<close>

lemma subStep_keeps: "keeps_all (objects s) (objects (snd (subStep dt s)))"
proof -
  let ?s1 = "applyForces s"
  let ?s2 = "integrate dt ?s1"
  let ?os3 = "map updateGeometry (objects ?s2)"
  let ?s3 = "?s2\<lparr>objects := ?os3\<rparr>"
  let ?os4 = "((solve (constraints ?s3) (objectMap ?s3)) ^^ constraintIterations) (objects ?s3)"
  have 1: "keeps_all (objects s) (objects ?s1)" by (rule applyForces_keeps)
  have 2: "keeps_all (objects ?s1) (objects ?s2)" by (rule integrate_keeps)
  have 3: "keeps_all (objects ?s2) ?os3" by (rule keeps_all_map[OF updateGeometry_keeps])
  have 4: "keeps_all ?os3 ?os4" using solve_passes_keeps[of ?os3] by simp
  have 5: "keeps_all ?os4 (snd (resolve ?os4))" by (rule resolve_keeps)
  have "objects (snd (subStep dt s)) = snd (resolve ?os4)"
    by (simp add: subStep_def Let_def split: prod.splits)
  with keeps_all_trans[OF keeps_all_trans[OF keeps_all_trans[OF keeps_all_trans[OF 1 2] 3] 4] 5]
  show ?thesis by simp
qed

lemma subStepLoop_keeps: "keeps_all (objects s) (objects (snd (subStepLoop n dt s)))"
proof (induction n arbitrary: s)
  case 0
  show ?case by simp
next
  case (Suc n)
  obtain e s1 where r: "subStep dt s = (e, s1)" by (cases "subStep dt s")
  have k: "keeps_all (objects s) (objects s1)" using subStep_keeps[of s dt] by (simp add: r)
  show ?case
  proof (cases e)
    case None
    then show ?thesis using keeps_all_trans[OF k Suc[of s1]] by (simp add: r)
  next
    case (Some err)
    then show ?thesis using k by (simp add: r)
  qed
qed

lemma step_keeps: "keeps_all (objects s) (objects (snd (step s)))"
  using subStepLoop_keeps[of "s\<lparr>time := time s + DT, fluidSystem := fluid_step DT GRAVITY (fluidSystem s)\<rparr>"]
  by (simp add: step_def Let_def)

lemma steps_keep: "keeps_all (objects s) (objects (((\<lambda>t. snd (step t)) ^^ n) s))"
proof (induction n)
  case 0
  show ?case by simp
next
  case (Suc n)
  show ?case using keeps_all_trans[OF Suc step_keeps] by simp
qed

subsection \<open>Inverse mass and inertia of fixed bodies\<close>

lemma newObject_mass_ok:
  "if fixed (newObject ty c i) then invMass (newObject ty c i) = 0 \<and> invInertia (newObject ty c i) = 0
   else True"
  by (simp add: newObject_def updateGeometry_def Let_def)

lemma addBody_mass_ok: "mass_ok (objects s) \<Longrightarrow> mass_ok (objects (snd (addBody ty c s)))"
  using newObject_mass_ok[of ty c] by (simp add: mass_ok_def objects_addBody)

lemma objects_connect_opt [simp]: "objects (connect_opt a b c s) = objects s"
  by (simp add: connect_opt_def split: option.splits)

lemma snd_clothRow_Cons:
  "snd (clothRow c sx dx py y (x # xs) s) =
     snd (clothRow c sx dx py y xs
            (snd (addBody Circle
                    (clothParticleConfig c (sx + real x * dx) py (js_and (cfg_pinTop c) (y = 0))) s)))"
  by (simp add: Let_def split: prod.splits)

lemma clothRow_mass_ok:
  "mass_ok (objects s) \<Longrightarrow> mass_ok (objects (snd (clothRow c sx dx py y xs s)))"
proof (induction xs arbitrary: s)
  case Nil
  then show ?case by simp
next
  case (Cons x xs)
  show ?case unfolding snd_clothRow_Cons
    by (rule Cons.IH, rule addBody_mass_ok, rule Cons.prems)
qed

lemma snd_clothParticles_Cons:
  "snd (clothParticles c sx sy dx dy xs (y # ys) s) =
     snd (clothParticles c sx sy dx dy xs ys (snd (clothRow c sx dx (sy - real y * dy) y xs s)))"
  by (simp add: Let_def split: prod.splits)

lemma clothParticles_mass_ok:
  "mass_ok (objects s) \<Longrightarrow> mass_ok (objects (snd (clothParticles c sx sy dx dy xs ys s)))"
proof (induction ys arbitrary: s)
  case Nil
  then show ?case by simp
next
  case (Cons y ys)
  show ?case unfolding snd_clothParticles_Cons
    by (rule Cons.IH, rule clothRow_mass_ok, rule Cons.prems)
qed

lemma clothConstraints_objects: "objects (snd (clothConstraints g segX segY cells s)) = objects s"
proof (induction cells arbitrary: s)
  case Nil
  show ?case by simp
next
  case (Cons yx cells)
  then show ?case by (cases yx) (simp add: Let_def)
qed

lemma objects_addCloth:
  "objects (snd (addCloth c s)) =
     objects (snd (clothParticles c
        (or_default (cfg_x c) 0 - or_default (cfg_width c) 4 / 2)
        (or_default (cfg_y c) 0 + or_default (cfg_height c) 4 / 2)
        (or_default (cfg_width c) 4 / or_default (cfg_segmentsX c) 10)
        (or_default (cfg_height c) 4 / or_default (cfg_segmentsY c) 10)
        [0..<loopCount (or_default (cfg_segmentsX c) 10)]
        [0..<loopCount (or_default (cfg_segmentsY c) 10)] s))"
proof -
  obtain grid s1 where p: "clothParticles c
        (or_default (cfg_x c) 0 - or_default (cfg_width c) 4 / 2)
        (or_default (cfg_y c) 0 + or_default (cfg_height c) 4 / 2)
        (or_default (cfg_width c) 4 / or_default (cfg_segmentsX c) 10)
        (or_default (cfg_height c) 4 / or_default (cfg_segmentsY c) 10)
        [0..<loopCount (or_default (cfg_segmentsX c) 10)]
        [0..<loopCount (or_default (cfg_segmentsY c) 10)] s = (grid, s1)"
    by (cases "clothParticles c
        (or_default (cfg_x c) 0 - or_default (cfg_width c) 4 / 2)
        (or_default (cfg_y c) 0 + or_default (cfg_height c) 4 / 2)
        (or_default (cfg_width c) 4 / or_default (cfg_segmentsX c) 10)
        (or_default (cfg_height c) 4 / or_default (cfg_segmentsY c) 10)
        [0..<loopCount (or_default (cfg_segmentsX c) 10)]
        [0..<loopCount (or_default (cfg_segmentsY c) 10)] s")
  obtain err s2 where q: "clothConstraints grid (or_default (cfg_segmentsX c) 10)
        (or_default (cfg_segmentsY c) 10)
        (List.product [0..<loopCount (or_default (cfg_segmentsY c) 10)]
                      [0..<loopCount (or_default (cfg_segmentsX c) 10)]) s1 = (err, s2)"
    by (cases "clothConstraints grid (or_default (cfg_segmentsX c) 10)
        (or_default (cfg_segmentsY c) 10)
        (List.product [0..<loopCount (or_default (cfg_segmentsY c) 10)]
                      [0..<loopCount (or_default (cfg_segmentsX c) 10)]) s1")
  have "objects s2 = objects s1"
    using clothConstraints_objects[of grid "or_default (cfg_segmentsX c) 10"
        "or_default (cfg_segmentsY c) 10"
        "List.product [0..<loopCount (or_default (cfg_segmentsY c) 10)]
                      [0..<loopCount (or_default (cfg_segmentsX c) 10)]" s1]
    by (simp add: q)
  moreover have "snd (addCloth c s) = s2"
    by (simp add: addCloth_def Let_def p q split: option.splits)
  ultimately show ?thesis by (simp add: p)
qed

lemma add_mass_ok: "mass_ok (objects s) \<Longrightarrow> mass_ok (objects (snd (add ty c s)))"
proof (cases "ty = Cloth")
  case True
  assume "mass_ok (objects s)"
  then show ?thesis using True
    by (simp add: add_def objects_addCloth clothParticles_mass_ok)
next
  case False
  assume "mass_ok (objects s)"
  then show ?thesis using False
    by (simp add: add_not_cloth addBody_mass_ok)
qed

lemma keeps_all_mass_ok:
  assumes "keeps_all os os'" and "mass_ok os"
  shows "mass_ok os'"
proof -
  have "if fixed (os' ! i) then invMass (os' ! i) = 0 \<and> invInertia (os' ! i) = 0 else True"
    if "i < length os'" for i
  proof -
    from that have i: "i < length os" using keeps_all_length[OF assms(1)] by simp
    from keeps_all_nth[OF assms(1) i] assms(2) i show ?thesis
      by (simp add: keeps_def mass_ok_def list_all_length split: if_splits)
  qed
  then show ?thesis by (simp add: mass_ok_def list_all_length)
qed

lemma objects_startDragLoop: "objects (startDragLoop x y is s) = objects s"
  by (induction "is") (simp_all add: Let_def)

lemma updateDrag_mass_ok: "mass_ok (objects s) \<Longrightarrow> mass_ok (objects (updateDrag x y s))"
proof (cases "draggedObj s")
  case None
  assume "mass_ok (objects s)"
  then show ?thesis by (simp add: updateDrag_def None)
next
  case (Some k)
  assume m: "mass_ok (objects s)"
  show ?thesis
  proof (cases "k < length (objects s)")
    case True
    with m show ?thesis
      by (simp add: updateDrag_def Some Let_def mass_ok_def list_all_length nth_list_update)
  next
    case False
    with m show ?thesis by (simp add: updateDrag_def Some Let_def list_update_beyond)
  qed
qed

lemma exec_mass_ok: "mass_ok (objects s) \<Longrightarrow> mass_ok (objects (exec call s))"
proof (cases call)
  case (Add ty c)
  assume "mass_ok (objects s)"
  then show ?thesis by (simp add: Add add_mass_ok)
next
  case (Connect a b c)
  assume "mass_ok (objects s)"
  then show ?thesis by (simp add: Connect)
next
  case Reset
  show ?thesis by (simp add: Reset reset_def mass_ok_def)
next
  case Step
  assume "mass_ok (objects s)"
  with keeps_all_mass_ok[OF step_keeps] show ?thesis by (simp add: Step)
next
  case (StartDrag x y)
  assume "mass_ok (objects s)"
  then show ?thesis by (simp add: StartDrag startDrag_def objects_startDragLoop)
next
  case (UpdateDrag x y)
  assume "mass_ok (objects s)"
  then show ?thesis by (simp add: UpdateDrag updateDrag_mass_ok)
next
  case EndDrag
  assume "mass_ok (objects s)"
  then show ?thesis by (simp add: EndDrag endDrag_def)
qed

lemma run_mass_ok: "mass_ok (objects s) \<Longrightarrow> mass_ok (objects (run calls s))"
  unfolding run_def
proof (induction calls arbitrary: s)
  case Nil
  then show ?case by simp
next
  case (Cons c cs)
  from Cons.IH[OF exec_mass_ok[OF Cons.prems]] show ?case by simp
qed

lemma new_mass_ok: "mass_ok (objects (PhysicsEngine_new rnd))"
  by (simp add: PhysicsEngine_new_def mass_ok_def)

text \<open>
  C1. In every state the engine reaches from its construction by calls of its
  interface, every fixed body has inverse mass 0 and inverse inertia 0; and after any
  number \<open>n\<close> of calls of \<^verbatim>\<open>step\<close> (whether or not one of them ended with an
  error, and whether or not a body is being dragged) that body is still fixed, still
  has inverse mass and inertia 0, and is at the position it had. The same holds for
  the integrator, one pass of the constraint solver and the resolution of any manifold
  taken alone: none of them changes the position of a fixed body.
\<close>

theorem fixed_bodies_stay:
  "let s = run calls (PhysicsEngine_new rnd);
       s' = ((\<lambda>t. snd (step t)) ^^ n) s
   in length (objects s') = length (objects s) \<and>
      (\<forall>i<length (objects s). fixed (objects s ! i) \<longrightarrow>
         invMass (objects s ! i) = 0 \<and> invInertia (objects s ! i) = 0 \<and>
         fixed (objects s' ! i) \<and> invMass (objects s' ! i) = 0 \<and>
         invInertia (objects s' ! i) = 0 \<and>
         pos (objects s' ! i) = pos (objects s ! i) \<and>
         pos (objects (integrate dt s) ! i) = pos (objects s ! i) \<and>
         pos (solve (constraints s) (objectMap s) (objects s) ! i) = pos (objects s ! i) \<and>
         pos (applyResolution m (objects s) ! i) = pos (objects s ! i))"
proof -
  let ?s = "run calls (PhysicsEngine_new rnd)"
  let ?s' = "((\<lambda>t. snd (step t)) ^^ n) ?s"
  have ok: "mass_ok (objects ?s)" by (rule run_mass_ok[OF new_mass_ok])
  have k: "keeps_all (objects ?s) (objects ?s')" by (rule steps_keep)
  have l: "length (objects ?s') = length (objects ?s)" by (rule keeps_all_length[OF k])
  have p: "invMass (objects ?s ! i) = 0 \<and> invInertia (objects ?s ! i) = 0 \<and>
         fixed (objects ?s' ! i) \<and> invMass (objects ?s' ! i) = 0 \<and>
         invInertia (objects ?s' ! i) = 0 \<and>
         pos (objects ?s' ! i) = pos (objects ?s ! i) \<and>
         pos (objects (integrate dt ?s) ! i) = pos (objects ?s ! i) \<and>
         pos (solve (constraints ?s) (objectMap ?s) (objects ?s) ! i) = pos (objects ?s ! i) \<and>
         pos (applyResolution m (objects ?s) ! i) = pos (objects ?s ! i)"
    if i: "i < length (objects ?s)" and f: "fixed (objects ?s ! i)" for i
  proof -
    from ok i f have z: "invMass (objects ?s ! i) = 0" "invInertia (objects ?s ! i) = 0"
      by (simp_all add: mass_ok_def list_all_length split: if_splits)
    from keeps_all_nth[OF k i] f z
    have a: "fixed (objects ?s' ! i)" "invMass (objects ?s' ! i) = 0" "invInertia (objects ?s' ! i) = 0"
      "pos (objects ?s' ! i) = pos (objects ?s ! i)"
      by (simp_all add: keeps_def)
    from keeps_all_nth[OF integrate_keeps i] f
    have b: "pos (objects (integrate dt ?s) ! i) = pos (objects ?s ! i)" by (simp add: keeps_def)
    from keeps_all_nth[OF solve_keeps i] f
    have c: "pos (solve (constraints ?s) (objectMap ?s) (objects ?s) ! i) = pos (objects ?s ! i)"
      by (simp add: keeps_def)
    from keeps_all_nth[OF applyResolution_keeps i] f
    have d: "pos (applyResolution m (objects ?s) ! i) = pos (objects ?s ! i)" by (simp add: keeps_def)
    from z a b c d show ?thesis by simp
  qed
  show ?thesis unfolding Let_def using l p by blast
qed

lemma groundScene_objects:
  "objects (run groundScene exampleEngine) =
     [newObject Plane (emptyConfig\<lparr>cfg_fixed := Some True, cfg_material := Some Concrete\<rparr>) ''obj_1'',
      newObject Box (emptyConfig\<lparr>cfg_mass := Some 10, cfg_material := Some Steel, cfg_y := Some 5,
                                 cfg_x := Some 4\<rparr>) ''obj_2'']"
  by (simp add: run_def groundScene_def add_not_cloth objects_addBody exampleEngine_def
      PhysicsEngine_new_def string_of_nat.simps)

lemma groundScene_plane:
  "fixed (objects (run groundScene exampleEngine) ! 0)"
  "pos (objects (run groundScene exampleEngine) ! 0) = \<lparr>xv = 0, yv = - (1/2)\<rparr>"
  by (simp_all add: groundScene_objects newObject_def updateGeometry_def emptyConfig_def
      or_default_def Let_def)

theorem fixed_bodies_stay_witness:
  "fixed (objects (run groundScene exampleEngine) ! 0) \<and>
   pos (objects (run groundScene exampleEngine) ! 0) = \<lparr>xv = 0, yv = - (1/2)\<rparr> \<and>
   invMass (objects (run groundScene exampleEngine) ! 0) = 0 \<and>
   fixed (objects (((\<lambda>t. snd (step t)) ^^ 60) (run groundScene exampleEngine)) ! 0) \<and>
   pos (objects (((\<lambda>t. snd (step t)) ^^ 60) (run groundScene exampleEngine)) ! 0) =
     \<lparr>xv = 0, yv = - (1/2)\<rparr>"
proof -
  have i: "0 < length (objects (run groundScene exampleEngine))"
    by (simp add: groundScene_objects)
  from fixed_bodies_stay[of groundScene "\<lambda>k. 1/2" 60] i groundScene_plane
  show ?thesis unfolding Let_def exampleEngine_def by simp
qed

end
